(* ===== verification/Prelude.thy ===== *)
theory Prelude
  imports Complex_Main "HOL-Library.Word" "HOL-Library.Log_Nat"
begin

text \<open>
  Shared vocabulary of the development: the byte type, the Python exceptions the
  modelled code can raise or propagate, the propagation operator for exceptions
  (\<open>raise_bind\<close>), a position lookup in lists used by the decoders, and small
  arithmetic facts on byte groups shared by the encoders. Nothing here models a
  particular line of \<open>_llm_caption.py\<close>.
\<close>

named_theorems model_simps "characteristic equations of the model's operations"

type_synonym byte = "8 word"
type_synonym bytes = "byte list"

text \<open>
  The Python exceptions that the captioning module raises or lets through. The
  exceptions raised inside the image library and the model client carry no payload
  that the module inspects; \<open>ClientError\<close> keeps the client's message.
\<close>

datatype py_error =
    ZeroDivisionError
  | IndexError
  | UnsupportedOperation
  | UnidentifiedImageError
  | OSError
  | ValueError
  | ClientError string

text \<open>
  An exception propagates: the rest of the computation runs only on a normal
  result. This is the sequencing of two Python statements that may raise.
\<close>

definition raise_bind :: "'e + 'a \<Rightarrow> ('a \<Rightarrow> 'e + 'b) \<Rightarrow> 'e + 'b" where
  "raise_bind r f = (case r of Inl e \<Rightarrow> Inl e | Inr a \<Rightarrow> f a)"

fun idx_of :: "'a list \<Rightarrow> 'a \<Rightarrow> nat option" where
  "idx_of [] x = None"
| "idx_of (y # ys) x = (if x = y then Some 0 else map_option Suc (idx_of ys x))"

subsection \<open>Propagation of exceptions\<close>

lemma raise_bind_Inl [simp]: "raise_bind (Inl e) f = Inl e"
  and raise_bind_Inr [simp]: "raise_bind (Inr a) f = f a"
  by (simp_all add: raise_bind_def)

lemma raise_bind_eq_Inr [simp]:
  "raise_bind r f = Inr b \<longleftrightarrow> (\<exists>a. r = Inr a \<and> f a = Inr b)"
  by (cases r) simp_all

lemma raise_bind_eq_Inl:
  "raise_bind r f = Inl e \<longleftrightarrow> r = Inl e \<or> (\<exists>a. r = Inr a \<and> f a = Inl e)"
  by (cases r) simp_all

subsection \<open>Position of an element in a list\<close>

lemma idx_of_nth [simp]:
  "distinct xs \<Longrightarrow> i < length xs \<Longrightarrow> idx_of xs (xs ! i) = Some i"
proof (induction xs arbitrary: i)
  case Nil
  then show ?case by simp
next
  case (Cons y ys)
  show ?case
  proof (cases i)
    case 0
    then show ?thesis by simp
  next
    case (Suc j)
    with Cons.prems have "ys ! j \<noteq> y" and "j < length ys" and "distinct ys"
      by (auto simp: nth_mem)
    with Cons.IH Suc show ?thesis by simp
  qed
qed

lemma idx_of_None [simp]: "x \<notin> set xs \<Longrightarrow> idx_of xs x = None"
  by (induction xs) auto

lemma idx_of_Some: "idx_of xs x = Some i \<Longrightarrow> i < length xs \<and> xs ! i = x"
  by (induction xs arbitrary: i) (auto split: if_splits)

subsection \<open>Groups of bytes as numbers\<close>

lemma div_low: "c < (k::nat) \<Longrightarrow> (x * k + c) div k = x"
  by simp

lemma mod_low: "c < (k::nat) \<Longrightarrow> (x * k + c) mod k = c"
  by simp

lemma unat_byte_less [simp]: "unat (b :: byte) < 256"
  using unsigned_less[of b] by simp

lemma word_of_nat_unat_byte [simp]: "(word_of_nat (unat (b :: byte)) :: byte) = b"
  by simp

text \<open>Three bytes read as one 24-bit big-endian number give each byte back.\<close>

lemma group_bytes:
  fixes a b c :: byte
  defines "n \<equiv> unat a * 65536 + unat b * 256 + unat c"
  shows "n div 65536 = unat a" and "n div 256 mod 256 = unat b"
    and "n mod 256 = unat c" and "n < 16777216"
proof -
  have ha: "unat a < 256" and hb: "unat b < 256" and hc: "unat c < 256"
    by simp_all
  have n2: "n = (unat a * 256 + unat b) * 256 + unat c"
    unfolding n_def by simp
  have r: "unat b * 256 + unat c < 65536"
    using hb hc by linarith
  have n1: "n = unat a * 65536 + (unat b * 256 + unat c)"
    unfolding n_def by (simp only: add.assoc)
  show "n div 65536 = unat a"
    unfolding n1 using div_low[OF r] .
  have q: "n div 256 = unat a * 256 + unat b"
    unfolding n2 using div_low[OF hc] .
  show "n div 256 mod 256 = unat b"
    unfolding q using mod_low[OF hb] .
  show "n mod 256 = unat c"
    unfolding n2 using mod_low[OF hc] .
  show "n < 16777216"
    unfolding n_def using ha hb hc by linarith
qed

text \<open>A number read as four 6-bit digits, most significant first, is recovered.\<close>

lemma sextets_recombine:
  fixes n :: nat
  shows "n div 262144 * 262144 + n div 4096 mod 64 * 4096 + n div 64 mod 64 * 64
           + n mod 64 = n"
proof -
  have d1: "n div 262144 = n div 4096 div 64"
    using div_mult2_eq[of n 4096 64] by simp
  have d2: "n div 4096 = n div 64 div 64"
    using div_mult2_eq[of n 64 64] by simp
  have a: "n div 4096 = n div 262144 * 64 + n div 4096 mod 64"
    using d1 div_mult_mod_eq[of "n div 4096" 64] by simp
  have b: "n div 64 = n div 4096 * 64 + n div 64 mod 64"
    using d2 div_mult_mod_eq[of "n div 64" 64] by simp
  have c: "n = n div 64 * 64 + n mod 64"
    by simp
  show ?thesis
    using a b c by linarith
qed

end
