(* ===== verification/Float64.thy ===== *)
theory Float64
  imports Prelude
begin

text \<open>
  Python floats as IEEE 754 binary64 values, kept as the rationals they denote.
  \<open>resize_image\<close> (lines 36-41 of \<open>_llm_caption.py\<close>) computes
  \<open>int((short_side_length / width) * height)\<close>: an \<open>int / int\<close> true division,
  which CPython rounds correctly to the nearest double, a multiplication of that double
  by an \<open>int\<close> converted to a double, rounded again, and \<open>int()\<close> of the result,
  which truncates towards zero.

  \<open>to_double\<close> rounds a rational to the nearest double with 53 significant bits, ties to
  even (\<open>round_even\<close>), using the binary exponent computed exactly from numerator and
  denominator (\<open>exponent\<close>). The exponent range is not bounded: the operands of
  \<open>resize_image\<close> are image dimensions and thresholds far inside the normal range of
  binary64, where neither overflow nor subnormal numbers occur.

  The lemmas give the exponent's bracket, the relative error \<open>2\<^sup>-\<^sup>5\<^sup>3\<close> of one
  rounding, exactness on integers below \<open>2\<^sup>5\<^sup>3\<close>, and the error of the two roundings of
  \<open>(a / w) * h\<close> (\<open>two_roundings\<close>). The last section shows that the values of
  \<open>to_double\<close> are binary64 values (a 53-bit significand times a power of two) and that
  rounding a double again changes nothing. All definitions evaluate by \<open>code_simp\<close>.
\<close>

definition exponent :: "rat \<Rightarrow> int" where
  "exponent x = (case quotient_of x of (p, q) \<Rightarrow>
     (let k = bitlen p - bitlen q in if power_int 2 k \<le> x then k else k - 1))"

definition round_even :: "rat \<Rightarrow> int" where
  "round_even y = (let f = \<lfloor>y\<rfloor>; d = y - of_int f in
     if d < 1/2 then f else if 1/2 < d then f + 1 else if even f then f else f + 1)"

definition round_pos :: "rat \<Rightarrow> rat" where
  "round_pos x = (let e = exponent x - 52 in of_int (round_even (x / power_int 2 e)) * power_int 2 e)"

definition to_double :: "rat \<Rightarrow> rat" where
  "to_double x = (if x = 0 then 0 else if 0 < x then round_pos x else - round_pos (- x))"

definition py_int :: "rat \<Rightarrow> int" where
  "py_int x = (if 0 \<le> x then \<lfloor>x\<rfloor> else - \<lfloor>- x\<rfloor>)"

definition py_truediv :: "int \<Rightarrow> int \<Rightarrow> py_error + rat" where
  "py_truediv a b = (if b = 0 then Inl ZeroDivisionError else Inr (to_double (of_int a / of_int b)))"

definition py_mul_int :: "rat \<Rightarrow> int \<Rightarrow> rat" where
  "py_mul_int x n = to_double (x * to_double (of_int n))"

lemma bitlen_pow:
  assumes "0 < (p::int)"
  shows "power_int (2::rat) (bitlen p - 1) \<le> of_int p \<and> of_int p < power_int (2::rat) (bitlen p)"
proof -
  have b: "2 ^ nat (bitlen p - 1) \<le> p \<and> p < 2 ^ nat (bitlen p)"
    using bitlen_bounds[OF assms] .
  have a1: "1 \<le> bitlen p"
    using assms bitlen_eq_zero_iff[of p] bitlen_nonneg[of p] by linarith
  have "power_int (2::rat) (bitlen p - 1) = of_int (2 ^ nat (bitlen p - 1))"
    using a1 by (simp add: power_int_def)
  moreover have "power_int (2::rat) (bitlen p) = of_int (2 ^ nat (bitlen p))"
    using a1 by (simp add: power_int_def)
  ultimately show ?thesis
    using b by (simp only: of_int_le_iff of_int_less_iff)
qed

lemma exponent_bounds:
  assumes "0 < x"
  shows "power_int 2 (exponent x) \<le> x \<and> x < power_int 2 (exponent x + 1)"
proof -
  obtain p q where pq: "quotient_of x = (p, q)"
    by (cases "quotient_of x")
  have q0: "0 < q"
    using quotient_of_denom_pos[OF pq] .
  have x_eq: "x = of_int p / of_int q"
    using quotient_of_div[OF pq] .
  have p0: "0 < p"
    using assms q0 x_eq by (simp add: zero_less_divide_iff)
  define a where "a = bitlen p"
  define b where "b = bitlen q"
  have lp: "power_int (2::rat) (a - 1) \<le> of_int p" and up: "of_int p < power_int (2::rat) a"
    using bitlen_pow[OF p0] unfolding a_def by auto
  have lq: "power_int (2::rat) (b - 1) \<le> of_int q" and uq: "of_int q < power_int (2::rat) b"
    using bitlen_pow[OF q0] unfolding b_def by auto
  have qpos: "(0::rat) < of_int q"
    using q0 by simp
  have l1: "of_int p / power_int 2 b < x"
    unfolding x_eq using uq qpos p0 by (intro divide_strict_left_mono) simp_all
  have l2: "power_int 2 (a - 1) / power_int 2 b \<le> of_int p / (power_int 2 b :: rat)"
    using lp by (intro divide_right_mono) simp_all
  have l3: "power_int (2::rat) (a - b - 1) = power_int 2 (a - 1) / power_int 2 b"
    using power_int_diff[of "2::rat" "a - 1" b] by (simp add: algebra_simps)
  have lower: "power_int (2::rat) (a - b - 1) < x"
    using l1 l2 l3 by linarith
  have u1: "x < power_int 2 a / of_int q"
    unfolding x_eq using up qpos by (intro divide_strict_right_mono) simp_all
  have u2: "power_int 2 a / of_int q \<le> power_int 2 a / (power_int 2 (b - 1) :: rat)"
    using lq qpos by (intro divide_left_mono) (simp_all add: mult_pos_pos)
  have u3: "power_int (2::rat) (a - b + 1) = power_int 2 a / power_int 2 (b - 1)"
    using power_int_diff[of "2::rat" a "b - 1"] by (simp add: algebra_simps)
  have upper: "x < power_int (2::rat) (a - b + 1)"
    using u1 u2 u3 by linarith
  have e: "exponent x = (if power_int 2 (a - b) \<le> x then a - b else a - b - 1)"
    by (simp add: exponent_def pq a_def b_def Let_def)
  show ?thesis
  proof (cases "power_int (2::rat) (a - b) \<le> x")
    case True
    then show ?thesis using e upper by simp
  next
    case False
    then show ?thesis using e lower by simp
  qed
qed

lemma round_even_err: "\<bar>of_int (round_even y) - y\<bar> \<le> 1 / 2"
proof -
  have f: "of_int \<lfloor>y\<rfloor> \<le> y \<and> y < of_int \<lfloor>y\<rfloor> + 1"
    by linarith
  then show ?thesis
    unfolding round_even_def Let_def by (auto split: if_splits)
qed

lemma round_even_int [simp]: "round_even (of_int m) = m"
  by (simp add: round_even_def)

lemma round_pos_err:
  assumes "0 < x"
  shows "\<bar>round_pos x - x\<bar> \<le> x / 2 ^ 53"
proof -
  define e where "e = exponent x - 52"
  define P where "P = power_int (2::rat) e"
  have P0: "0 < P"
    unfolding P_def by simp
  have "round_pos x - x = (of_int (round_even (x / P)) - x / P) * P"
    using P0 by (simp add: round_pos_def Let_def e_def P_def algebra_simps)
  then have "\<bar>round_pos x - x\<bar> = \<bar>of_int (round_even (x / P)) - x / P\<bar> * P"
    using P0 by (simp add: abs_mult)
  also have "\<dots> \<le> 1 / 2 * P"
    using round_even_err P0 by (intro mult_right_mono) simp_all
  also have "1 / 2 * P = power_int 2 (exponent x) / 2 ^ 53"
    using power_int_diff[of "2::rat" "exponent x" 52] by (simp add: P_def e_def)
  also have "\<dots> \<le> x / 2 ^ 53"
    using exponent_bounds[OF assms] by (simp add: divide_right_mono)
  finally show ?thesis .
qed

lemma to_double_err: "\<bar>to_double x - x\<bar> \<le> \<bar>x\<bar> / 2 ^ 53"
proof (cases "0 < x")
  case True
  then show ?thesis using round_pos_err[of x] by (simp add: to_double_def)
next
  case False
  show ?thesis
  proof (cases "x = 0")
    case True
    then show ?thesis by (simp add: to_double_def)
  next
    case False
    with \<open>\<not> 0 < x\<close> have "0 < - x" by simp
    then show ?thesis using round_pos_err[of "- x"] False \<open>\<not> 0 < x\<close>
      by (simp add: to_double_def)
  qed
qed

lemma to_double_exact_int:
  assumes "0 \<le> k" and "k < 2 ^ 53"
  shows "to_double (of_int k) = of_int k"
proof (cases "k = 0")
  case True
  then show ?thesis by (simp add: to_double_def)
next
  case False
  with assms have kpos: "(0::rat) < of_int k" by simp
  define e where "e = exponent (of_int k)"
  have "power_int (2::rat) e < power_int 2 53"
    using exponent_bounds[OF kpos] assms(2) unfolding e_def
    by (simp add: power_int_numeral)
  then have e53: "e < 53"
    using power_int_le_imp_less_exp[of "2::rat" e 53] by simp
  define m where "m = k * 2 ^ nat (52 - e)"
  have scaled: "of_int k / power_int (2::rat) (e - 52) = of_int m"
  proof -
    have "power_int (2::rat) (e - 52) = 1 / 2 ^ nat (52 - e)"
      using e53 by (simp add: power_int_def power_one_over)
    then show ?thesis by (simp add: m_def)
  qed
  have unscaled: "of_int m * power_int (2::rat) (e - 52) = of_int k"
    using scaled by (simp add: field_simps)
  show ?thesis
    using kpos scaled unscaled by (simp add: to_double_def round_pos_def Let_def e_def[symmetric])
qed

lemma to_double_pos:
  assumes "0 < x"
  shows "0 < to_double x"
proof -
  have "x - round_pos x \<le> x / 2 ^ 53"
    using abs_le_D2[OF round_pos_err[OF assms]] by simp
  moreover have "x / 2 ^ 53 < x"
    using assms by simp
  ultimately show ?thesis
    using assms by (simp add: to_double_def)
qed

lemma py_int_nonneg [simp]: "0 \<le> x \<Longrightarrow> py_int x = \<lfloor>x\<rfloor>"
  by (simp add: py_int_def)

lemma err_compose:
  fixes A Y Z :: rat
  assumes "\<bar>Y - A\<bar> \<le> A / 2 ^ 53" and "\<bar>Z - Y\<bar> \<le> Y / 2 ^ 53" and "0 \<le> A"
  shows "\<bar>Z - A\<bar> \<le> A / 2 ^ 51"
proof -
  have p53: "(2::rat) ^ 53 = 9007199254740992" and p51: "(2::rat) ^ 51 = 2251799813685248"
    by simp_all
  show ?thesis
    using assms unfolding p53 p51 abs_le_iff by linarith
qed

lemma two_roundings:
  assumes a: "0 < a" and n: "0 \<le> n" "n < 2 ^ 53"
  shows "\<bar>py_mul_int (to_double a) n - a * of_int n\<bar> \<le> a * of_int n / 2 ^ 51"
proof -
  define t where "t = to_double a"
  define A where "A = a * of_int n"
  have A0: "0 \<le> A"
    unfolding A_def using a n by simp
  have et: "\<bar>t - a\<bar> \<le> a / 2 ^ 53"
    unfolding t_def using to_double_err[of a] a by simp
  have t0: "0 < t"
    unfolding t_def using to_double_pos[OF a] .
  have nn: "(0::rat) \<le> of_int n"
    using n by simp
  have exact: "to_double (of_int n) = of_int n"
    using to_double_exact_int[OF n] .
  have e1: "\<bar>t * of_int n - A\<bar> \<le> A / 2 ^ 53"
  proof -
    have "\<bar>t * of_int n - A\<bar> = \<bar>t - a\<bar> * of_int n"
      unfolding A_def using nn by (simp add: abs_mult left_diff_distrib[symmetric])
    also have "\<dots> \<le> a / 2 ^ 53 * of_int n"
      using et nn by (rule mult_right_mono)
    finally show ?thesis
      unfolding A_def by simp
  qed
  have e2: "\<bar>to_double (t * of_int n) - t * of_int n\<bar> \<le> t * of_int n / 2 ^ 53"
    using to_double_err[of "t * of_int n"] t0 nn by simp
  have "\<bar>to_double (t * of_int n) - A\<bar> \<le> A / 2 ^ 51"
    using e1 e2 A0 by (rule err_compose)
  then show ?thesis
    unfolding py_mul_int_def exact t_def A_def .
qed

section \<open>The values of to_double are the doubles\<close>

lemma exponent_unique:
  assumes "0 < x" and "power_int 2 k \<le> x" and "x < power_int 2 (k + 1)"
  shows "exponent x = k"
proof -
  have lo: "power_int 2 (exponent x) \<le> x"
    using exponent_bounds[OF assms(1)] by (rule conjunct1)
  have hi: "x < power_int 2 (exponent x + 1)"
    using exponent_bounds[OF assms(1)] by (rule conjunct2)
  have "\<not> k < exponent x"
  proof
    assume "k < exponent x"
    then have "power_int (2::rat) (k + 1) \<le> power_int 2 (exponent x)"
      by (intro power_int_increasing) simp_all
    then show False
      using lo assms(3) by simp
  qed
  moreover have "\<not> exponent x < k"
  proof
    assume "exponent x < k"
    then have "power_int (2::rat) (exponent x + 1) \<le> power_int 2 k"
      by (intro power_int_increasing) simp_all
    then show False
      using hi assms(2) by simp
  qed
  ultimately show ?thesis
    by simp
qed

lemma round_even_floor: "\<lfloor>y\<rfloor> \<le> round_even y \<and> round_even y \<le> \<lfloor>y\<rfloor> + 1"
  by (simp add: round_even_def Let_def)

lemma pow2_scale: "power_int (2::rat) (e + k) = power_int 2 e * power_int 2 k"
  by (simp add: power_int_add)

lemma round_pos_binary64:
  assumes "0 < x"
  shows "\<exists>m e. round_pos x = of_int m * power_int 2 e \<and> 2 ^ 52 \<le> m \<and> m < 2 ^ 53"
proof -
  define e where "e = exponent x - 52"
  define P where "P = power_int (2::rat) e"
  define y where "y = x / P"
  have P0: "0 < P"
    unfolding P_def by simp
  have ex: "exponent x = e + 52" and ex1: "exponent x + 1 = e + 53"
    by (simp_all add: e_def)
  have "power_int 2 (e + 52) \<le> x"
    using exponent_bounds[OF assms] unfolding ex by (rule conjunct1)
  moreover have "x < power_int 2 (e + 53)"
    using exponent_bounds[OF assms] unfolding ex1 by (rule conjunct2)
  ultimately have "P * 2 ^ 52 \<le> x" and "x < P * 2 ^ 53"
    unfolding P_def pow2_scale by (simp_all add: power_int_numeral)
  then have ylo: "2 ^ 52 \<le> y" and yhi: "y < 2 ^ 53"
    unfolding y_def using P0 by (simp_all add: field_simps)
  have flo: "2 ^ 52 \<le> \<lfloor>y\<rfloor>"
    using ylo by (simp add: le_floor_iff)
  have fhi: "\<lfloor>y\<rfloor> < 2 ^ 53"
    using yhi by (simp add: floor_less_iff)
  have r: "round_pos x = of_int (round_even y) * P"
    by (simp add: round_pos_def Let_def e_def P_def y_def)
  have rlo: "2 ^ 52 \<le> round_even y" and rhi: "round_even y \<le> 2 ^ 53"
    using round_even_floor[of y] flo fhi by linarith+
  show ?thesis
  proof (cases "round_even y < 2 ^ 53")
    case True
    then show ?thesis
      using r rlo unfolding P_def by blast
  next
    case False
    then have "round_even y = 2 ^ 52 * 2"
      using rhi by simp
    then have "round_pos x = of_int (2 ^ 52) * power_int 2 (e + 1)"
      unfolding r P_def pow2_scale by simp
    then show ?thesis
      by fastforce
  qed
qed

lemma round_pos_binary_exact:
  assumes "2 ^ 52 \<le> m" and "m < 2 ^ 53"
  shows "round_pos (of_int m * power_int 2 e) = of_int m * power_int 2 e"
proof -
  define x where "x = of_int m * power_int (2::rat) e"
  have "rat_of_int (2 ^ 52) \<le> of_int m"
    using assms(1) by (simp only: of_int_le_iff)
  then have mlo: "(2::rat) ^ 52 \<le> of_int m"
    by simp
  have "of_int m < rat_of_int (2 ^ 53)"
    using assms(2) by (simp only: of_int_less_iff)
  then have mhi: "of_int m < (2::rat) ^ 53"
    by simp
  have P0: "(0::rat) < power_int 2 e"
    by simp
  have x0: "0 < x"
    unfolding x_def using mlo P0 by (simp add: zero_less_mult_iff)
  have "power_int 2 (e + 52) \<le> x"
    unfolding x_def pow2_scale using mlo P0 by (simp add: power_int_numeral mult.commute)
  moreover have "x < power_int 2 (e + 52 + 1)"
    unfolding x_def pow2_scale using mhi P0 by (simp add: power_int_numeral mult.commute)
  ultimately have "exponent x = e + 52"
    using exponent_unique[OF x0] by blast
  then show ?thesis
    unfolding x_def[symmetric] by (simp add: round_pos_def Let_def x_def)
qed


lemma binary64_pos: "2 ^ 52 \<le> m \<Longrightarrow> (0::rat) < of_int m * power_int 2 e"
  by (simp add: zero_less_mult_iff)

lemma to_double_round_pos:
  "0 < x \<Longrightarrow> to_double x = round_pos x"
  "x < 0 \<Longrightarrow> to_double x = - round_pos (- x)"
  by (simp_all add: to_double_def)

theorem to_double_binary64:
  "\<exists>m e. \<bar>to_double x\<bar> = of_int m * power_int 2 e \<and> (m = 0 \<or> 2 ^ 52 \<le> m \<and> m < 2 ^ 53)"
proof (cases "x = 0")
  case True
  then show ?thesis
    by (intro exI[of _ 0] exI[of _ 0]) (simp add: to_double_def)
next
  case False
  then have ax: "0 < \<bar>x\<bar>"
    by simp
  obtain m e where r: "round_pos \<bar>x\<bar> = of_int m * power_int 2 e" and m: "2 ^ 52 \<le> m" "m < 2 ^ 53"
    using round_pos_binary64[OF ax] by blast
  have "\<bar>to_double x\<bar> = round_pos \<bar>x\<bar>"
  proof (cases "0 < x")
    case True
    then show ?thesis
      using r binary64_pos[OF m(1), of e] by (simp add: to_double_round_pos)
  next
    case False
    then have "x < 0"
      using \<open>x \<noteq> 0\<close> by simp
    then show ?thesis
      using r binary64_pos[OF m(1), of e] by (simp add: to_double_round_pos)
  qed
  then show ?thesis
    using r m by (intro exI[of _ m] exI[of _ e]) simp
qed

theorem to_double_idempotent: "to_double (to_double x) = to_double x"
proof (cases "x = 0")
  case True
  then show ?thesis by (simp add: to_double_def)
next
  case False
  then have ax: "0 < \<bar>x\<bar>"
    by simp
  obtain m e where r: "round_pos \<bar>x\<bar> = of_int m * power_int 2 e" and m: "2 ^ 52 \<le> m" "m < 2 ^ 53"
    using round_pos_binary64[OF ax] by blast
  have p: "(0::rat) < of_int m * power_int 2 e"
    by (rule binary64_pos[OF m(1)])
  have ex: "round_pos (of_int m * power_int 2 e) = of_int m * power_int 2 e"
    by (rule round_pos_binary_exact[OF m])
  show ?thesis
  proof (cases "0 < x")
    case True
    then show ?thesis
      using r p ex by (simp add: to_double_round_pos)
  next
    case False
    then have "x < 0"
      using \<open>x \<noteq> 0\<close> by simp
    then show ?thesis
      using r p ex by (simp add: to_double_round_pos)
  qed
qed

end
