(* ===== verification/Base64.thy ===== *)
theory Base64
  imports Prelude
begin

text \<open>
  The standard Base64 encoding of RFC 4648 (alphabet \<open>A-Z a-z 0-9 + /\<close>, padding
  \<open>=\<close>), as \<open>base64.b64encode(...).decode("utf-8")\<close> computes it in
  \<open>encode_image_as_base64_data_uri\<close> (lines 16 and 26 of \<open>_llm_caption.py\<close>).
  The encoder reads the input three bytes at a time as a 24-bit big-endian number and
  writes it as four 6-bit digits; a final group of one or two bytes is padded with
  zero bits and completed by \<open>==\<close> or \<open>=\<close>. Its output is ASCII, so the
  \<open>.decode("utf-8")\<close> of the source is the identity on it and the model returns the
  characters directly. The decoder \<open>b64decode\<close> is the strict RFC decoder (padding
  only in the last group); it is not called by the module and serves to state the
  round trip that the data URI's payload decodes back to the bytes encoded.
\<close>

definition b64_alphabet :: string where
  "b64_alphabet = ''ABCDEFGHIJKLMNOPQRSTUVWXYZabcdefghijklmnopqrstuvwxyz0123456789+/''"

definition b64_pad :: char where
  "b64_pad = CHR ''=''"

definition b64_digit :: "nat \<Rightarrow> char" where
  "b64_digit i = b64_alphabet ! i"

text \<open>The 24-bit number of a group of three bytes, first byte most significant.\<close>

definition group3 :: "byte \<Rightarrow> byte \<Rightarrow> byte \<Rightarrow> nat" where
  "group3 a b c = unat a * 65536 + unat b * 256 + unat c"

definition b64_quad :: "nat \<Rightarrow> string" where
  "b64_quad n = [b64_digit (n div 262144), b64_digit (n div 4096 mod 64),
                 b64_digit (n div 64 mod 64), b64_digit (n mod 64)]"

fun b64encode :: "bytes \<Rightarrow> string" where
  "b64encode (a # b # c # rest) = b64_quad (group3 a b c) @ b64encode rest"
| "b64encode [a, b] = take 3 (b64_quad (group3 a b 0)) @ [b64_pad]"
| "b64encode [a] = take 2 (b64_quad (group3 a 0 0)) @ [b64_pad, b64_pad]"
| "b64encode [] = []"

subsection \<open>The decoder of the specification\<close>

definition sextet :: "char \<Rightarrow> nat option" where
  "sextet c = idx_of b64_alphabet c"

definition bytes3 :: "nat \<Rightarrow> bytes" where
  "bytes3 n = [word_of_nat (n div 65536), word_of_nat (n div 256 mod 256), word_of_nat (n mod 256)]"

fun b64decode :: "string \<Rightarrow> bytes option" where
  "b64decode [] = Some []"
| "b64decode (c0 # c1 # c2 # c3 # rest) =
     (case (sextet c0, sextet c1) of
        (Some d0, Some d1) \<Rightarrow>
          if rest = [] \<and> c2 = b64_pad \<and> c3 = b64_pad
          then Some (take 1 (bytes3 (d0 * 262144 + d1 * 4096)))
          else (case sextet c2 of
                  None \<Rightarrow> None
                | Some d2 \<Rightarrow>
                    if rest = [] \<and> c3 = b64_pad
                    then Some (take 2 (bytes3 (d0 * 262144 + d1 * 4096 + d2 * 64)))
                    else (case sextet c3 of
                            None \<Rightarrow> None
                          | Some d3 \<Rightarrow>
                              map_option ((@) (bytes3 (d0 * 262144 + d1 * 4096 + d2 * 64 + d3)))
                                (b64decode rest)))
      | _ \<Rightarrow> None)"
| "b64decode _ = None"

subsection \<open>Digits\<close>

lemma b64_alphabet_distinct: "distinct b64_alphabet"
  by code_simp

lemma b64_alphabet_length [simp]: "length b64_alphabet = 64"
  by (simp add: b64_alphabet_def)

lemma b64_pad_notin: "b64_pad \<notin> set b64_alphabet"
  by (simp add: b64_alphabet_def b64_pad_def)

lemma sextet_digit [simp]: "i < 64 \<Longrightarrow> sextet (b64_digit i) = Some i"
  by (simp add: sextet_def b64_digit_def b64_alphabet_distinct)

lemma b64_digit_in: "i < 64 \<Longrightarrow> b64_digit i \<in> set b64_alphabet"
  by (simp add: b64_digit_def)

lemma b64_digit_not_pad [simp]: "i < 64 \<Longrightarrow> b64_digit i \<noteq> b64_pad"
  using b64_digit_in[of i] b64_pad_notin by force

lemma group3_bound: "group3 a b c < 16777216"
  unfolding group3_def by (rule group_bytes(4))

lemma group3_top_digit: "group3 a b c div 262144 < 64"
  using group3_bound[of a b c] by simp

lemma bytes3_group3 [simp]: "bytes3 (group3 a b c) = [a, b, c]"
  unfolding bytes3_def group3_def by (simp add: group_bytes(1-3))

lemma group3_low_zero: "group3 a b 0 mod 64 = 0"
proof -
  have "group3 a b 0 = (unat a * 1024 + unat b * 4) * 64"
    unfolding group3_def by simp
  then show ?thesis by simp
qed

lemma group3_low2_zero: "group3 a 0 0 mod 4096 = 0"
  unfolding group3_def by simp

text \<open>The digits of a padded group decode to the group's number.\<close>

lemma quad_value_2:
  fixes n :: nat
  assumes "n mod 64 = 0"
  shows "n div 262144 * 262144 + n div 4096 mod 64 * 4096 + n div 64 mod 64 * 64 = n"
  using sextets_recombine[of n] assms by simp

lemma quad_value_1:
  fixes n :: nat
  assumes "n mod 4096 = 0"
  shows "n div 262144 * 262144 + n div 4096 mod 64 * 4096 = n"
proof -
  have "n div 64 mod 64 = 0"
    using assms mod_mult2_eq[of n 64 64] by simp
  moreover have "n mod 64 = 0"
    using assms mod_mod_cancel[of 64 4096 n] by simp
  ultimately show ?thesis
    using sextets_recombine[of n] by simp
qed

subsection \<open>Round trip, length and alphabet\<close>

lemma b64decode_quad:
  "b64decode (b64_quad (group3 a b c) @ rest) = map_option ((@) [a, b, c]) (b64decode rest)"
proof -
  define n where "n = group3 a b c"
  have top: "n div 262144 < 64"
    unfolding n_def by (rule group3_top_digit)
  have "b64decode (b64_quad n @ rest) = map_option ((@) (bytes3 n)) (b64decode rest)"
    using top by (simp add: b64_quad_def sextets_recombine)
  then show ?thesis
    unfolding n_def by simp
qed

lemma b64decode_pad1:
  "b64decode (take 3 (b64_quad (group3 a b 0)) @ [b64_pad]) = Some [a, b]"
proof -
  define n where "n = group3 a b 0"
  have top: "n div 262144 < 64"
    unfolding n_def by (rule group3_top_digit)
  have v: "n div 262144 * 262144 + n div 4096 mod 64 * 4096 + n div 64 mod 64 * 64 = n"
    unfolding n_def by (rule quad_value_2) (rule group3_low_zero)
  have "b64decode (take 3 (b64_quad n) @ [b64_pad]) = Some (take 2 (bytes3 n))"
    using top v by (simp add: b64_quad_def)
  then show ?thesis
    unfolding n_def by simp
qed

lemma b64decode_pad2:
  "b64decode (take 2 (b64_quad (group3 a 0 0)) @ [b64_pad, b64_pad]) = Some [a]"
proof -
  define n where "n = group3 a 0 0"
  have top: "n div 262144 < 64"
    unfolding n_def by (rule group3_top_digit)
  have v: "n div 262144 * 262144 + n div 4096 mod 64 * 4096 = n"
    unfolding n_def by (rule quad_value_1) (rule group3_low2_zero)
  have "b64decode (take 2 (b64_quad n) @ [b64_pad, b64_pad]) = Some (take 1 (bytes3 n))"
    using top v by (simp add: b64_quad_def)
  then show ?thesis
    unfolding n_def by simp
qed

lemma b64decode_b64encode [simp]: "b64decode (b64encode bs) = Some bs"
  by (induction bs rule: b64encode.induct)
    (simp_all add: b64decode_quad b64decode_pad1 b64decode_pad2)

theorem b64_roundtrip: "b64decode (b64encode bs) = Some bs"
  by (rule b64decode_b64encode)

theorem b64_length: "length (b64encode bs) = 4 * ((length bs + 2) div 3)"
  by (induction bs rule: b64encode.induct) (simp_all add: b64_quad_def, presburger)

lemma b64_quad_chars: "n < 16777216 \<Longrightarrow> set (b64_quad n) \<subseteq> set b64_alphabet"
  by (simp add: b64_quad_def b64_digit_in)

theorem b64_output_alphabet: "set (b64encode bs) \<subseteq> insert b64_pad (set b64_alphabet)"
proof (induction bs rule: b64encode.induct)
  case (1 a b c rest)
  then show ?case using b64_quad_chars[OF group3_bound, of a b c] by auto
next
  case (2 a b)
  then show ?case using b64_quad_chars[OF group3_bound, of a b 0] by (auto dest: in_set_takeD)
next
  case (3 a)
  then show ?case using b64_quad_chars[OF group3_bound, of a 0 0] by (auto dest: in_set_takeD)
next
  case 4
  then show ?case by simp
qed

lemma b64_alphabet_ascii: "\<forall>c \<in> insert b64_pad (set b64_alphabet). of_char c < (128::nat)"
  by code_simp

corollary b64_ascii: "c \<in> set (b64encode bs) \<Longrightarrow> of_char c < (128::nat)"
  using b64_output_alphabet b64_alphabet_ascii by blast
end
