(* ===== verification/Image.thy ===== *)
theory Image
  imports Float64 Base64
begin

text \<open>
  The image normalisation of \<open>_llm_caption.py\<close>: \<open>resize_image\<close> (lines 29-44) and
  \<open>encode_image_as_base64_data_uri\<close> (lines 11-26).

  PIL is the collaborator. An image is the record \<open>image\<close> with PIL's
  \<open>Image.format\<close> (\<open>Some ''JPEG''\<close> or \<open>Some ''PNG''\<close> for an opened file, \<open>None\<close>
  for a derived image), \<open>Image.size\<close> as \<open>(width, height)\<close>, the mode and an abstract
  pixel payload \<open>'p\<close>. The four library calls the module makes are the fields of the
  record \<open>codec\<close>: \<open>Image.open\<close> with the formats JPEG, JPG and PNG, \<open>resize\<close>
  with bilinear resampling, \<open>convert\<close> and \<open>save(format="JPEG")\<close>; each may raise.
  What PIL promises of them is the predicate \<open>pil_contract\<close>: a resize to positive
  dimensions succeeds with exactly those dimensions, conversion to RGB and saving as JPEG
  succeed. \<open>demo_codec\<close> is a small codec that satisfies it, used to run the
  definitions on concrete bytes.

  \<open>resize_dims\<close> is lines 34-41 with Python's float arithmetic (theory
  \<open>Float64\<close>); \<open>resize_image\<close> hands its result to \<open>Image.resize\<close>.
  \<open>encode_image_as_base64_data_uri\<close> returns the lines printed to standard output
  (the \<open>print\<close> of line 21) with the result; \<open>maybe_resize\<close> is lines 18-21 and
  \<open>reencode_jpeg\<close> lines 23-26.
\<close>

section \<open>Definitions\<close>

record 'p image =
  img_format :: "string option"
  img_size :: "int \<times> int"
  img_mode :: string
  img_pixels :: 'p

record 'p codec =
  open_image :: "bytes \<Rightarrow> py_error + 'p image"
  resize_op :: "'p image \<Rightarrow> int \<times> int \<Rightarrow> py_error + 'p image"
  convert_op :: "'p image \<Rightarrow> string \<Rightarrow> py_error + 'p image"
  save_jpeg :: "'p image \<Rightarrow> py_error + bytes"

definition img_min_side :: "'p image \<Rightarrow> int" where
  "img_min_side img = min (fst (img_size img)) (snd (img_size img))"

fun nat_str :: "nat \<Rightarrow> string" where
  "nat_str n = (if n < 10 then [char_of (48 + n)] else nat_str (n div 10) @ [char_of (48 + n mod 10)])"

definition py_str_int :: "int \<Rightarrow> string" where
  "py_str_int i = (if i < 0 then CHR ''-'' # nat_str (nat (- i)) else nat_str (nat i))"

definition size_str :: "int \<times> int \<Rightarrow> string" where
  "size_str sz = ''('' @ py_str_int (fst sz) @ '', '' @ py_str_int (snd sz) @ '')''"

definition resize_message :: "int \<times> int \<Rightarrow> int \<times> int \<Rightarrow> string" where
  "resize_message ori new = ''Image resized from '' @ size_str ori @ '' to '' @ size_str new @ ''.''"

text \<open>Reading a string of decimal digits back as a number, as Python's \<open>int(str)\<close> does
  on the digits \<open>str(n)\<close> prints; used to state that the sizes in the message are exact.\<close>

definition dec_val :: "string \<Rightarrow> nat" where
  "dec_val ds = foldl (\<lambda>acc c. 10 * acc + (of_char c - 48)) 0 ds"

definition resize_dims :: "int \<Rightarrow> int \<Rightarrow> int \<Rightarrow> py_error + int \<times> int" where
  "resize_dims short_side_length width height =
     (if width \<le> height
      then raise_bind (py_truediv short_side_length width)
             (\<lambda>r. Inr (short_side_length, py_int (py_mul_int r height)))
      else raise_bind (py_truediv short_side_length height)
             (\<lambda>r. Inr (py_int (py_mul_int r width), short_side_length)))"

definition long_side :: "int \<Rightarrow> int \<Rightarrow> int \<Rightarrow> int" where
  "long_side s short long = py_int (py_mul_int (to_double (of_int s / of_int short)) long)"

definition resize_image :: "'p codec \<Rightarrow> 'p image \<Rightarrow> int \<Rightarrow> py_error + 'p image" where
  "resize_image codec img short_side_length =
     raise_bind (resize_dims short_side_length (fst (img_size img)) (snd (img_size img)))
       (resize_op codec img)"

definition data_uri_prefix :: string where
  "data_uri_prefix = ''data:image/jpeg;base64,''"

definition jpeg_data_uri :: "bytes \<Rightarrow> string" where
  "jpeg_data_uri bs = data_uri_prefix @ b64encode bs"

definition is_jpeg_format :: "string option \<Rightarrow> bool" where
  "is_jpeg_format fmt \<longleftrightarrow> fmt = Some ''JPEG'' \<or> fmt = Some ''JPG''"

definition maybe_resize :: "'p codec \<Rightarrow> 'p image \<Rightarrow> int \<Rightarrow> string list \<times> (py_error + 'p image)" where
  "maybe_resize codec img max_short_side_length =
     (if 0 < max_short_side_length \<and> max_short_side_length < img_min_side img
      then (case resize_image codec img max_short_side_length of
              Inl e \<Rightarrow> ([], Inl e)
            | Inr img' \<Rightarrow> ([resize_message (img_size img) (img_size img')], Inr img'))
      else ([], Inr img))"

definition reencode_jpeg :: "'p codec \<Rightarrow> 'p image \<Rightarrow> py_error + string" where
  "reencode_jpeg codec img =
     raise_bind (convert_op codec img ''RGB'')
       (\<lambda>img'. raise_bind (save_jpeg codec img') (\<lambda>buf. Inr (jpeg_data_uri buf)))"

definition encode_image_as_base64_data_uri ::
    "'p codec \<Rightarrow> bytes \<Rightarrow> int \<Rightarrow> string list \<times> (py_error + string)" where
  "encode_image_as_base64_data_uri codec image_data max_short_side_length =
     (case open_image codec image_data of
        Inl e \<Rightarrow> ([], Inl e)
      | Inr img \<Rightarrow>
          if img_min_side img \<le> max_short_side_length \<and> is_jpeg_format (img_format img)
          then ([], Inr (jpeg_data_uri image_data))
          else (case maybe_resize codec img max_short_side_length of
                  (out, r) \<Rightarrow> (out, raise_bind r (reencode_jpeg codec))))"

subsection \<open>The image library's contract and a toy codec\<close>

definition pil_contract :: "'p codec \<Rightarrow> bool" where
  "pil_contract codec \<longleftrightarrow>
     (\<forall>img w h. 0 < w \<and> 0 < h \<longrightarrow>
        (\<exists>img'. resize_op codec img (w, h) = Inr img' \<and> img_size img' = (w, h))) \<and>
     (\<forall>img. \<exists>img'. convert_op codec img ''RGB'' = Inr img') \<and>
     (\<forall>img. \<exists>bs. save_jpeg codec img = Inr bs)"

definition demo_open :: "bytes \<Rightarrow> py_error + unit image" where
  "demo_open bs =
     (case bs of
        f # w1 # w0 # h1 # h0 # _ \<Rightarrow>
          (let sz = (int (unat w1 * 256 + unat w0), int (unat h1 * 256 + unat h0)) in
           if f = 1 then Inr \<lparr>img_format = Some ''JPEG'', img_size = sz, img_mode = ''RGB'', img_pixels = ()\<rparr>
           else if f = 2 then Inr \<lparr>img_format = Some ''PNG'', img_size = sz, img_mode = ''RGBA'', img_pixels = ()\<rparr>
           else Inl UnidentifiedImageError)
      | _ \<Rightarrow> Inl UnidentifiedImageError)"

definition demo_codec :: "unit codec" where
  "demo_codec =
     \<lparr>open_image = demo_open,
      resize_op = (\<lambda>img sz. if 0 < fst sz \<and> 0 < snd sz
                             then Inr (img\<lparr>img_format := None, img_size := sz\<rparr>) else Inl ValueError),
      convert_op = (\<lambda>img m. Inr (img\<lparr>img_format := None, img_mode := m\<rparr>)),
      save_jpeg = (\<lambda>img. Inr [255, 216, 255, 217])\<rparr>"

section \<open>Resizing\<close>

lemma resize_dims_portrait:
  "0 < w \<Longrightarrow> w \<le> h \<Longrightarrow> resize_dims s w h = Inr (s, long_side s w h)"
  by (simp add: resize_dims_def py_truediv_def long_side_def)

lemma resize_dims_landscape:
  "0 < h \<Longrightarrow> h < w \<Longrightarrow> resize_dims s w h = Inr (long_side s h w, s)"
  by (simp add: resize_dims_def py_truediv_def long_side_def)

lemma long_side_bound:
  assumes s: "0 < s" and w: "0 < w" and h: "0 < h" and lim: "s * h < 2 ^ 51"
  shows "(s * h) div w - 1 \<le> long_side s w h \<and> long_side s w h \<le> (s * h) div w
         \<and> (\<not> w dvd s * h \<longrightarrow> long_side s w h = (s * h) div w)"
proof -
  define a :: rat where "a = of_int s / of_int w"
  define z where "z = py_mul_int (to_double a) h"
  define q where "q = (s * h) div w"
  define r where "r = (s * h) mod w"
  define E :: rat where "E = a * of_int h"
  have a0: "0 < a"
    unfolding a_def using s w by simp
  have hh: "h \<le> s * h"
    using s h by (simp add: mult_le_cancel_right1)
  have p: "(2::int) ^ 51 < 2 ^ 53"
    by simp
  have h53: "h < 2 ^ 53"
    using hh lim p by linarith
  have err: "\<bar>z - E\<bar> \<le> E / 2 ^ 51"
    unfolding z_def E_def using two_roundings[OF a0 _ h53] h by simp
  have wq: "s * h = q * w + r" and r0: "0 \<le> r" and rw: "r < w"
    unfolding q_def r_def using w by (simp_all add: pos_mod_bound)
  have wpos: "(0::rat) < of_int w"
    using w by simp
  have Eq: "E = of_int q + of_int r / of_int w"
  proof -
    have "E = of_int (s * h) / of_int w"
      unfolding E_def a_def by simp
    also have "\<dots> = (of_int q * of_int w + of_int r) / of_int w"
      unfolding wq by simp
    finally show ?thesis
      using wpos by (simp add: field_simps)
  qed
  have small: "E / 2 ^ 51 < 1 / of_int w"
  proof -
    have "E / 2 ^ 51 = of_int (s * h) / (of_int w * 2 ^ 51)"
      unfolding E_def a_def by simp
    also have "\<dots> < 2 ^ 51 / (of_int w * 2 ^ 51)"
      using lim wpos by (intro divide_strict_right_mono)
      (simp_all only: of_int_less_numeral_power_cancel_iff mult_pos_pos zero_less_power zero_less_numeral)
    also have "\<dots> = 1 / of_int w"
      by simp
    finally show ?thesis .
  qed
  have rbound: "of_int r / of_int w \<le> 1 - 1 / (of_int w :: rat)"
    using rw wpos by (simp add: field_simps)
  have rnn: "0 \<le> of_int r / (of_int w :: rat)"
    using r0 wpos by simp
  have w1: "1 / of_int w \<le> (1::rat)"
    using w by simp
  have zlo: "E - E / 2 ^ 51 \<le> z" and zhi: "z \<le> E + E / 2 ^ 51"
    using abs_le_D1[OF err] abs_le_D2[OF err] by linarith+
  have z0: "0 \<le> z"
  proof -
    have "to_double (of_int h) = of_int h"
      using to_double_exact_int h h53 by simp
    moreover have "0 < to_double a * of_int h"
      using to_double_pos[OF a0] h by simp
    ultimately show ?thesis
      unfolding z_def py_mul_int_def using to_double_pos by (simp add: order_less_imp_le)
  qed
  have up: "z < of_int q + 1"
    using zhi Eq small rbound by linarith
  have lo: "of_int q - 1 \<le> z"
    using zlo Eq small rnn w1 by linarith
  have lo2: "0 < r \<Longrightarrow> of_int q \<le> z"
  proof -
    assume "0 < r"
    then have "1 / of_int w \<le> of_int r / (of_int w :: rat)"
      using wpos by (simp add: divide_right_mono)
    then show ?thesis
      using zlo Eq small by linarith
  qed
  have ls: "long_side s w h = \<lfloor>z\<rfloor>"
    using py_int_nonneg[OF z0] by (simp add: long_side_def z_def a_def)
  have f1: "\<lfloor>z\<rfloor> \<le> q"
    using up by (simp add: floor_less_iff[symmetric] floor_le_iff)
  have f2: "q - 1 \<le> \<lfloor>z\<rfloor>"
    using lo by (simp add: le_floor_iff)
  have f3: "\<not> w dvd s * h \<Longrightarrow> q \<le> \<lfloor>z\<rfloor>"
  proof -
    assume "\<not> w dvd s * h"
    then have "0 < r"
      unfolding r_def using r0 r_def by (simp add: dvd_eq_mod_eq_0 order_le_less)
    then show ?thesis
      using lo2 by (simp add: le_floor_iff)
  qed
  show ?thesis
    unfolding ls q_def[symmetric] using f1 f2 f3 by simp
qed

lemma long_side_ge:
  assumes "2 \<le> s" and "0 < w" and "w \<le> h" and "s * h < 2 ^ 51"
  shows "0 < long_side s w h"
proof -
  have "s * w \<le> s * h"
    using assms by simp
  then have "(s * w) div w \<le> (s * h) div w"
    using assms(2) by (rule zdiv_mono1)
  then have "s \<le> (s * h) div w"
    using assms(2) by simp
  then show ?thesis
    using long_side_bound[of s w h] assms by linarith
qed

lemma resize_dims_positive:
  assumes "2 \<le> s" and "0 < w" and "0 < h" and "s * max w h < 2 ^ 51"
  shows "\<exists>nw nh. resize_dims s w h = Inr (nw, nh) \<and> 0 < nw \<and> 0 < nh"
proof (cases "w \<le> h")
  case True
  then have "0 < long_side s w h"
    using assms by (intro long_side_ge) (simp_all add: max_def)
  then show ?thesis
    using True assms resize_dims_portrait[of w h s] by auto
next
  case False
  then have "0 < long_side s h w"
    using assms by (intro long_side_ge) (simp_all add: max_def)
  then show ?thesis
    using False assms resize_dims_landscape[of h w s] by auto
qed

text \<open>C11. For a portrait image (width at most height) and threshold s, resize_image asks for width s and a height within one pixel below s*height div width, and exactly that quotient when width does not divide s*height (for s*height below 2^51).\<close>

theorem resize_dims_portrait_bound:
  assumes "0 < s" and "0 < w" and "w \<le> h" and "s * h < 2 ^ 51"
  shows "\<exists>nh. resize_dims s w h = Inr (s, nh) \<and> (s * h) div w - 1 \<le> nh \<and> nh \<le> (s * h) div w
           \<and> (\<not> w dvd s * h \<longrightarrow> nh = (s * h) div w)"
  using resize_dims_portrait[of w h s] long_side_bound[of s w h] assms by auto

text \<open>C22. For a landscape image (height below width) resize_image asks for height s and a width within one pixel below s*width div height, exactly that quotient when height does not divide s*width (for s*width below 2^51).\<close>

theorem resize_dims_landscape_bound:
  assumes "0 < s" and "0 < h" and "h < w" and "s * w < 2 ^ 51"
  shows "\<exists>nw. resize_dims s w h = Inr (nw, s) \<and> (s * w) div h - 1 \<le> nw \<and> nw \<le> (s * w) div h
           \<and> (\<not> h dvd s * w \<longrightarrow> nw = (s * w) div h)"
  using resize_dims_landscape[of h w s] long_side_bound[of s h w] assms by auto

theorem resize_dims_square_2140: "resize_dims 1080 2140 2140 = Inr (1080, 1079)"
  by code_simp

section \<open>Printing sizes\<close>

lemma nat_str_cases:
  "n < 10 \<Longrightarrow> nat_str n = [char_of (48 + n)]"
  "\<not> n < 10 \<Longrightarrow> nat_str n = nat_str (n div 10) @ [char_of (48 + n mod 10)]"
  by (simp_all only: nat_str.simps[of n] if_True if_False)

theorem nat_str_roundtrip: "dec_val (nat_str n) = n"
proof (induction n rule: nat_str.induct)
  case (1 n)
  show ?case
  proof (cases "n < 10")
    case True
    then show ?thesis by (simp add: nat_str_cases dec_val_def del: nat_str.simps)
  next
    case False
    then have "dec_val (nat_str n) = 10 * dec_val (nat_str (n div 10)) + n mod 10"
      by (simp add: nat_str_cases dec_val_def del: nat_str.simps)
    then show ?thesis
      using 1 False by (simp del: nat_str.simps)
  qed
qed

lemma nat_str_digits: "c \<in> set (nat_str n) \<Longrightarrow> 48 \<le> (of_char c :: nat) \<and> (of_char c :: nat) < 58"
proof (induction n rule: nat_str.induct)
  case (1 n)
  show ?case
  proof (cases "n < 10")
    case True
    then have "(of_char c :: nat) = 48 + n"
      using "1.prems" by (simp add: nat_str_cases del: nat_str.simps)
    then show ?thesis
      using True by simp
  next
    case False
    then have "c \<in> set (nat_str (n div 10)) \<or> c = char_of (48 + n mod 10)"
      using "1.prems" by (auto simp add: nat_str_cases simp del: nat_str.simps)
    then show ?thesis
    proof
      assume "c \<in> set (nat_str (n div 10))"
      then show ?thesis
        using "1.IH" False by blast
    next
      assume "c = char_of (48 + n mod 10)"
      then have "(of_char c :: nat) = 48 + n mod 10"
        by simp
      then show ?thesis
        by simp
    qed
  qed
qed

section \<open>Normalising an image to a data URI\<close>

lemma reencode_jpeg_Inr:
  "reencode_jpeg codec img = Inr uri \<Longrightarrow> \<exists>img' bs. save_jpeg codec img' = Inr bs \<and> uri = jpeg_data_uri bs"
  by (auto simp: reencode_jpeg_def)

lemma reencode_jpeg_ok: "pil_contract codec \<Longrightarrow> \<exists>uri. reencode_jpeg codec img = Inr uri"
  unfolding pil_contract_def reencode_jpeg_def by (metis raise_bind_Inr)

lemma maybe_resize_small:
  assumes "img_min_side img \<le> m"
  shows "maybe_resize codec img m = ([], Inr img)"
proof -
  have "\<not> m < img_min_side img"
    using assms by simp
  then show ?thesis
    by (simp add: maybe_resize_def)
qed

lemma maybe_resize_ok:
  assumes c: "pil_contract codec" and sz: "img_size img = (w, h)" and "0 < w" "0 < h"
    and "2 \<le> m" and "m * max w h < 2 ^ 51"
  shows "\<exists>img'. snd (maybe_resize codec img m) = Inr img'"
proof (cases "0 < m \<and> m < img_min_side img")
  case True
  obtain nw nh where d: "resize_dims m w h = Inr (nw, nh)" and "0 < nw" "0 < nh"
    using resize_dims_positive assms by blast
  then obtain img' where "resize_op codec img (nw, nh) = Inr img'"
    using c unfolding pil_contract_def by blast
  then have "resize_image codec img m = Inr img'"
    by (simp add: resize_image_def sz d)
  then show ?thesis
    using True by (simp add: maybe_resize_def)
next
  case False
  then show ?thesis
    by (auto simp: maybe_resize_def)
qed

text \<open>C24. Every exception of the resize step (lines 18-21) comes from PIL's resize: the guard 0 < max < min(size) makes the float computation of the target size succeed, so the division of line 38 never raises ZeroDivisionError there.\<close>

theorem maybe_resize_errors_from_pil:
  assumes "snd (maybe_resize codec img m) = Inl e"
  shows "\<exists>sz. resize_dims m (fst (img_size img)) (snd (img_size img)) = Inr sz
              \<and> resize_op codec img sz = Inl e"
proof -
  have g: "0 < m \<and> m < img_min_side img"
  proof (rule ccontr)
    assume n: "\<not> (0 < m \<and> m < img_min_side img)"
    have "snd (maybe_resize codec img m) = Inr img"
      unfolding maybe_resize_def if_not_P[OF n] by simp
    then show False
      using assms by simp
  qed
  then have w: "0 < fst (img_size img)" and h: "0 < snd (img_size img)"
    by (simp_all add: img_min_side_def)
  obtain sz where sz: "resize_dims m (fst (img_size img)) (snd (img_size img)) = Inr sz"
  proof (cases "fst (img_size img) \<le> snd (img_size img)")
    case True
    then show ?thesis
      using that resize_dims_portrait[OF w True] by blast
  next
    case False
    then show ?thesis
      using that resize_dims_landscape[OF h] by fastforce
  qed
  have "resize_op codec img sz = Inl e"
    using assms g sz by (auto simp: maybe_resize_def resize_image_def split: sum.splits)
  then show ?thesis
    using sz by blast
qed

lemma encode_open_error:
  "open_image codec data = Inl e \<Longrightarrow> encode_image_as_base64_data_uri codec data m = ([], Inl e)"
  by (simp add: encode_image_as_base64_data_uri_def)

lemma encode_passthrough:
  assumes "open_image codec data = Inr img" and "img_min_side img \<le> m"
    and "is_jpeg_format (img_format img)"
  shows "encode_image_as_base64_data_uri codec data m = ([], Inr (jpeg_data_uri data))"
  using assms by (simp add: encode_image_as_base64_data_uri_def)

lemma encode_uri_shape:
  assumes "snd (encode_image_as_base64_data_uri codec data m) = Inr uri"
  shows "\<exists>bs. uri = jpeg_data_uri bs \<and> (bs = data \<or> (\<exists>img. save_jpeg codec img = Inr bs))"
  using assms
  by (auto simp: encode_image_as_base64_data_uri_def dest: reencode_jpeg_Inr
           split: sum.splits if_splits prod.splits)

text \<open>C21. When the opened image is not a JPEG with its shorter side within the threshold, every data URI encode_image_as_base64_data_uri returns is the prefix followed by the Base64 of the buffer the JPEG encoder wrote for the RGB conversion of the (possibly resized) image: line 26 encodes the re-encoded buffer, never the input bytes, and only small JPEG files pass through.\<close>

theorem encode_reencodes:
  assumes "open_image codec data = Inr img"
    and "\<not> (img_min_side img \<le> m \<and> is_jpeg_format (img_format img))"
    and "snd (encode_image_as_base64_data_uri codec data m) = Inr uri"
  shows "\<exists>img1 img2 bs. snd (maybe_resize codec img m) = Inr img1
           \<and> convert_op codec img1 ''RGB'' = Inr img2 \<and> save_jpeg codec img2 = Inr bs
           \<and> uri = jpeg_data_uri bs"
  using assms
  by (auto simp: encode_image_as_base64_data_uri_def reencode_jpeg_def split: prod.splits sum.splits)

text \<open>C12. If PIL keeps its contract and the image opens with positive dimensions, encode_image_as_base64_data_uri with a threshold of at least 2 returns a data URI: it raises only when opening fails.\<close>

theorem encode_succeeds:
  assumes "pil_contract codec" and "open_image codec data = Inr img" and "img_size img = (w, h)"
    and "0 < w" and "0 < h" and "2 \<le> m" and "m * max w h < 2 ^ 51"
  shows "\<exists>uri. snd (encode_image_as_base64_data_uri codec data m) = Inr uri"
proof -
  obtain img' where r: "snd (maybe_resize codec img m) = Inr img'"
    using maybe_resize_ok assms by blast
  obtain uri where "reencode_jpeg codec img' = Inr uri"
    using reencode_jpeg_ok[OF assms(1)] by blast
  then show ?thesis
    using assms(2) r by (auto simp: encode_image_as_base64_data_uri_def split: prod.splits)
qed

section \<open>Runs on concrete images\<close>

lemma demo_codec_contract: "pil_contract demo_codec"
  by (simp add: pil_contract_def demo_codec_def)

theorem resize_dims_portrait_bound_witness:
  "0 < (1080::int) \<and> 0 < (1000::int) \<and> (1000::int) \<le> 3001 \<and> (1080::int) * 3001 < 2 ^ 51
   \<and> resize_dims 1080 1000 3001 = Inr (1080, 3241)"
  using resize_dims_portrait_bound[of 1080 1000 3001] by simp

theorem resize_dims_landscape_bound_witness:
  "0 < (1080::int) \<and> 0 < (1000::int) \<and> (1000::int) < 3001 \<and> (1080::int) * 3001 < 2 ^ 51
   \<and> resize_dims 1080 3001 1000 = Inr (3241, 1080)"
  using resize_dims_landscape_bound[of 1080 1000 3001] by simp

lemma demo_open_jpeg:
  "open_image demo_codec [1, 0, 100, 0, 50]
     = Inr \<lparr>img_format = Some ''JPEG'', img_size = (100, 50), img_mode = ''RGB'', img_pixels = ()\<rparr>"
  by (simp add: demo_codec_def demo_open_def)

lemma demo_open_png_2140:
  "open_image demo_codec [2, 8, 92, 8, 92]
     = Inr \<lparr>img_format = Some ''PNG'', img_size = (2140, 2140), img_mode = ''RGBA'', img_pixels = ()\<rparr>"
  by (simp add: demo_codec_def demo_open_def)

theorem encode_reencodes_witness:
  "open_image demo_codec [2, 0, 100, 0, 50]
     = Inr \<lparr>img_format = Some ''PNG'', img_size = (100, 50), img_mode = ''RGBA'', img_pixels = ()\<rparr>
   \<and> \<not> (img_min_side \<lparr>img_format = Some ''PNG'', img_size = (100::int, 50::int), img_mode = ''RGBA'', img_pixels = ()\<rparr> \<le> 1080
        \<and> is_jpeg_format (img_format \<lparr>img_format = Some ''PNG'', img_size = (100::int, 50::int), img_mode = ''RGBA'', img_pixels = ()\<rparr>))
   \<and> snd (encode_image_as_base64_data_uri demo_codec [2, 0, 100, 0, 50] 1080)
       = Inr (jpeg_data_uri [255, 216, 255, 217])
   \<and> (\<exists>img1 img2 bs. snd (maybe_resize demo_codec
                           \<lparr>img_format = Some ''PNG'', img_size = (100, 50), img_mode = ''RGBA'', img_pixels = ()\<rparr> 1080)
                         = Inr img1
        \<and> convert_op demo_codec img1 ''RGB'' = Inr img2 \<and> save_jpeg demo_codec img2 = Inr bs
        \<and> jpeg_data_uri [255, 216, 255, 217] = jpeg_data_uri bs)"
proof -
  have o: "open_image demo_codec [2, 0, 100, 0, 50]
             = Inr \<lparr>img_format = Some ''PNG'', img_size = (100, 50), img_mode = ''RGBA'', img_pixels = ()\<rparr>"
    by (simp add: demo_codec_def demo_open_def)
  have n: "\<not> (img_min_side \<lparr>img_format = Some ''PNG'', img_size = (100::int, 50::int), img_mode = ''RGBA'', img_pixels = ()\<rparr> \<le> 1080
        \<and> is_jpeg_format (img_format \<lparr>img_format = Some ''PNG'', img_size = (100::int, 50::int), img_mode = ''RGBA'', img_pixels = ()\<rparr>))"
    by (simp add: is_jpeg_format_def)
  have e: "snd (encode_image_as_base64_data_uri demo_codec [2, 0, 100, 0, 50] 1080)
             = Inr (jpeg_data_uri [255, 216, 255, 217])"
    by (simp add: encode_image_as_base64_data_uri_def demo_codec_def demo_open_def img_min_side_def
        is_jpeg_format_def maybe_resize_def reencode_jpeg_def)
  show ?thesis
    using o n e encode_reencodes[OF o n e] by simp
qed

theorem encode_succeeds_witness:
  "pil_contract demo_codec \<and> (2::int) \<le> 1080 \<and> (1080::int) * max 2140 2140 < 2 ^ 51
   \<and> (\<exists>uri. snd (encode_image_as_base64_data_uri demo_codec [2, 8, 92, 8, 92] 1080) = Inr uri)"
proof -
  have b: "(2::int) \<le> 1080" and l: "(1080::int) * max 2140 2140 < 2 ^ 51"
    by simp_all
  show ?thesis
    using demo_codec_contract b l
      encode_succeeds[OF demo_codec_contract demo_open_png_2140 _ _ _ b l] by simp
qed

lemma demo_resize_dims_2140: "resize_dims 1080 2140 2140 = Inr (1080, 1079)"
  by code_simp
lemma demo_message_2140: "resize_message (2140, 2140) (1080, 1079) = ''Image resized from (2140, 2140) to (1080, 1079).''"
  by code_simp
text \<open>C25. When the threshold is positive and below the shorter side of the opened image, encode_image_as_base64_data_uri prints exactly one line, the f-string of line 21 with the size before and the size after the resize, if PIL's resize succeeds, and prints nothing if it raises.\<close>

theorem encode_resize_message:
  assumes "open_image codec data = Inr img" and "0 < m" and "m < img_min_side img"
  shows "fst (encode_image_as_base64_data_uri codec data m)
           = (case resize_image codec img m of
                Inl e \<Rightarrow> []
              | Inr img' \<Rightarrow> [resize_message (img_size img) (img_size img')])"
proof -
  have "\<not> img_min_side img \<le> m"
    using assms(3) by simp
  then show ?thesis
    using assms by (simp add: encode_image_as_base64_data_uri_def maybe_resize_def split: prod.split sum.split)
qed

theorem encode_resize_message_witness:
  "open_image demo_codec [2, 8, 92, 8, 92]
     = Inr \<lparr>img_format = Some ''PNG'', img_size = (2140, 2140), img_mode = ''RGBA'', img_pixels = ()\<rparr>
   \<and> (0::int) < 1080
   \<and> 1080 < img_min_side \<lparr>img_format = Some ''PNG'', img_size = (2140::int, 2140::int), img_mode = ''RGBA'', img_pixels = ()\<rparr>
   \<and> fst (encode_image_as_base64_data_uri demo_codec [2, 8, 92, 8, 92] 1080)
       = [''Image resized from (2140, 2140) to (1080, 1079).'']"
proof -
  define img where "img = \<lparr>img_format = Some ''PNG'', img_size = (2140::int, 2140::int), img_mode = ''RGBA'', img_pixels = ()\<rparr>"
  have p: "(0::int) < 1080" and m: "1080 < img_min_side img"
    by (simp_all add: img_def img_min_side_def)
  have r: "resize_image demo_codec img 1080 = Inr (img\<lparr>img_format := None, img_size := (1080, 1079)\<rparr>)"
    by (simp add: resize_image_def img_def demo_resize_dims_2140 demo_codec_def)
  have "fst (encode_image_as_base64_data_uri demo_codec [2, 8, 92, 8, 92] 1080)
          = [resize_message (2140, 2140) (1080, 1079)]"
    using encode_resize_message[OF demo_open_png_2140[folded img_def] p m] r by (simp add: img_def)
  then show ?thesis
    using demo_open_png_2140 p m demo_message_2140 by (simp add: img_def)
qed

theorem resize_threshold_one:
  "resize_dims 1 49 49 = Inr (1, 0)
   \<and> encode_image_as_base64_data_uri demo_codec [2, 0, 49, 0, 49] 1 = ([], Inl ValueError)"
proof -
  have r: "resize_dims 1 49 49 = Inr (1, 0)"
    by code_simp
  have o: "demo_open [2, 0, 49, 0, 49]
             = Inr \<lparr>img_format = Some ''PNG'', img_size = (49, 49), img_mode = ''RGBA'', img_pixels = ()\<rparr>"
    by (simp add: demo_open_def)
  have "encode_image_as_base64_data_uri demo_codec [2, 0, 49, 0, 49] 1 = ([], Inl ValueError)"
    by (simp add: encode_image_as_base64_data_uri_def demo_codec_def o r maybe_resize_def resize_image_def
        img_min_side_def is_jpeg_format_def)
  then show ?thesis
    using r by simp
qed

theorem maybe_resize_errors_from_pil_witness:
  "snd (maybe_resize demo_codec \<lparr>img_format = Some ''PNG'', img_size = (49, 49), img_mode = ''RGBA'', img_pixels = ()\<rparr> 1)
     = Inl ValueError
   \<and> (\<exists>sz. resize_dims 1 49 49 = Inr sz
        \<and> resize_op demo_codec \<lparr>img_format = Some ''PNG'', img_size = (49, 49), img_mode = ''RGBA'', img_pixels = ()\<rparr> sz
            = Inl ValueError)"
proof -
  have r: "resize_dims 1 49 49 = Inr (1, 0)"
    by code_simp
  have e: "snd (maybe_resize demo_codec \<lparr>img_format = Some ''PNG'', img_size = (49, 49), img_mode = ''RGBA'', img_pixels = ()\<rparr> 1)
             = Inl ValueError"
    by (simp add: maybe_resize_def resize_image_def img_min_side_def r demo_codec_def)
  show ?thesis
    using e maybe_resize_errors_from_pil[OF e] by simp
qed

end
