(* ===== verification/Caption.thy ===== *)
theory Caption
  imports Image
begin

text \<open>
  The captioning handler \<open>llm_caption\<close> of \<open>_llm_caption.py\<close> (lines 8 and 47-95).

  The handler's effects are explicit. The input stream is the record \<open>stream\<close>: its
  bytes, its read position, whether it supports \<open>tell\<close>/\<open>seek\<close>, and whether a
  \<open>read\<close> raises. The process-wide dictionary \<open>MEMCACHE\<close> (line 8), the lines
  printed to standard output and the requests sent to the model client form the record
  \<open>cstate\<close>, passed in and returned by every call. The libraries the module calls
  are parameters: the image codec (theory \<open>Image\<close>), \<open>hashlib.md5(...).hexdigest()\<close>
  and \<open>mimetypes.guess_type\<close> in the record \<open>libs\<close>; the model client is an
  argument of each call, a function from the request to the list of choices of the
  response or an exception.

  The try/except/finally block of lines 59-69 is \<open>prepare_image\<close>; its three ways out
  are the constructors of \<open>try_outcome\<close>: a cached caption returned from inside the
  try, an exception swallowed by \<open>except Exception: return None\<close>, or a data URI
  ready to be sent. The request and the call of lines 74-95 are \<open>caption_request\<close>
  and \<open>call_model\<close>. \<open>caption_reachable\<close> is the set of states reached by any
  sequence of calls from an empty cache.
\<close>

section \<open>Definitions\<close>

subsection \<open>Data\<close>

record stream =
  st_data :: bytes
  st_pos :: nat
  st_seekable :: bool
  st_read_fails :: bool

record stream_info =
  si_mimetype :: "string option"
  si_extension :: "string option"

datatype content_part = TextPart string | ImageUrlPart string

record message =
  msg_role :: string
  msg_content :: "content_part list"

record request =
  req_model :: string
  req_messages :: "message list"
  req_temperature :: rat

record choice =
  ch_content :: "string option"

type_synonym client = "request \<Rightarrow> py_error + choice list"

record cstate =
  memcache :: "string \<rightharpoonup> string option"
  stdout :: "string list"
  requests :: "request list"

record 'p libs =
  lib_codec :: "'p codec"
  lib_md5 :: "bytes \<Rightarrow> string"
  lib_guess_type :: "string \<Rightarrow> string option"

datatype try_outcome = Cached "string option" | Swallowed | Prepared string string

subsection \<open>The stream\<close>

definition py_tell :: "stream \<Rightarrow> py_error + nat" where
  "py_tell s = (if st_seekable s then Inr (st_pos s) else Inl UnsupportedOperation)"

definition unread :: "stream \<Rightarrow> bytes" where
  "unread s = drop (st_pos s) (st_data s)"

definition py_read :: "stream \<Rightarrow> py_error + bytes \<times> stream" where
  "py_read s =
     (if st_read_fails s then Inl OSError
      else Inr (unread s, s\<lparr>st_pos := max (st_pos s) (length (st_data s))\<rparr>))"

definition py_seek :: "stream \<Rightarrow> nat \<Rightarrow> stream" where
  "py_seek s p = s\<lparr>st_pos := p\<rparr>"

subsection \<open>Prompt and content type\<close>

definition default_prompt :: string where
  "default_prompt =
     ''Write a detailed caption for this image. Use the main language identified in the picture.''"

definition py_isspace :: "char \<Rightarrow> bool" where
  "py_isspace c \<longleftrightarrow> of_char c \<in> {9, 10, 11, 12, 13, 28, 29, 30, 31, 32 :: nat}"

definition py_strip :: "string \<Rightarrow> string" where
  "py_strip s = rev (dropWhile py_isspace (rev (dropWhile py_isspace s)))"

definition effective_prompt :: "string option \<Rightarrow> string" where
  "effective_prompt prompt =
     (case prompt of
        None \<Rightarrow> default_prompt
      | Some p \<Rightarrow> if py_strip p = [] then default_prompt else p)"

definition py_truthy :: "string option \<Rightarrow> bool" where
  "py_truthy x \<longleftrightarrow> (case x of None \<Rightarrow> False | Some v \<Rightarrow> v \<noteq> [])"

definition content_type_of :: "(string \<Rightarrow> string option) \<Rightarrow> stream_info \<Rightarrow> string" where
  "content_type_of guess_type si =
     (let ct = si_mimetype si;
          ct = (if py_truthy ct then ct
                else guess_type (''_dummy'' @ (case si_extension si of None \<Rightarrow> [] | Some e \<Rightarrow> e)))
      in if py_truthy ct then the ct else ''application/octet-stream'')"

subsection \<open>The handler\<close>

definition prepare_image :: "'p libs \<Rightarrow> cstate \<Rightarrow> stream \<Rightarrow> nat \<Rightarrow> try_outcome \<times> stream \<times> cstate" where
  "prepare_image libs cs s cur_pos =
     (case py_read s of
        Inl _ \<Rightarrow> (Swallowed, py_seek s cur_pos, cs)
      | Inr (file_data, s1) \<Rightarrow>
          (let cache_key = lib_md5 libs file_data in
           case memcache cs cache_key of
             Some c \<Rightarrow> (Cached c, py_seek s1 cur_pos, cs)
           | None \<Rightarrow>
               (case encode_image_as_base64_data_uri (lib_codec libs) file_data 1080 of
                  (out, r) \<Rightarrow>
                    (let cs1 = cs\<lparr>stdout := stdout cs @ out\<rparr> in
                     case r of
                       Inl _ \<Rightarrow> (Swallowed, py_seek s1 cur_pos, cs1)
                     | Inr data_uri \<Rightarrow> (Prepared cache_key data_uri, py_seek s1 cur_pos, cs1)))))"

definition caption_request :: "string \<Rightarrow> string \<Rightarrow> string \<Rightarrow> request" where
  "caption_request model prompt data_uri =
     \<lparr>req_model = model,
      req_messages = [\<lparr>msg_role = ''user'', msg_content = [TextPart prompt, ImageUrlPart data_uri]\<rparr>],
      req_temperature = to_double (3 / 5)\<rparr>"

definition call_model ::
    "client \<Rightarrow> cstate \<Rightarrow> string \<Rightarrow> string \<Rightarrow> string \<Rightarrow> string \<Rightarrow> (py_error + string option) \<times> cstate" where
  "call_model client cs model prompt cache_key data_uri =
     (let req = caption_request model prompt data_uri;
          cs1 = cs\<lparr>requests := requests cs @ [req]\<rparr>
      in case client req of
           Inl e \<Rightarrow> (Inl e, cs1)
         | Inr choices \<Rightarrow>
             (case choices of
                [] \<Rightarrow> (Inl IndexError, cs1)
              | ch # _ \<Rightarrow>
                  (Inr (ch_content ch), cs1\<lparr>memcache := (memcache cs1)(cache_key \<mapsto> ch_content ch)\<rparr>)))"

definition llm_caption ::
    "'p libs \<Rightarrow> cstate \<Rightarrow> stream \<Rightarrow> stream_info \<Rightarrow> client \<Rightarrow> string \<Rightarrow> string option
     \<Rightarrow> (py_error + string option) \<times> stream \<times> cstate" where
  "llm_caption libs cs file_stream stream_info client model prompt =
     (let prompt = effective_prompt prompt;
          content_type = content_type_of (lib_guess_type libs) stream_info
      in case py_tell file_stream of
           Inl e \<Rightarrow> (Inl e, file_stream, cs)
         | Inr cur_pos \<Rightarrow>
             (case prepare_image libs cs file_stream cur_pos of
                (Cached c, s', cs') \<Rightarrow> (Inr c, s', cs')
              | (Swallowed, s', cs') \<Rightarrow> (Inr None, s', cs')
              | (Prepared cache_key data_uri, s', cs') \<Rightarrow>
                  (case call_model client cs' model prompt cache_key data_uri of
                     (r, cs'') \<Rightarrow> (r, s', cs''))))"

definition rewound :: "stream \<Rightarrow> stream" where
  "rewound s = s\<lparr>st_data := unread s, st_pos := 0\<rparr>"

definition cache_inv :: "cstate \<Rightarrow> bool" where
  "cache_inv cs \<longleftrightarrow> finite (dom (memcache cs)) \<and> card (dom (memcache cs)) \<le> length (requests cs)
     \<and> (\<forall>req \<in> set (requests cs). \<exists>model prompt bs.
           req = caption_request model prompt (jpeg_data_uri bs) \<and> py_strip prompt \<noteq> [])"

definition empty_cstate :: cstate where
  "empty_cstate = \<lparr>memcache = Map.empty, stdout = [], requests = []\<rparr>"

definition demo_libs :: "unit libs" where
  "demo_libs = \<lparr>lib_codec = demo_codec, lib_md5 = map (\<lambda>b. char_of (unat b)),
                 lib_guess_type = (\<lambda>_. None)\<rparr>"

definition demo_client :: client where
  "demo_client req = Inr [\<lparr>ch_content = Some ''a cat''\<rparr>]"

definition demo_stream :: "bytes \<Rightarrow> stream" where
  "demo_stream bs = \<lparr>st_data = bs, st_pos = 0, st_seekable = True, st_read_fails = False\<rparr>"

definition demo_info :: stream_info where
  "demo_info = \<lparr>si_mimetype = Some ''image/jpeg'', si_extension = Some ''.jpg''\<rparr>"

definition demo_state1 :: cstate where
  "demo_state1 =
     \<lparr>memcache = [map (\<lambda>b. char_of (unat b)) [1, 0, 100, 0, 50 :: byte] \<mapsto> Some ''a cat''], stdout = [],
      requests = [caption_request ''m'' default_prompt (jpeg_data_uri [1, 0, 100, 0, 50])]\<rparr>"

inductive caption_reachable :: "'p libs \<Rightarrow> cstate \<Rightarrow> bool" for libs where
  init: "caption_reachable libs empty_cstate"
| step: "caption_reachable libs cs \<Longrightarrow>
         llm_caption libs cs s si client model prompt = (r, s', cs') \<Longrightarrow> caption_reachable libs cs'"

section \<open>The handler's paths\<close>

lemma seek_back [simp]: "py_seek (s\<lparr>st_pos := p\<rparr>) (st_pos s) = s"
  by (simp add: py_seek_def)

lemma llm_caption_unseekable:
  "\<not> st_seekable s \<Longrightarrow> llm_caption libs cs s si client model p = (Inl UnsupportedOperation, s, cs)"
  by (simp add: llm_caption_def py_tell_def)

lemma llm_caption_read_fails:
  "st_seekable s \<Longrightarrow> st_read_fails s \<Longrightarrow> llm_caption libs cs s si client model p = (Inr None, s, cs)"
  by (simp add: llm_caption_def py_tell_def prepare_image_def py_read_def py_seek_def)

lemma llm_caption_hit:
  assumes "st_seekable s" and "\<not> st_read_fails s"
    and "memcache cs (lib_md5 libs (unread s)) = Some c"
  shows "llm_caption libs cs s si client model p = (Inr c, s, cs)"
  using assms by (simp add: llm_caption_def py_tell_def prepare_image_def py_read_def)

lemma llm_caption_swallow:
  assumes "st_seekable s" and "\<not> st_read_fails s"
    and "memcache cs (lib_md5 libs (unread s)) = None"
    and "encode_image_as_base64_data_uri (lib_codec libs) (unread s) 1080 = (out, Inl e)"
  shows "llm_caption libs cs s si client model p = (Inr None, s, cs\<lparr>stdout := stdout cs @ out\<rparr>)"
  using assms by (simp add: llm_caption_def py_tell_def prepare_image_def py_read_def)

lemma llm_caption_call:
  assumes "st_seekable s" and "\<not> st_read_fails s"
    and "memcache cs (lib_md5 libs (unread s)) = None"
    and "encode_image_as_base64_data_uri (lib_codec libs) (unread s) 1080 = (out, Inr uri)"
  shows "llm_caption libs cs s si client model p =
           (let (r, cs') = call_model client (cs\<lparr>stdout := stdout cs @ out\<rparr>) model (effective_prompt p)
                              (lib_md5 libs (unread s)) uri
            in (r, s, cs'))"
  using assms by (simp add: llm_caption_def py_tell_def prepare_image_def py_read_def split: prod.split)

lemma call_model_error:
  "client (caption_request model prompt uri) = Inl e \<Longrightarrow>
   call_model client cs model prompt key uri = (Inl e, cs\<lparr>requests := requests cs @ [caption_request model prompt uri]\<rparr>)"
  by (simp add: call_model_def)

lemma call_model_no_choice:
  "client (caption_request model prompt uri) = Inr [] \<Longrightarrow>
   call_model client cs model prompt key uri = (Inl IndexError, cs\<lparr>requests := requests cs @ [caption_request model prompt uri]\<rparr>)"
  by (simp add: call_model_def)

lemma call_model_ok:
  "client (caption_request model prompt uri) = Inr (ch # chs) \<Longrightarrow>
   call_model client cs model prompt key uri =
     (Inr (ch_content ch), cs\<lparr>requests := requests cs @ [caption_request model prompt uri],
                              memcache := (memcache cs)(key \<mapsto> ch_content ch)\<rparr>)"
  by (simp add: call_model_def)

lemma call_model_state:
  assumes "call_model client cs model prompt key uri = (r, cs')"
  shows "requests cs' = requests cs @ [caption_request model prompt uri] \<and> stdout cs' = stdout cs
         \<and> (memcache cs' = memcache cs \<or> (\<exists>c. r = Inr c \<and> memcache cs' = (memcache cs)(key \<mapsto> c)))"
  using assms by (auto simp: call_model_def Let_def split: sum.splits list.splits)

lemma call_model_Inr:
  assumes "call_model client cs model prompt key uri = (Inr c, cs')"
  shows "memcache cs' = (memcache cs)(key \<mapsto> c)"
  using assms by (auto simp: call_model_def Let_def split: sum.splits list.splits)


lemma llm_caption_paths:
  fixes libs :: "'p libs" and cs s si client model p
  assumes "st_seekable s" and "\<not> st_read_fails s"
  obtains (hit) c where "memcache cs (lib_md5 libs (unread s)) = Some c"
      and "llm_caption libs cs s si client model p = (Inr c, s, cs)"
    | (swallow) out e where "memcache cs (lib_md5 libs (unread s)) = None"
      and "encode_image_as_base64_data_uri (lib_codec libs) (unread s) 1080 = (out, Inl e)"
      and "llm_caption libs cs s si client model p = (Inr None, s, cs\<lparr>stdout := stdout cs @ out\<rparr>)"
    | (call) out uri r cs' where "memcache cs (lib_md5 libs (unread s)) = None"
      and "encode_image_as_base64_data_uri (lib_codec libs) (unread s) 1080 = (out, Inr uri)"
      and "call_model client (cs\<lparr>stdout := stdout cs @ out\<rparr>) model (effective_prompt p)
             (lib_md5 libs (unread s)) uri = (r, cs')"
      and "llm_caption libs cs s si client model p = (r, s, cs')"
proof (cases "memcache cs (lib_md5 libs (unread s))")
  case (Some c)
  then show ?thesis
    using hit llm_caption_hit[OF assms Some] by blast
next
  case None
  obtain out r where enc: "encode_image_as_base64_data_uri (lib_codec libs) (unread s) 1080 = (out, r)"
    by fastforce
  show ?thesis
  proof (cases r)
    case (Inl e)
    then show ?thesis
      using swallow None enc llm_caption_swallow[OF assms None] by blast
  next
    case (Inr uri)
    obtain r' cs' where cm: "call_model client (cs\<lparr>stdout := stdout cs @ out\<rparr>) model (effective_prompt p)
                               (lib_md5 libs (unread s)) uri = (r', cs')"
      by fastforce
    then show ?thesis
      using call None enc Inr llm_caption_call[OF assms None] by simp
  qed
qed

section \<open>Stream position and cache\<close>

text \<open>C1. On a seekable stream, llm_caption returns the stream exactly as it found it, with its read position restored, on every path: cache hit, swallowed error, client call, client error.\<close>

theorem llm_caption_restores_stream:
  assumes "st_seekable s" and "llm_caption libs cs s si client model p = (r, s', cs')"
  shows "s' = s"
proof (cases "st_read_fails s")
  case True
  then have "llm_caption libs cs s si client model p = (Inr None, s, cs)"
    using assms(1) by (intro llm_caption_read_fails)
  then show ?thesis
    using assms(2) by simp
next
  case False
  then show ?thesis
    by (cases rule: llm_caption_paths[where libs=libs and cs=cs and si=si and client=client and model=model and p=p, OF assms(1) False])
      (use assms(2) in auto)
qed

text \<open>C3. A call of llm_caption never removes or overwrites an entry of MEMCACHE: the cache before is a submap of the cache after.\<close>

theorem llm_caption_cache_monotone:
  assumes "llm_caption libs cs s si client model p = (r, s', cs')"
  shows "memcache cs \<subseteq>\<^sub>m memcache cs'"
proof (cases "st_seekable s \<and> \<not> st_read_fails s")
  case True
  then have seek: "st_seekable s" and nf: "\<not> st_read_fails s"
    by simp_all
  from seek nf show ?thesis
  proof (cases rule: llm_caption_paths[where libs=libs and cs=cs and si=si and client=client and model=model and p=p])
    case (call out uri r' cs'')
    then have "cs'' = cs'"
      using assms by simp
    then show ?thesis
      using call_model_state[OF call(3)] call(1) by (auto simp: map_le_def)
  qed (use assms in auto)
next
  case False
  then have "llm_caption libs cs s si client model p = (Inl UnsupportedOperation, s, cs)
             \<or> llm_caption libs cs s si client model p = (Inr None, s, cs)"
    using llm_caption_unseekable llm_caption_read_fails by blast
  then show ?thesis
    using assms by auto
qed

section \<open>Cache, errors and requests\<close>

theorem llm_caption_cache_hit:
  assumes "st_seekable s" and "\<not> st_read_fails s"
    and "memcache cs (lib_md5 libs (unread s)) = Some c"
  shows "llm_caption libs cs s si client model p = (Inr c, s, cs)"
  using assms by (rule llm_caption_hit)

text \<open>C4. After a call that returned a caption, a second call on a readable stream with the same unread bytes returns the same caption from MEMCACHE, whatever the client, model and prompt, and in total at most one request has been sent for the two calls.\<close>

theorem llm_caption_memoised:
  assumes seek: "st_seekable s" and nf: "\<not> st_read_fails s"
    and first: "llm_caption libs cs s si client model p = (Inr r, s', cs')"
    and seek2: "st_seekable t" and nf2: "\<not> st_read_fails t" and same: "unread t = unread s"
  shows "\<exists>cs''. llm_caption libs cs' t si2 client2 model2 p2 = (Inr r, t, cs'')
           \<and> length (requests cs'') \<le> length (requests cs) + 1"
  using seek nf
proof (cases rule: llm_caption_paths[where libs=libs and cs=cs and si=si and client=client and model=model and p=p])
  case (hit c)
  then have rc: "r = c" and cs': "cs' = cs"
    using first by simp_all
  have "memcache cs (lib_md5 libs (unread t)) = Some c"
    using hit(1) same by simp
  then have "llm_caption libs cs' t si2 client2 model2 p2 = (Inr r, t, cs')"
    using llm_caption_hit[OF seek2 nf2] rc cs' by blast
  then show ?thesis
    using cs' by simp
next
  case (swallow out e)
  then have r: "r = None" and cs': "cs' = cs\<lparr>stdout := stdout cs @ out\<rparr>"
    using first by simp_all
  have m: "memcache cs' (lib_md5 libs (unread t)) = None"
    using swallow(1) same cs' by simp
  have enc: "encode_image_as_base64_data_uri (lib_codec libs) (unread t) 1080 = (out, Inl e)"
    using swallow(2) same by simp
  have "llm_caption libs cs' t si2 client2 model2 p2 = (Inr None, t, cs'\<lparr>stdout := stdout cs' @ out\<rparr>)"
    by (rule llm_caption_swallow[OF seek2 nf2 m enc])
  then show ?thesis
    using r cs' by simp
next
  case (call out uri r' cs'')
  then have "r' = Inr r" and "cs'' = cs'"
    using first by simp_all
  then have mc: "memcache cs' (lib_md5 libs (unread s)) = Some r"
    and rq: "requests cs' = requests cs @ [caption_request model (effective_prompt p) uri]"
    using call_model_Inr[of client _ model _ _ uri r cs'] call_model_state[OF call(3)] call(3) by simp_all
  have "memcache cs' (lib_md5 libs (unread t)) = Some r"
    using mc same by simp
  then have "llm_caption libs cs' t si2 client2 model2 p2 = (Inr r, t, cs')"
    using llm_caption_hit[OF seek2 nf2] by blast
  then show ?thesis
    using rq by simp
qed

text \<open>C13. When the cache misses, the image normalises and the client raises, llm_caption propagates the client's exception, restores the stream, keeps MEMCACHE unchanged and records the one request sent.\<close>

theorem llm_caption_client_error:
  assumes "st_seekable s" and "\<not> st_read_fails s"
    and "memcache cs (lib_md5 libs (unread s)) = None"
    and "encode_image_as_base64_data_uri (lib_codec libs) (unread s) 1080 = (out, Inr uri)"
    and "client (caption_request model (effective_prompt p) uri) = Inl e"
  shows "llm_caption libs cs s si client model p =
           (Inl e, s, cs\<lparr>stdout := stdout cs @ out,
                         requests := requests cs @ [caption_request model (effective_prompt p) uri]\<rparr>)"
  using llm_caption_call[OF assms(1-4)] call_model_error[of client model "effective_prompt p" uri e, OF assms(5)]
  by simp

text \<open>C19. When the client returns a response with no choices, llm_caption raises IndexError (response.choices[0]).\<close>

theorem llm_caption_no_choice:
  assumes "st_seekable s" and "\<not> st_read_fails s"
    and "memcache cs (lib_md5 libs (unread s)) = None"
    and "encode_image_as_base64_data_uri (lib_codec libs) (unread s) 1080 = (out, Inr uri)"
    and "client (caption_request model (effective_prompt p) uri) = Inr []"
  shows "fst (llm_caption libs cs s si client model p) = Inl IndexError"
  using llm_caption_call[OF assms(1-4)] call_model_no_choice[of client model "effective_prompt p" uri, OF assms(5)]
  by simp

text \<open>C14. When the cache misses and encode_image_as_base64_data_uri raises, llm_caption returns None without calling the client and without changing MEMCACHE.\<close>

theorem llm_caption_swallows_encode_error:
  assumes "st_seekable s" and "\<not> st_read_fails s"
    and "memcache cs (lib_md5 libs (unread s)) = None"
    and "snd (encode_image_as_base64_data_uri (lib_codec libs) (unread s) 1080) = Inl e"
  shows "fst (llm_caption libs cs s si client model p) = Inr None
         \<and> memcache (snd (snd (llm_caption libs cs s si client model p))) = memcache cs
         \<and> requests (snd (snd (llm_caption libs cs s si client model p))) = requests cs"
proof -
  obtain out where "encode_image_as_base64_data_uri (lib_codec libs) (unread s) 1080 = (out, Inl e)"
    using assms(4) by (cases "encode_image_as_base64_data_uri (lib_codec libs) (unread s) 1080") auto
  then show ?thesis
    using llm_caption_swallow[OF assms(1-3)] by simp
qed

text \<open>C20. tell() is outside the try block: on a stream that does not support it, llm_caption raises UnsupportedOperation instead of returning None, and changes nothing.\<close>

theorem llm_caption_unseekable_raises:
  "\<not> st_seekable s \<Longrightarrow> llm_caption libs cs s si client model p = (Inl UnsupportedOperation, s, cs)"
  by (rule llm_caption_unseekable)

lemma py_strip_default: "py_strip default_prompt \<noteq> []"
  by (simp add: py_strip_def default_prompt_def py_isspace_def)

theorem py_strip_spec:
  "\<exists>a b. s = a @ py_strip s @ b \<and> (\<forall>c \<in> set a. py_isspace c) \<and> (\<forall>c \<in> set b. py_isspace c)
     \<and> (py_strip s \<noteq> [] \<longrightarrow> \<not> py_isspace (hd (py_strip s)) \<and> \<not> py_isspace (last (py_strip s)))"
proof -
  define t where "t = dropWhile py_isspace s"
  define b' where "b' = takeWhile py_isspace (rev t)"
  have st: "s = takeWhile py_isspace s @ t"
    unfolding t_def by simp
  have ps: "py_strip s = rev (dropWhile py_isspace (rev t))"
    unfolding py_strip_def t_def ..
  have "rev t = b' @ dropWhile py_isspace (rev t)"
    unfolding b'_def by simp
  then have tt: "t = py_strip s @ rev b'"
    unfolding ps by (metis rev_append rev_rev_ident)
  have sa: "\<forall>c \<in> set (takeWhile py_isspace s). py_isspace c"
    by (auto dest: set_takeWhileD)
  have sb: "\<forall>c \<in> set (rev b'). py_isspace c"
    unfolding b'_def by (auto dest: set_takeWhileD)
  have ends: "py_strip s \<noteq> [] \<longrightarrow> \<not> py_isspace (hd (py_strip s)) \<and> \<not> py_isspace (last (py_strip s))"
  proof
    assume ne: "py_strip s \<noteq> []"
    then have tne: "t \<noteq> []"
      using tt by simp
    have "hd t = hd (py_strip s)"
      using tt ne by simp
    moreover have "\<not> py_isspace (hd t)"
      using tne hd_dropWhile[of py_isspace s] unfolding t_def by simp
    moreover have dne: "dropWhile py_isspace (rev t) \<noteq> []"
      using ne ps by simp
    then have "last (py_strip s) = hd (dropWhile py_isspace (rev t))"
      unfolding ps by (simp add: last_rev)
    moreover have "\<not> py_isspace (hd (dropWhile py_isspace (rev t)))"
      using hd_dropWhile[OF dne] .
    ultimately show "\<not> py_isspace (hd (py_strip s)) \<and> \<not> py_isspace (last (py_strip s))"
      by simp
  qed
  have "s = takeWhile py_isspace s @ py_strip s @ rev b'"
    using st tt by simp
  then show ?thesis
    using sa sb ends by blast
qed

lemma effective_prompt_nonblank: "py_strip (effective_prompt p) \<noteq> []"
  by (cases p) (simp_all add: effective_prompt_def py_strip_default)

lemma dropWhile_idem: "dropWhile P (dropWhile P xs) = dropWhile P xs"
  by (induction xs) simp_all

lemma py_strip_Nil_iff: "py_strip s = [] \<longleftrightarrow> (\<forall>c \<in> set s. py_isspace c)"
proof -
  have "py_strip s = [] \<longleftrightarrow> (\<forall>c \<in> set (dropWhile py_isspace s). py_isspace c)"
    by (simp add: py_strip_def dropWhile_eq_Nil_conv)
  also have "\<dots> \<longleftrightarrow> dropWhile py_isspace s = []"
    using dropWhile_eq_Nil_conv[of py_isspace "dropWhile py_isspace s"] by (simp add: dropWhile_idem)
  also have "\<dots> \<longleftrightarrow> (\<forall>c \<in> set s. py_isspace c)"
    by (rule dropWhile_eq_Nil_conv)
  finally show ?thesis .
qed

text \<open>C23. A prompt given by the caller is sent unchanged unless every character of it is whitespace in the sense of str.strip, in which case the default caption instruction is sent (lines 48-49).\<close>

theorem effective_prompt_some:
  "effective_prompt (Some q) = (if \<forall>c \<in> set q. py_isspace c then default_prompt else q)"
  by (simp add: effective_prompt_def py_strip_Nil_iff)

lemma llm_caption_effect:
  assumes "llm_caption libs cs s si client model p = (r, s', cs')"
  shows "(memcache cs' = memcache cs \<and> requests cs' = requests cs)
       \<or> (\<exists>uri out. snd (encode_image_as_base64_data_uri (lib_codec libs) (unread s) 1080) = Inr uri
             \<and> memcache cs (lib_md5 libs (unread s)) = None
             \<and> requests cs' = requests cs @ [caption_request model (effective_prompt p) uri]
             \<and> (memcache cs' = memcache cs
                \<or> (\<exists>c. r = Inr c \<and> memcache cs' = (memcache cs)(lib_md5 libs (unread s) \<mapsto> c))))"
proof (cases "st_seekable s \<and> \<not> st_read_fails s")
  case True
  then have seek: "st_seekable s" and nf: "\<not> st_read_fails s"
    by simp_all
  from seek nf show ?thesis
  proof (cases rule: llm_caption_paths[where libs=libs and cs=cs and si=si and client=client and model=model and p=p])
    case (hit c)
    then show ?thesis using assms by simp
  next
    case (swallow out e)
    then show ?thesis using assms by auto
  next
    case (call out uri r' cs'')
    then have "r' = r" and "cs'' = cs'"
      using assms by simp_all
    then show ?thesis
      using call_model_state[OF call(3)] call(1,2) by auto
  qed
next
  case False
  then have "llm_caption libs cs s si client model p = (Inl UnsupportedOperation, s, cs)
             \<or> llm_caption libs cs s si client model p = (Inr None, s, cs)"
    using llm_caption_unseekable llm_caption_read_fails by blast
  then show ?thesis
    using assms by auto
qed

lemma llm_caption_request_sent:
  assumes "llm_caption libs cs s si client model p = (r, s', cs')"
    and "requests cs' \<noteq> requests cs"
  shows "\<exists>uri. snd (encode_image_as_base64_data_uri (lib_codec libs) (unread s) 1080) = Inr uri
    \<and> requests cs' = requests cs @ [caption_request model (effective_prompt p) uri]"
  using llm_caption_effect[OF assms(1)] assms(2) by (elim disjE conjE exE) auto

theorem llm_caption_request:
  assumes "llm_caption libs cs s si client model p = (r, s', cs')"
    and "requests cs' \<noteq> requests cs"
  shows "\<exists>bs. requests cs' = requests cs @ [caption_request model (effective_prompt p) (jpeg_data_uri bs)]
              \<and> py_strip (effective_prompt p) \<noteq> []"
proof -
  obtain uri where enc: "snd (encode_image_as_base64_data_uri (lib_codec libs) (unread s) 1080) = Inr uri"
    and rq: "requests cs' = requests cs @ [caption_request model (effective_prompt p) uri]"
    using llm_caption_request_sent[OF assms] by blast
  obtain bs where u: "uri = jpeg_data_uri bs"
    using encode_uri_shape[OF enc] by blast
  have "requests cs' = requests cs @ [caption_request model (effective_prompt p) (jpeg_data_uri bs)]"
    using rq u by simp
  then show ?thesis
    using effective_prompt_nonblank[of p] by blast
qed

text \<open>C18. The stream metadata does not influence llm_caption: the content type computed from it on lines 51-56 is never used, so two calls that differ only in stream_info give the same result, stream and module state.\<close>

theorem llm_caption_ignores_stream_info:
  "llm_caption libs cs s si client model p = llm_caption libs cs s si' client model p"
  by (simp add: llm_caption_def)

lemma cache_inv_init: "cache_inv empty_cstate"
  by (simp add: cache_inv_def empty_cstate_def)

lemma card_dom_upd_le: "finite (dom m) \<Longrightarrow> card (dom (m(k \<mapsto> v))) \<le> card (dom m) + 1"
  by (simp add: card_insert_le_m1 card_insert_if)

lemma cache_inv_step:
  assumes "cache_inv cs" and "llm_caption libs cs s si client model p = (r, s', cs')"
  shows "cache_inv cs'"
  using llm_caption_effect[OF assms(2)]
proof
  assume "memcache cs' = memcache cs \<and> requests cs' = requests cs"
  then show ?thesis
    using assms(1) by (simp add: cache_inv_def)
next
  assume "\<exists>uri out. snd (encode_image_as_base64_data_uri (lib_codec libs) (unread s) 1080) = Inr uri
             \<and> memcache cs (lib_md5 libs (unread s)) = None
             \<and> requests cs' = requests cs @ [caption_request model (effective_prompt p) uri]
             \<and> (memcache cs' = memcache cs
                \<or> (\<exists>c. r = Inr c \<and> memcache cs' = (memcache cs)(lib_md5 libs (unread s) \<mapsto> c)))"
  then obtain uri where enc: "snd (encode_image_as_base64_data_uri (lib_codec libs) (unread s) 1080) = Inr uri"
    and rq: "requests cs' = requests cs @ [caption_request model (effective_prompt p) uri]"
    and mc: "memcache cs' = memcache cs
             \<or> (\<exists>c. memcache cs' = (memcache cs)(lib_md5 libs (unread s) \<mapsto> c))"
    by blast
  obtain bs where bs: "uri = jpeg_data_uri bs"
    using encode_uri_shape[OF enc] by blast
  have fin: "finite (dom (memcache cs))" and le: "card (dom (memcache cs)) \<le> length (requests cs)"
    and wf: "\<forall>req \<in> set (requests cs). \<exists>model prompt bs.
               req = caption_request model prompt (jpeg_data_uri bs) \<and> py_strip prompt \<noteq> []"
    using assms(1) by (simp_all add: cache_inv_def)
  have "finite (dom (memcache cs')) \<and> card (dom (memcache cs')) \<le> length (requests cs')"
    using mc
  proof
    assume "memcache cs' = memcache cs"
    then show ?thesis
      using fin le rq by simp
  next
    assume "\<exists>c. memcache cs' = (memcache cs)(lib_md5 libs (unread s) \<mapsto> c)"
    then obtain c where c: "memcache cs' = (memcache cs)(lib_md5 libs (unread s) \<mapsto> c)"
      by blast
    have "card (dom (memcache cs')) \<le> card (dom (memcache cs)) + 1"
      unfolding c by (rule card_dom_upd_le[OF fin])
    then show ?thesis
      using fin le rq c by simp
  qed
  moreover have "\<forall>req \<in> set (requests cs'). \<exists>model prompt bs.
               req = caption_request model prompt (jpeg_data_uri bs) \<and> py_strip prompt \<noteq> []"
    using wf rq bs effective_prompt_nonblank by auto
  ultimately show ?thesis
    by (simp add: cache_inv_def)
qed

lemma reachable_cache_inv: "caption_reachable libs cs \<Longrightarrow> cache_inv cs"
proof (induction rule: caption_reachable.induct)
  case init
  show ?case by (rule cache_inv_init)
next
  case (step cs s si client model prompt r s' cs')
  then show ?case by (blast intro: cache_inv_step)
qed

text \<open>C15. In every state reached from an empty cache by any sequence of calls, MEMCACHE is finite and has at most as many entries as requests were sent to the client.\<close>

theorem reachable_cache_bounded:
  assumes "caption_reachable libs cs"
  shows "finite (dom (memcache cs)) \<and> card (dom (memcache cs)) \<le> length (requests cs)"
  using reachable_cache_inv[OF assms] by (simp add: cache_inv_def)

text \<open>C16. In every reachable state, every request sent to the client is a single user message with a non-blank prompt and a data:image/jpeg;base64 URI of some bytes, at temperature 0.6.\<close>

theorem reachable_requests_wellformed:
  assumes "caption_reachable libs cs" and "req \<in> set (requests cs)"
  shows "\<exists>model prompt bs. req = caption_request model prompt (jpeg_data_uri bs) \<and> py_strip prompt \<noteq> []"
  using reachable_cache_inv[OF assms(1)] assms(2) by (simp add: cache_inv_def)

text \<open>C17. llm_caption depends only on the unread part of the stream: on the stream cut at its current position and rewound to 0 it returns the same result and the same module state.\<close>

theorem llm_caption_reads_remainder:
  "fst (llm_caption libs cs (rewound s) si client model p) = fst (llm_caption libs cs s si client model p)
   \<and> snd (snd (llm_caption libs cs (rewound s) si client model p))
       = snd (snd (llm_caption libs cs s si client model p))"
proof -
  have u: "unread (rewound s) = unread s"
    by (simp add: rewound_def unread_def)
  have flags: "st_seekable (rewound s) = st_seekable s" "st_read_fails (rewound s) = st_read_fails s"
    by (simp_all add: rewound_def)
  show ?thesis
  proof (cases "st_seekable s \<and> \<not> st_read_fails s")
    case True
    then have seek: "st_seekable s" and nf: "\<not> st_read_fails s"
      and seek': "st_seekable (rewound s)" and nf': "\<not> st_read_fails (rewound s)"
      using flags by simp_all
    from seek nf show ?thesis
    proof (cases rule: llm_caption_paths[where libs=libs and cs=cs and si=si and client=client and model=model and p=p])
      case (hit c)
      then show ?thesis
        using llm_caption_hit[OF seek' nf', of cs libs c si client model p] u by simp
    next
      case (swallow out e)
      then show ?thesis
        using llm_caption_swallow[OF seek' nf', of cs libs out e si client model p] u by simp
    next
      case (call out uri r cs')
      then show ?thesis
        using llm_caption_call[OF seek' nf', of cs libs out uri si client model p] u by simp
    qed
  next
    case False
    show ?thesis
    proof (cases "st_seekable s")
      case True
      with False have "st_read_fails s" by simp
      then have a: "llm_caption libs cs s si client model p = (Inr None, s, cs)"
        and b: "llm_caption libs cs (rewound s) si client model p = (Inr None, rewound s, cs)"
        using True flags by (simp_all add: llm_caption_read_fails)
      show ?thesis
        by (simp add: a b)
    next
      case False
      then have a: "llm_caption libs cs s si client model p = (Inl UnsupportedOperation, s, cs)"
        and b: "llm_caption libs cs (rewound s) si client model p
                  = (Inl UnsupportedOperation, rewound s, cs)"
        using flags by (simp_all add: llm_caption_unseekable)
      show ?thesis
        by (simp add: a b)
    qed
  qed
qed

section \<open>A run on concrete bytes\<close>
lemma demo_run:
  "llm_caption demo_libs empty_cstate (demo_stream [1, 0, 100, 0, 50]) demo_info demo_client ''m'' None =
   (Inr (Some ''a cat''), demo_stream [1, 0, 100, 0, 50], demo_state1)"
  by (simp add: demo_state1_def llm_caption_def demo_libs_def demo_stream_def demo_info_def demo_client_def
      py_tell_def prepare_image_def py_read_def unread_def py_seek_def empty_cstate_def
      encode_image_as_base64_data_uri_def demo_codec_def demo_open_def img_min_side_def
      is_jpeg_format_def effective_prompt_def call_model_def)

theorem llm_caption_restores_stream_witness:
  "st_seekable (demo_stream [1, 0, 100, 0, 50]) \<and>
   fst (snd (llm_caption demo_libs empty_cstate (demo_stream [1, 0, 100, 0, 50]) demo_info demo_client
              ''m'' None)) = demo_stream [1, 0, 100, 0, 50]"
proof -
  have seek: "st_seekable (demo_stream [1, 0, 100, 0, 50])"
    by (simp add: demo_stream_def)
  show ?thesis
    using seek llm_caption_restores_stream[OF seek demo_run] demo_run by simp
qed

theorem llm_caption_cache_monotone_witness:
  "memcache empty_cstate \<subseteq>\<^sub>m
   memcache (snd (snd (llm_caption demo_libs empty_cstate (demo_stream [1, 0, 100, 0, 50]) demo_info
                        demo_client ''m'' None)))"
  using llm_caption_cache_monotone[OF demo_run] demo_run by simp


lemma demo_stream_flags [simp]:
  "st_seekable (demo_stream bs)" "\<not> st_read_fails (demo_stream bs)" "unread (demo_stream bs) = bs"
  by (simp_all add: demo_stream_def unread_def)

lemma demo_md5 [simp]: "lib_md5 demo_libs bs = map (\<lambda>b. char_of (unat b)) bs"
  by (simp add: demo_libs_def)

lemma demo_encode_jpeg:
  "encode_image_as_base64_data_uri (lib_codec demo_libs) [1, 0, 100, 0, 50] 1080
     = ([], Inr (jpeg_data_uri [1, 0, 100, 0, 50]))"
proof -
  have m: "img_min_side \<lparr>img_format = Some ''JPEG'', img_size = (100, 50), img_mode = ''RGB'',
             img_pixels = ()\<rparr> \<le> (1080::int)"
    by (simp add: img_min_side_def)
  have j: "is_jpeg_format (img_format \<lparr>img_format = Some ''JPEG'', img_size = (100, 50),
             img_mode = ''RGB'', img_pixels = ()\<rparr>)"
    by (simp add: is_jpeg_format_def)
  show ?thesis
    using encode_passthrough[OF demo_open_jpeg m j] by (simp add: demo_libs_def)
qed

lemma demo_empty_miss: "memcache empty_cstate k = None"
  by (simp add: empty_cstate_def)

lemma demo_reachable1: "caption_reachable demo_libs demo_state1"
  by (rule caption_reachable.step[OF caption_reachable.init demo_run])

theorem llm_caption_cache_hit_witness:
  "memcache demo_state1 (lib_md5 demo_libs (unread (demo_stream [1, 0, 100, 0, 50]))) = Some (Some ''a cat'')
   \<and> llm_caption demo_libs demo_state1 (demo_stream [1, 0, 100, 0, 50]) demo_info demo_client ''other''
        (Some ''Describe it.'') = (Inr (Some ''a cat''), demo_stream [1, 0, 100, 0, 50], demo_state1)"
proof -
  have c: "memcache demo_state1 (lib_md5 demo_libs (unread (demo_stream [1, 0, 100, 0, 50])))
             = Some (Some ''a cat'')"
    by (simp add: demo_state1_def)
  show ?thesis
    using c llm_caption_cache_hit[OF demo_stream_flags(1,2) c] by simp
qed

theorem llm_caption_memoised_witness:
  "llm_caption demo_libs empty_cstate (demo_stream [1, 0, 100, 0, 50]) demo_info demo_client ''m'' None
     = (Inr (Some ''a cat''), demo_stream [1, 0, 100, 0, 50], demo_state1)
   \<and> (\<exists>cs''. llm_caption demo_libs demo_state1 (demo_stream [1, 0, 100, 0, 50]) demo_info
              (\<lambda>_. Inl (ClientError ''down'')) ''other'' (Some ''Describe it.'')
              = (Inr (Some ''a cat''), demo_stream [1, 0, 100, 0, 50], cs'')
          \<and> length (requests cs'') \<le> length (requests empty_cstate) + 1)"
  using demo_run llm_caption_memoised[OF demo_stream_flags(1,2) demo_run demo_stream_flags(1,2)] by simp

theorem llm_caption_client_error_witness:
  "memcache empty_cstate (lib_md5 demo_libs (unread (demo_stream [1, 0, 100, 0, 50]))) = None
   \<and> llm_caption demo_libs empty_cstate (demo_stream [1, 0, 100, 0, 50]) demo_info
        (\<lambda>_. Inl (ClientError ''down'')) ''m'' None
      = (Inl (ClientError ''down''), demo_stream [1, 0, 100, 0, 50],
         empty_cstate\<lparr>stdout := stdout empty_cstate @ [],
           requests := requests empty_cstate
             @ [caption_request ''m'' (effective_prompt None) (jpeg_data_uri [1, 0, 100, 0, 50])]\<rparr>)"
  using demo_empty_miss
    llm_caption_client_error[where s="demo_stream [1, 0, 100, 0, 50]" and cs=empty_cstate
      and libs=demo_libs and out="[]" and uri="jpeg_data_uri [1, 0, 100, 0, 50]"
      and client="\<lambda>_. Inl (ClientError ''down'')" and model="''m''" and p=None
      and e="ClientError ''down''" and si=demo_info]
    demo_encode_jpeg by simp

theorem llm_caption_no_choice_witness:
  "memcache empty_cstate (lib_md5 demo_libs (unread (demo_stream [1, 0, 100, 0, 50]))) = None
   \<and> fst (llm_caption demo_libs empty_cstate (demo_stream [1, 0, 100, 0, 50]) demo_info
        (\<lambda>_. Inr []) ''m'' None) = Inl IndexError"
  using demo_empty_miss
    llm_caption_no_choice[where s="demo_stream [1, 0, 100, 0, 50]" and cs=empty_cstate
      and libs=demo_libs and out="[]" and uri="jpeg_data_uri [1, 0, 100, 0, 50]"
      and client="\<lambda>_. Inr []" and model="''m''" and p=None and si=demo_info]
    demo_encode_jpeg by simp

theorem llm_caption_swallows_encode_error_witness:
  "snd (encode_image_as_base64_data_uri (lib_codec demo_libs) [3, 0, 0, 0, 0] 1080) = Inl UnidentifiedImageError
   \<and> fst (llm_caption demo_libs empty_cstate (demo_stream [3, 0, 0, 0, 0]) demo_info demo_client ''m'' None)
       = Inr None"
proof -
  have e: "snd (encode_image_as_base64_data_uri (lib_codec demo_libs) [3, 0, 0, 0, 0] 1080)
             = Inl UnidentifiedImageError"
    by (simp add: encode_image_as_base64_data_uri_def demo_libs_def demo_codec_def demo_open_def)
  show ?thesis
    using e llm_caption_swallows_encode_error[OF demo_stream_flags(1,2) demo_empty_miss, of demo_libs
      "[3, 0, 0, 0, 0]" UnidentifiedImageError demo_info demo_client "''m''" None] by simp
qed

theorem llm_caption_unseekable_raises_witness:
  "\<not> st_seekable \<lparr>st_data = [1, 0, 100, 0, 50], st_pos = 0, st_seekable = False, st_read_fails = False\<rparr>
   \<and> llm_caption demo_libs empty_cstate
        \<lparr>st_data = [1, 0, 100, 0, 50], st_pos = 0, st_seekable = False, st_read_fails = False\<rparr>
        demo_info demo_client ''m'' None
      = (Inl UnsupportedOperation,
         \<lparr>st_data = [1, 0, 100, 0, 50], st_pos = 0, st_seekable = False, st_read_fails = False\<rparr>,
         empty_cstate)"
  using llm_caption_unseekable_raises[of
    "\<lparr>st_data = [1, 0, 100, 0, 50], st_pos = 0, st_seekable = False, st_read_fails = False\<rparr>"]
  by simp

theorem llm_caption_request_witness:
  "requests demo_state1 \<noteq> requests empty_cstate
   \<and> (\<exists>bs. requests demo_state1
           = requests empty_cstate @ [caption_request ''m'' (effective_prompt None) (jpeg_data_uri bs)]
         \<and> py_strip (effective_prompt None) \<noteq> [])"
proof -
  have d: "requests demo_state1 \<noteq> requests empty_cstate"
    by (simp add: demo_state1_def empty_cstate_def)
  show ?thesis
    using d llm_caption_request[OF demo_run d] by simp
qed

theorem reachable_cache_bounded_witness:
  "caption_reachable demo_libs demo_state1
   \<and> finite (dom (memcache demo_state1)) \<and> card (dom (memcache demo_state1)) \<le> length (requests demo_state1)"
  using demo_reachable1 reachable_cache_bounded[OF demo_reachable1] by simp

theorem reachable_requests_wellformed_witness:
  "caption_reachable demo_libs demo_state1
   \<and> caption_request ''m'' default_prompt (jpeg_data_uri [1, 0, 100, 0, 50]) \<in> set (requests demo_state1)
   \<and> (\<exists>model prompt bs. caption_request ''m'' default_prompt (jpeg_data_uri [1, 0, 100, 0, 50])
          = caption_request model prompt (jpeg_data_uri bs) \<and> py_strip prompt \<noteq> [])"
proof -
  have m: "caption_request ''m'' default_prompt (jpeg_data_uri [1, 0, 100, 0, 50]) \<in> set (requests demo_state1)"
    by (simp add: demo_state1_def)
  show ?thesis
    using demo_reachable1 m reachable_requests_wellformed[OF demo_reachable1 m] by simp
qed

theorem effective_prompt_some_witness:
  "effective_prompt (Some ''   '') = default_prompt \<and> effective_prompt (Some ''A dog?'') = ''A dog?''"
proof -
  have a: "\<forall>c \<in> set ''   ''. py_isspace c"
    by (simp add: py_isspace_def)
  have b: "\<not> py_isspace CHR ''A''"
    by (simp add: py_isspace_def)
  show ?thesis
    using effective_prompt_some[of "''   ''"] effective_prompt_some[of "''A dog?''"] a b by simp
qed

theorem py_strip_spec_witness:
  "py_strip '' a b '' = ''a b''
   \<and> (\<exists>a b. '' a b '' = a @ py_strip '' a b '' @ b \<and> (\<forall>c \<in> set a. py_isspace c) \<and> (\<forall>c \<in> set b. py_isspace c)
     \<and> (py_strip '' a b '' \<noteq> [] \<longrightarrow> \<not> py_isspace (hd (py_strip '' a b '')) \<and> \<not> py_isspace (last (py_strip '' a b ''))))"
proof -
  have "py_strip '' a b '' = ''a b''"
    by (simp add: py_strip_def py_isspace_def)
  then show ?thesis
    using py_strip_spec[of "'' a b ''"] by simp
qed

end
