(* ===== verification/Memo.thy ===== *)
theory Memo
  imports Caption
begin

text \<open>
  What \<open>MEMCACHE\<close> promises, and when the handler keeps the promise. The abstract
  specification \<open>caption_direct\<close> is the captioning of a byte string without any cache:
  normalise the image, send one request, take the first choice (an encoding failure
  gives \<open>None\<close>, as the handler's \<open>except\<close> clause does). \<open>memo_valid\<close> is the
  memo-table invariant: every cached caption is the direct caption of some byte string
  with that key. A session is a sequence of calls of \<open>llm_caption\<close> that share the
  client, the model and the prompt (\<open>session_reachable\<close>). Within a session, and with
  a hash function that is injective on the images seen, the memoised handler refines
  the direct specification: each answer on a readable stream is the direct caption of
  its unread bytes. Across calls that change the model or the prompt it does not, since
  the key is the digest of the bytes alone.
\<close>

definition caption_direct ::
    "'p libs \<Rightarrow> client \<Rightarrow> string \<Rightarrow> string option \<Rightarrow> bytes \<Rightarrow> py_error + string option" where
  "caption_direct libs client model p bs =
     (case snd (encode_image_as_base64_data_uri (lib_codec libs) bs 1080) of
        Inl _ \<Rightarrow> Inr None
      | Inr uri \<Rightarrow>
          (case client (caption_request model (effective_prompt p) uri) of
             Inl e \<Rightarrow> Inl e
           | Inr [] \<Rightarrow> Inl IndexError
           | Inr (ch # _) \<Rightarrow> Inr (ch_content ch)))"

definition memo_valid_on ::
    "'p libs \<Rightarrow> client \<Rightarrow> string \<Rightarrow> string option \<Rightarrow> bytes set \<Rightarrow> cstate \<Rightarrow> bool" where
  "memo_valid_on libs client model p B cs \<longleftrightarrow>
     (\<forall>k c. memcache cs k = Some c \<longrightarrow>
        (\<exists>bs \<in> B. lib_md5 libs bs = k \<and> caption_direct libs client model p bs = Inr c))"

definition memo_valid :: "'p libs \<Rightarrow> client \<Rightarrow> string \<Rightarrow> string option \<Rightarrow> cstate \<Rightarrow> bool" where
  "memo_valid libs client model p cs \<longleftrightarrow> memo_valid_on libs client model p UNIV cs"

inductive session_reachable ::
    "'p libs \<Rightarrow> client \<Rightarrow> string \<Rightarrow> string option \<Rightarrow> bytes set \<Rightarrow> cstate \<Rightarrow> bool"
  for libs client model p B where
  init: "session_reachable libs client model p B empty_cstate"
| step: "session_reachable libs client model p B cs \<Longrightarrow> unread s \<in> B \<Longrightarrow>
         llm_caption libs cs s si client model p = (r, s', cs') \<Longrightarrow>
         session_reachable libs client model p B cs'"

definition demo_echo :: client where
  "demo_echo req = Inr [\<lparr>ch_content = Some (req_model req)\<rparr>]"

section \<open>The direct specification and the memo invariant\<close>

lemma call_model_result:
  "fst (call_model client cs model prompt key uri) =
     (case client (caption_request model prompt uri) of
        Inl e \<Rightarrow> Inl e
      | Inr [] \<Rightarrow> Inl IndexError
      | Inr (ch # _) \<Rightarrow> Inr (ch_content ch))"
  by (simp add: call_model_def Let_def split: sum.split list.split)

lemma caption_direct_call:
  "snd (encode_image_as_base64_data_uri (lib_codec libs) bs 1080) = Inr uri \<Longrightarrow>
   caption_direct libs client model p bs =
     fst (call_model client cs model (effective_prompt p) key uri)"
  by (simp add: caption_direct_def call_model_result)

lemma caption_direct_swallow:
  "snd (encode_image_as_base64_data_uri (lib_codec libs) bs 1080) = Inl e \<Longrightarrow>
   caption_direct libs client model p bs = Inr None"
  by (simp add: caption_direct_def)

lemma memo_valid_on_same:
  "memo_valid_on libs client model p B cs \<Longrightarrow> memcache cs' = memcache cs \<Longrightarrow>
   memo_valid_on libs client model p B cs'"
  by (simp add: memo_valid_on_def)

lemma memo_valid_on_upd:
  assumes "memo_valid_on libs client model p B cs" and "bs \<in> B"
    and "caption_direct libs client model p bs = Inr c"
    and "memcache cs' = (memcache cs)(lib_md5 libs bs \<mapsto> c)"
  shows "memo_valid_on libs client model p B cs'"
  using assms unfolding memo_valid_on_def by auto

lemma memo_valid_on_hit:
  assumes "inj_on (lib_md5 libs) B" and "memo_valid_on libs client model p B cs" and "bs \<in> B"
    and "memcache cs (lib_md5 libs bs) = Some c"
  shows "caption_direct libs client model p bs = Inr c"
proof -
  obtain bs' where "bs' \<in> B" and "lib_md5 libs bs' = lib_md5 libs bs"
    and d: "caption_direct libs client model p bs' = Inr c"
    using assms(2,4) unfolding memo_valid_on_def by blast
  then have "bs' = bs"
    using inj_onD[OF assms(1)] assms(3) by simp
  then show ?thesis
    using d by simp
qed

lemma memo_valid_same:
  "memo_valid libs client model p cs \<Longrightarrow> memcache cs' = memcache cs \<Longrightarrow>
   memo_valid libs client model p cs'"
  unfolding memo_valid_def by (rule memo_valid_on_same)

lemma memo_valid_upd:
  assumes "memo_valid libs client model p cs"
    and "caption_direct libs client model p bs = Inr c"
    and "memcache cs' = (memcache cs)(lib_md5 libs bs \<mapsto> c)"
  shows "memo_valid libs client model p cs'"
  using assms memo_valid_on_upd[of libs client model p UNIV cs bs c cs'] by (simp add: memo_valid_def)

lemma memo_step_readable:
  assumes v: "memo_valid_on libs client model p B cs" and b: "unread s \<in> B"
    and seek: "st_seekable s" and nf: "\<not> st_read_fails s"
    and run: "llm_caption libs cs s si client model p = (r, s', cs')"
  shows "memo_valid_on libs client model p B cs'
         \<and> (inj_on (lib_md5 libs) B \<longrightarrow> r = caption_direct libs client model p (unread s))"
  using seek nf
proof (cases rule: llm_caption_paths[where libs=libs and cs=cs and si=si and client=client and model=model and p=p])
  case (hit c)
  then have "r = Inr c" and "cs' = cs"
    using run by simp_all
  then show ?thesis
    using v memo_valid_on_hit[OF _ v b hit(1)] by simp
next
  case (swallow out e)
  then have "r = Inr None" and "memcache cs' = memcache cs"
    using run by auto
  then show ?thesis
    using memo_valid_on_same[OF v] caption_direct_swallow[of libs "unread s" e] swallow(2) by simp
next
  case (call out uri r' cs'')
  then have rr: "r' = r" and cc: "cs'' = cs'"
    using run by simp_all
  have d: "caption_direct libs client model p (unread s) = r"
    using caption_direct_call[of libs "unread s" uri client model p "cs\<lparr>stdout := stdout cs @ out\<rparr>"
        "lib_md5 libs (unread s)"] call(2,3) rr by simp
  have "memcache cs' = memcache cs
        \<or> (\<exists>c. r = Inr c \<and> memcache cs' = (memcache cs)(lib_md5 libs (unread s) \<mapsto> c))"
    using call_model_state[OF call(3)] rr cc by simp
  then have "memo_valid_on libs client model p B cs'"
  proof
    assume "memcache cs' = memcache cs"
    then show ?thesis
      by (rule memo_valid_on_same[OF v])
  next
    assume "\<exists>c. r = Inr c \<and> memcache cs' = (memcache cs)(lib_md5 libs (unread s) \<mapsto> c)"
    then obtain c where "r = Inr c" and m: "memcache cs' = (memcache cs)(lib_md5 libs (unread s) \<mapsto> c)"
      by blast
    then show ?thesis
      using memo_valid_on_upd[OF v b _ m] d by simp
  qed
  then show ?thesis
    using d by simp
qed

lemma memo_step:
  assumes v: "memo_valid_on libs client model p B cs" and b: "unread s \<in> B"
    and run: "llm_caption libs cs s si client model p = (r, s', cs')"
  shows "memo_valid_on libs client model p B cs'"
proof (cases "st_seekable s \<and> \<not> st_read_fails s")
  case True
  then show ?thesis
    using memo_step_readable[OF v b _ _ run] by simp
next
  case False
  then have "llm_caption libs cs s si client model p = (Inl UnsupportedOperation, s, cs)
             \<or> llm_caption libs cs s si client model p = (Inr None, s, cs)"
    using llm_caption_unseekable llm_caption_read_fails by blast
  then have "cs' = cs"
    using run by auto
  then show ?thesis
    using v by simp
qed

lemma session_memo_valid:
  "session_reachable libs client model p B cs \<Longrightarrow> memo_valid_on libs client model p B cs"
proof (induction rule: session_reachable.induct)
  case init
  show ?case by (simp add: memo_valid_on_def empty_cstate_def)
next
  case (step cs s si r s' cs')
  then show ?case by (blast intro: memo_step)
qed

section \<open>Refinement of the direct specification\<close>

text \<open>C2. In a session of calls that share the client, the model and the prompt, on images whose bytes lie in a set B on which the digest is injective, every answer of the memoised llm_caption on a readable stream equals the direct uncached captioning of the stream's unread bytes.\<close>

theorem session_refines_direct:
  assumes "inj_on (lib_md5 libs) B" and "session_reachable libs client model p B cs"
    and "unread s \<in> B" and "st_seekable s" and "\<not> st_read_fails s"
    and "llm_caption libs cs s si client model p = (r, s', cs')"
  shows "r = caption_direct libs client model p (unread s)"
  using memo_step_readable[OF session_memo_valid[OF assms(2)] assms(3-6)] assms(1) by simp

section \<open>Runs on concrete bytes\<close>

lemma demo_session1: "session_reachable demo_libs demo_client ''m'' None {[1, 0, 100, 0, 50]} demo_state1"
  by (rule session_reachable.step[OF session_reachable.init _ demo_run]) (simp add: demo_stream_def unread_def)

theorem session_refines_direct_witness:
  "inj_on (lib_md5 demo_libs) {[1, 0, 100, 0, 50]}
   \<and> session_reachable demo_libs demo_client ''m'' None {[1, 0, 100, 0, 50]} demo_state1
   \<and> unread (demo_stream [1, 0, 100, 0, 50]) \<in> {[1, 0, 100, 0, 50]}
   \<and> llm_caption demo_libs demo_state1 (demo_stream [1, 0, 100, 0, 50]) demo_info demo_client ''m'' None
       = (Inr (Some ''a cat''), demo_stream [1, 0, 100, 0, 50], demo_state1)
   \<and> Inr (Some ''a cat'') = caption_direct demo_libs demo_client ''m'' None [1, 0, 100, 0, 50]"
proof -
  have c: "memcache demo_state1 (lib_md5 demo_libs (unread (demo_stream [1, 0, 100, 0, 50])))
             = Some (Some ''a cat'')"
    by (simp add: demo_state1_def)
  have run: "llm_caption demo_libs demo_state1 (demo_stream [1, 0, 100, 0, 50]) demo_info demo_client ''m'' None
       = (Inr (Some ''a cat''), demo_stream [1, 0, 100, 0, 50], demo_state1)"
    by (rule llm_caption_hit[OF demo_stream_flags(1,2) c])
  have i: "inj_on (lib_md5 demo_libs) {[1, 0, 100, 0, 50]}"
    by simp
  have b: "unread (demo_stream [1, 0, 100, 0, 50]) \<in> {[1, 0, 100, 0, 50]}"
    by (simp add: demo_stream_def unread_def)
  show ?thesis
    using i b demo_session1 run
      session_refines_direct[OF i demo_session1 b demo_stream_flags(1,2) run] by simp
qed

theorem cache_ignores_model_and_prompt:
  "\<exists>cs1. llm_caption demo_libs empty_cstate (demo_stream [1, 0, 100, 0, 50]) demo_info demo_echo ''m'' None
            = (Inr (Some ''m''), demo_stream [1, 0, 100, 0, 50], cs1)
     \<and> fst (llm_caption demo_libs cs1 (demo_stream [1, 0, 100, 0, 50]) demo_info demo_echo ''m2''
            (Some ''Count the cats.'')) = Inr (Some ''m'')
     \<and> caption_direct demo_libs demo_echo ''m2'' (Some ''Count the cats.'') [1, 0, 100, 0, 50]
         = Inr (Some ''m2'')"
proof -
  define cs0 where "cs0 = empty_cstate\<lparr>stdout := stdout empty_cstate @ []\<rparr>"
  define key where "key = lib_md5 demo_libs (unread (demo_stream [1, 0, 100, 0, 50]))"
  define uri where "uri = jpeg_data_uri [1, 0, 100, 0, 50]"
  define cs1 where "cs1 = cs0\<lparr>requests := requests cs0 @ [caption_request ''m'' (effective_prompt None) uri],
                              memcache := (memcache cs0)(key \<mapsto> Some ''m'')\<rparr>"
  have cm: "call_model demo_echo cs0 ''m'' (effective_prompt None) key uri = (Inr (Some ''m''), cs1)"
    unfolding cs1_def
    using call_model_ok[where ch="\<lparr>ch_content = Some ''m''\<rparr>" and chs="[]"]
    by (simp add: demo_echo_def caption_request_def)
  have enc: "encode_image_as_base64_data_uri (lib_codec demo_libs) (unread (demo_stream [1, 0, 100, 0, 50])) 1080
               = ([], Inr uri)"
    unfolding uri_def using demo_encode_jpeg by simp
  have run1: "llm_caption demo_libs empty_cstate (demo_stream [1, 0, 100, 0, 50]) demo_info demo_echo ''m'' None
                = (Inr (Some ''m''), demo_stream [1, 0, 100, 0, 50], cs1)"
    using llm_caption_call[OF demo_stream_flags(1,2) demo_empty_miss enc] cm
    unfolding cs0_def key_def by simp
  have hit: "memcache cs1 (lib_md5 demo_libs (unread (demo_stream [1, 0, 100, 0, 50]))) = Some (Some ''m'')"
    unfolding cs1_def key_def by simp
  have run2: "fst (llm_caption demo_libs cs1 (demo_stream [1, 0, 100, 0, 50]) demo_info demo_echo ''m2''
                (Some ''Count the cats.'')) = Inr (Some ''m'')"
    using llm_caption_hit[OF demo_stream_flags(1,2) hit] by simp
  have direct: "caption_direct demo_libs demo_echo ''m2'' (Some ''Count the cats.'') [1, 0, 100, 0, 50]
                  = Inr (Some ''m2'')"
    using demo_encode_jpeg by (simp add: caption_direct_def demo_echo_def caption_request_def)
  show ?thesis
    using run1 run2 direct by blast
qed

end
