(* ===== verification/Base64_Reference.thy ===== *)
theory Base64_Reference
  imports Base64
begin

text \<open>
  Base64 as RFC 4648 (section 4) describes it, on bits: the input is a stream of bits,
  most significant bit of each byte first; it is cut into groups of six bits, the last
  group completed with zero bits; each group is the index of a character of the
  alphabet; the output is completed with \<open>=\<close> to a multiple of four characters. The
  encoder \<open>b64encode\<close> of theory \<open>Base64\<close>, which works on three bytes at a time as a
  24-bit number, computes exactly this function.
\<close>

definition byte_bits :: "byte \<Rightarrow> bool list" where
  "byte_bits b = map (bit (unat b)) (rev [0..<8])"

definition bits_val :: "bool list \<Rightarrow> nat" where
  "bits_val xs = foldl (\<lambda>n x. 2 * n + of_bool x) 0 xs"

fun sextets :: "bool list \<Rightarrow> bool list list" where
  "sextets [] = []"
| "sextets (x # xs) =
     (let g = take 6 (x # xs) in (g @ replicate (6 - length g) False) # sextets (drop 5 xs))"

definition b64_ref :: "bytes \<Rightarrow> string" where
  "b64_ref bs =
     (let ds = map (b64_digit \<circ> bits_val) (sextets (concat (map byte_bits bs)))
      in ds @ replicate ((4 - length ds mod 4) mod 4) b64_pad)"

section \<open>Values of bit strings\<close>

lemma foldl_bits_val: "foldl (\<lambda>n x. 2 * n + of_bool x) a xs = a * 2 ^ length xs + bits_val xs"
proof (induction xs arbitrary: a)
  case Nil
  then show ?case by (simp add: bits_val_def)
next
  case (Cons x xs)
  have "bits_val (x # xs) = foldl (\<lambda>n x. 2 * n + of_bool x) (of_bool x) xs"
    by (simp add: bits_val_def)
  also have "\<dots> = of_bool x * 2 ^ length xs + bits_val xs"
    by (rule Cons.IH)
  finally have b: "bits_val (x # xs) = of_bool x * 2 ^ length xs + bits_val xs" .
  have "foldl (\<lambda>n x. 2 * n + of_bool x) a (x # xs) = (2 * a + of_bool x) * 2 ^ length xs + bits_val xs"
    using Cons.IH[of "2 * a + of_bool x"] by simp
  then show ?case
    using b by (simp add: algebra_simps)
qed

lemma bits_val_append: "bits_val (xs @ ys) = bits_val xs * 2 ^ length ys + bits_val ys"
proof -
  have "bits_val (xs @ ys) = foldl (\<lambda>n x. 2 * n + of_bool x) (bits_val xs) ys"
    by (simp add: bits_val_def)
  then show ?thesis
    by (simp add: foldl_bits_val)
qed

lemma bits_val_zeros: "bits_val (replicate k False) = 0"
  by (induction k) (simp_all add: bits_val_def)

lemma bits_val_less: "bits_val xs < 2 ^ length xs"
proof (induction xs rule: rev_induct)
  case Nil
  then show ?case by (simp add: bits_val_def)
next
  case (snoc x xs)
  then show ?case by (simp add: bits_val_append bits_val_def)
qed

lemma bits_val_msb: "bits_val (map (bit m) (rev [0..<n])) = take_bit n (m :: nat)"
proof (induction n)
  case 0
  then show ?case by (simp add: bits_val_def)
next
  case (Suc n)
  have "bits_val (map (bit m) (rev [0..<Suc n])) = of_bool (bit m n) * 2 ^ n + take_bit n m"
    using Suc bits_val_append[of "[bit m n]" "map (bit m) (rev [0..<n])"]
    by (simp add: bits_val_def)
  then show ?case
    by (simp add: take_bit_Suc_from_most)
qed

lemma byte_bits_val [simp]: "bits_val (byte_bits b) = unat b"
  unfolding byte_bits_def bits_val_msb
  using unat_byte_less[of b] by (simp add: take_bit_nat_eq_self_iff)

lemma byte_bits_length [simp]: "length (byte_bits b) = 8"
  by (simp add: byte_bits_def)

section \<open>Groups of six bits\<close>

lemma sextets_six: "length g = 6 \<Longrightarrow> sextets (g @ ys) = g # sextets ys"
  by (cases g) simp_all

lemma sextets_short:
  "g \<noteq> [] \<Longrightarrow> length g \<le> 6 \<Longrightarrow> sextets g = [g @ replicate (6 - length g) False]"
  by (cases g) simp_all

lemma split_bits:
  assumes "length xs = m + k"
  obtains g r where "xs = g @ r" and "length g = m" and "length r = k"
  using assms by (intro that[of "take m xs" "drop m xs"]) simp_all

lemma bits_val_padded: "bits_val (g @ replicate k False) = bits_val g * 2 ^ k"
  by (simp add: bits_val_append bits_val_zeros)

lemma bits_val_six: "length g = 6 \<Longrightarrow> bits_val g < 64"
  using bits_val_less[of g] by simp

lemma quad_digits:
  fixes v1 v2 v3 v4 :: nat
  assumes "v1 < 64" and "v2 < 64" and "v3 < 64" and "v4 < 64"
  shows "b64_quad (((v1 * 64 + v2) * 64 + v3) * 64 + v4)
           = [b64_digit v1, b64_digit v2, b64_digit v3, b64_digit v4]"
proof -
  define n where "n = ((v1 * 64 + v2) * 64 + v3) * 64 + v4"
  have d64: "n div 64 = (v1 * 64 + v2) * 64 + v3"
    unfolding n_def by (rule div_low[OF assms(4)])
  have m64: "n mod 64 = v4"
    unfolding n_def by (rule mod_low[OF assms(4)])
  have "n div 4096 = n div 64 div 64"
    using div_mult2_eq[of n 64 64] by simp
  also have "\<dots> = v1 * 64 + v2"
    unfolding d64 by (rule div_low[OF assms(3)])
  finally have d4096: "n div 4096 = v1 * 64 + v2" .
  have "n div 262144 = n div 4096 div 64"
    using div_mult2_eq[of n 4096 64] by simp
  also have "\<dots> = v1"
    unfolding d4096 by (rule div_low[OF assms(2)])
  finally have d262144: "n div 262144 = v1" .
  have m3: "n div 64 mod 64 = v3"
    unfolding d64 by (rule mod_low[OF assms(3)])
  have m2: "n div 4096 mod 64 = v2"
    unfolding d4096 by (rule mod_low[OF assms(2)])
  show ?thesis
    unfolding n_def[symmetric] b64_quad_def d262144 m2 m3 m64 ..
qed

lemma bits_three: "bits_val (concat (map byte_bits [a, b, c])) = group3 a b c"
  by (simp add: bits_val_append group3_def)

lemma length_bits [simp]: "length (concat (map byte_bits bs)) = 8 * length bs"
  by (induction bs) simp_all

section \<open>The encoder is the RFC's bit-level definition\<close>

lemma ref_digits_three:
  "map (b64_digit \<circ> bits_val) (sextets (byte_bits a @ byte_bits b @ byte_bits c @ ys))
     = b64_quad (group3 a b c) @ map (b64_digit \<circ> bits_val) (sextets ys)"
proof -
  have "length (byte_bits a @ byte_bits b @ byte_bits c) = 6 + (6 + (6 + 6))"
    by simp
  then obtain g1 r1 where x1: "byte_bits a @ byte_bits b @ byte_bits c = g1 @ r1"
    and l1: "length g1 = 6" and lr1: "length r1 = 6 + (6 + 6)"
    by (rule split_bits)
  obtain g2 r2 where x2: "r1 = g2 @ r2" and l2: "length g2 = 6" and lr2: "length r2 = 6 + 6"
    by (rule split_bits[OF lr1])
  obtain g3 g4 where x3: "r2 = g3 @ g4" and l3: "length g3 = 6" and l4: "length g4 = 6"
    by (rule split_bits[OF lr2])
  have xs: "byte_bits a @ byte_bits b @ byte_bits c = g1 @ g2 @ g3 @ g4"
    using x1 x2 x3 by simp
  have s: "sextets (g1 @ g2 @ g3 @ g4 @ ys) = g1 # g2 # g3 # g4 # sextets ys"
    using l1 l2 l3 l4 by (simp add: sextets_six)
  have "group3 a b c = bits_val (byte_bits a @ byte_bits b @ byte_bits c)"
    by (simp add: bits_val_append group3_def)
  also have "\<dots> = ((bits_val g1 * 64 + bits_val g2) * 64 + bits_val g3) * 64 + bits_val g4"
    unfolding xs using l2 l3 l4 by (simp add: bits_val_append algebra_simps)
  finally have v: "group3 a b c = ((bits_val g1 * 64 + bits_val g2) * 64 + bits_val g3) * 64 + bits_val g4" .
  have y: "byte_bits a @ byte_bits b @ byte_bits c @ ys = g1 @ g2 @ g3 @ g4 @ ys"
    using xs by (metis append.assoc)
  show ?thesis
    unfolding y s v
    using quad_digits[OF bits_val_six[OF l1] bits_val_six[OF l2] bits_val_six[OF l3] bits_val_six[OF l4]]
    by simp
qed

lemma ref_digits_two:
  "map (b64_digit \<circ> bits_val) (sextets (byte_bits a @ byte_bits b)) = take 3 (b64_quad (group3 a b 0))"
proof -
  have "length (byte_bits a @ byte_bits b) = 6 + (6 + 4)"
    by simp
  then obtain g1 r1 where x1: "byte_bits a @ byte_bits b = g1 @ r1"
    and l1: "length g1 = 6" and lr1: "length r1 = 6 + 4"
    by (rule split_bits)
  obtain g2 g3 where x2: "r1 = g2 @ g3" and l2: "length g2 = 6" and l3: "length g3 = 4"
    by (rule split_bits[OF lr1])
  have "g3 \<noteq> []"
    using l3 by auto
  then have s: "sextets (byte_bits a @ byte_bits b) = [g1, g2, g3 @ replicate 2 False]"
    using x1 x2 l1 l2 l3 sextets_short[of g3] by (simp add: sextets_six)
  have v3: "bits_val g3 < 16"
    using bits_val_less[of g3] l3 by simp
  have "group3 a b 0 = bits_val (byte_bits a @ byte_bits b) * 256"
    by (simp add: bits_val_append group3_def)
  also have "\<dots> = ((bits_val g1 * 64 + bits_val g2) * 64 + bits_val g3 * 4) * 64 + 0"
    using x1 x2 l2 l3 by (simp add: bits_val_append algebra_simps)
  finally have v: "group3 a b 0 = ((bits_val g1 * 64 + bits_val g2) * 64 + bits_val g3 * 4) * 64 + 0" .
  have p: "bits_val (g3 @ replicate 2 False) = bits_val g3 * 4"
    by (simp add: bits_val_padded)
  show ?thesis
    using s v p v3 quad_digits[OF bits_val_six[OF l1] bits_val_six[OF l2], of "bits_val g3 * 4" 0]
    by simp
qed

lemma ref_digits_one:
  "map (b64_digit \<circ> bits_val) (sextets (byte_bits a)) = take 2 (b64_quad (group3 a 0 0))"
proof -
  have "length (byte_bits a) = 6 + 2"
    by simp
  then obtain g1 g2 where x1: "byte_bits a = g1 @ g2" and l1: "length g1 = 6" and l2: "length g2 = 2"
    by (rule split_bits)
  have "g2 \<noteq> []"
    using l2 by auto
  then have s: "sextets (byte_bits a) = [g1, g2 @ replicate 4 False]"
    using x1 l1 l2 sextets_short[of g2] by (simp add: sextets_six)
  have v2: "bits_val g2 < 4"
    using bits_val_less[of g2] l2 by simp
  have "group3 a 0 0 = bits_val (byte_bits a) * 65536"
    by (simp add: group3_def)
  also have "\<dots> = ((bits_val g1 * 64 + bits_val g2 * 16) * 64 + 0) * 64 + 0"
    using x1 l2 by (simp add: bits_val_append algebra_simps)
  finally have v: "group3 a 0 0 = ((bits_val g1 * 64 + bits_val g2 * 16) * 64 + 0) * 64 + 0" .
  have p: "bits_val (g2 @ replicate 4 False) = bits_val g2 * 16"
    by (simp add: bits_val_padded)
  show ?thesis
    using s v p v2 quad_digits[OF bits_val_six[OF l1], of "bits_val g2 * 16" 0 0]
    by simp
qed

lemma b64_ref_step: "b64_ref (a # b # c # rest) = b64_quad (group3 a b c) @ b64_ref rest"
proof -
  have "length (b64_quad (group3 a b c)) = 4"
    by (simp add: b64_quad_def)
  then show ?thesis
    using ref_digits_three[of a b c "concat (map byte_bits rest)"]
    by (simp add: b64_ref_def Let_def)
qed

theorem b64encode_rfc: "b64encode bs = b64_ref bs"
proof (induction bs rule: b64encode.induct)
  case (1 a b c rest)
  then show ?case by (simp add: b64_ref_step)
next
  case (2 a b)
  have "length (b64_quad (group3 a b 0)) = 4"
    by (simp add: b64_quad_def)
  then show ?case
    using ref_digits_two[of a b] by (simp add: b64_ref_def)
next
  case (3 a)
  have "length (b64_quad (group3 a 0 0)) = 4"
    by (simp add: b64_quad_def)
  then show ?case
    using ref_digits_one[of a] by (simp add: b64_ref_def numeral_2_eq_2)
next
  case 4
  then show ?case by (simp add: b64_ref_def)
qed

section \<open>The test vectors of RFC 4648\<close>

text \<open>The equations that evaluate the encoder on concrete bytes by \<open>simp\<close>.\<close>

lemmas b64_eval_simps = b64_quad_def group3_def b64_digit_def b64_alphabet_def b64_pad_def

theorem b64_rfc_test_vectors:
  "b64encode [] = '''' \<and> b64encode [102] = ''Zg=='' \<and> b64encode [102, 111] = ''Zm8='' \<and>
   b64encode [102, 111, 111] = ''Zm9v'' \<and> b64encode [102, 111, 111, 98] = ''Zm9vYg=='' \<and>
   b64encode [102, 111, 111, 98, 97] = ''Zm9vYmE='' \<and> b64encode [102, 111, 111, 98, 97, 114] = ''Zm9vYmFy''"
proof -
  have v0: "b64encode [] = ''''"
    by (simp add: b64_eval_simps)
  have v1: "b64encode [102] = ''Zg==''"
    by (simp add: b64_eval_simps)
  have v2: "b64encode [102, 111] = ''Zm8=''"
    by (simp add: b64_eval_simps)
  have v3: "b64encode [102, 111, 111] = ''Zm9v''"
    by (simp add: b64_eval_simps)
  have v4: "b64encode [102, 111, 111, 98] = ''Zm9vYg==''"
    by (simp add: b64_eval_simps)
  have v5: "b64encode [102, 111, 111, 98, 97] = ''Zm9vYmE=''"
    by (simp add: b64_eval_simps)
  have v6: "b64encode [102, 111, 111, 98, 97, 114] = ''Zm9vYmFy''"
    by (simp add: b64_eval_simps)
  show ?thesis
    using v0 v1 v2 v3 v4 v5 v6 by (intro conjI)
qed

end
