(* ===== verification/Calls.thy ===== *)
theory Calls
  imports Caption
begin

text \<open>
  Sequences of calls. \<open>MEMCACHE\<close> lives as long as the process, so the module's
  behaviour is that of a sequence of calls of \<open>llm_caption\<close>, each on its own stream,
  metadata, client, model and prompt, threading the module state from one call to the
  next. \<open>run_calls\<close> is that sequence; its results are the results of the calls in
  order. The lemmas show what a cached caption guarantees for every later call, whatever
  calls come in between.
\<close>

type_synonym call = "stream \<times> stream_info \<times> client \<times> string \<times> string option"

fun run_calls :: "'p libs \<Rightarrow> cstate \<Rightarrow> call list \<Rightarrow> (py_error + string option) list \<times> cstate" where
  "run_calls libs cs [] = ([], cs)"
| "run_calls libs cs ((s, si, client, model, p) # calls) =
     (case llm_caption libs cs s si client model p of
        (r, s', cs') \<Rightarrow> (case run_calls libs cs' calls of (rs, cs'') \<Rightarrow> (r # rs, cs'')))"

definition demo_calls :: "call list" where
  "demo_calls =
     [(demo_stream [3, 0, 0, 0, 0], demo_info, demo_client, ''m'', None),
      (demo_stream [1, 0, 100, 0, 50], demo_info, (\<lambda>_. Inl (ClientError ''down'')), ''other'', Some ''Describe it.''),
      (demo_stream [2, 0, 100, 0, 50], demo_info, demo_client, ''m'', None),
      (demo_stream [1, 0, 100, 0, 50], demo_info, (\<lambda>_. Inr []), ''m'', None)]"

declare run_calls.simps(2) [simp del]

section \<open>The cache across calls\<close>

lemma llm_caption_submap:
  assumes "llm_caption libs cs s si client model p = (r, s', cs')"
  shows "memcache cs \<subseteq>\<^sub>m memcache cs'"
  using llm_caption_effect[OF assms]
proof
  assume "memcache cs' = memcache cs \<and> requests cs' = requests cs"
  then show ?thesis by simp
next
  assume "\<exists>uri out. snd (encode_image_as_base64_data_uri (lib_codec libs) (unread s) 1080) = Inr uri
             \<and> memcache cs (lib_md5 libs (unread s)) = None
             \<and> requests cs' = requests cs @ [caption_request model (effective_prompt p) uri]
             \<and> (memcache cs' = memcache cs
                \<or> (\<exists>c. r = Inr c \<and> memcache cs' = (memcache cs)(lib_md5 libs (unread s) \<mapsto> c)))"
  then show ?thesis
    by (auto simp: map_le_def)
qed

lemma run_calls_Cons:
  "run_calls libs cs ((s, si, client, model, p) # calls) =
     (fst (llm_caption libs cs s si client model p)
        # fst (run_calls libs (snd (snd (llm_caption libs cs s si client model p))) calls),
      snd (run_calls libs (snd (snd (llm_caption libs cs s si client model p))) calls))"
  by (simp add: run_calls.simps(2) split: prod.split)

lemma run_calls_length [simp]: "length (fst (run_calls libs cs calls)) = length calls"
  by (induction calls arbitrary: cs) (auto simp: run_calls_Cons)

theorem run_calls_keeps_cache: "memcache cs \<subseteq>\<^sub>m memcache (snd (run_calls libs cs calls))"
proof (induction calls arbitrary: cs)
  case Nil
  then show ?case by simp
next
  case (Cons call calls)
  obtain s si client model p where c: "call = (s, si, client, model, p)"
    by (cases call) auto
  obtain r s' cs' where run: "llm_caption libs cs s si client model p = (r, s', cs')"
    by (cases "llm_caption libs cs s si client model p") auto
  have "memcache cs \<subseteq>\<^sub>m memcache cs'"
    by (rule llm_caption_submap[OF run])
  moreover have "memcache cs' \<subseteq>\<^sub>m memcache (snd (run_calls libs cs' calls))"
    by (rule Cons.IH)
  ultimately show ?case
    using c run by (auto simp: run_calls_Cons intro: map_le_trans)
qed

lemma map_le_Some: "m \<subseteq>\<^sub>m m' \<Longrightarrow> m k = Some c \<Longrightarrow> m' k = Some c"
  unfolding map_le_def by (metis domI)

text \<open>C5. Once the caption of some bytes is cached, every later call in a sequence on a readable stream with those unread bytes returns that caption, whatever calls come in between and whatever client that call is given.\<close>

theorem run_calls_answer_cached:
  assumes "memcache cs (lib_md5 libs bs) = Some c" and "i < length calls"
    and "st_seekable (fst (calls ! i))" and "\<not> st_read_fails (fst (calls ! i))"
    and "unread (fst (calls ! i)) = bs"
  shows "fst (run_calls libs cs calls) ! i = Inr c"
  using assms
proof (induction calls arbitrary: cs i)
  case Nil
  then show ?case by simp
next
  case (Cons call calls)
  obtain s si client model p where c: "call = (s, si, client, model, p)"
    by (cases call) auto
  obtain r s' cs' where run: "llm_caption libs cs s si client model p = (r, s', cs')"
    by (cases "llm_caption libs cs s si client model p") auto
  show ?case
  proof (cases i)
    case 0
    then have "st_seekable s" and "\<not> st_read_fails s" and "memcache cs (lib_md5 libs (unread s)) = Some c"
      using Cons.prems c by simp_all
    then have "r = Inr c"
      using llm_caption_hit[of s cs libs c si client model p] run by simp
    then show ?thesis
      using 0 c run by (simp add: run_calls_Cons)
  next
    case (Suc j)
    have "memcache cs' (lib_md5 libs bs) = Some c"
      using map_le_Some[OF llm_caption_submap[OF run] Cons.prems(1)] .
    then have "fst (run_calls libs cs' calls) ! j = Inr c"
      using Cons.prems(2-5) Suc by (intro Cons.IH) simp_all
    then show ?thesis
      using Suc c run by (simp add: run_calls_Cons)
  qed
qed

section \<open>A sequence of calls on concrete bytes\<close>

lemma demo_calls_3:
  "3 < length demo_calls \<and> fst (demo_calls ! 3) = demo_stream [1, 0, 100, 0, 50]"
  by (simp add: demo_calls_def)

theorem run_calls_answer_cached_witness:
  "memcache demo_state1 (lib_md5 demo_libs [1, 0, 100, 0, 50]) = Some (Some ''a cat'')
   \<and> fst (run_calls demo_libs demo_state1 demo_calls) ! 3 = Inr (Some ''a cat'')"
proof -
  have m: "memcache demo_state1 (lib_md5 demo_libs [1, 0, 100, 0, 50]) = Some (Some ''a cat'')"
    by (simp add: demo_state1_def)
  have l: "3 < length demo_calls" and s: "fst (demo_calls ! 3) = demo_stream [1, 0, 100, 0, 50]"
    using demo_calls_3 by simp_all
  have "fst (run_calls demo_libs demo_state1 demo_calls) ! 3 = Inr (Some ''a cat'')"
    using run_calls_answer_cached[OF m l] s by simp
  then show ?thesis
    using m by simp
qed

end
