(* ===== verification/Concurrent.thy ===== *)
theory Concurrent
  imports Memo Calls
begin

text \<open>
  Calls of \<open>llm_caption\<close> from several threads. \<open>MEMCACHE\<close> is a plain dictionary
  without a lock (line 8); CPython runs one thread at a time but switches threads while
  a thread waits on I/O, and the call of the model client (line 91) is such a wait. A
  call therefore runs in two atomic steps: \<open>thread_start\<close> is lines 59-91 up to the
  request sent to the client (reading, hashing, the cache lookup, normalising the image,
  sending the request); \<open>thread_finish\<close> is lines 92-95, taking the first choice of
  the response and writing it into the cache. Between the two steps of one thread,
  other threads run. A thread is \<open>Ready\<close> with its call, \<open>Waiting\<close> for the response
  with its cache key, or \<open>Done\<close> with its result; the system state is the module
  state with the list of threads, and \<open>conc_step\<close> runs one step of any thread.
\<close>

datatype thread =
    Ready call
  | Waiting string "py_error + choice list"
  | Done "py_error + string option"

definition thread_start :: "'p libs \<Rightarrow> cstate \<Rightarrow> call \<Rightarrow> thread \<times> cstate" where
  "thread_start libs cs c =
     (case c of (s, si, client, model, p) \<Rightarrow>
        (case py_tell s of
           Inl e \<Rightarrow> (Done (Inl e), cs)
         | Inr cur_pos \<Rightarrow>
             (case prepare_image libs cs s cur_pos of
                (Cached r, s', cs') \<Rightarrow> (Done (Inr r), cs')
              | (Swallowed, s', cs') \<Rightarrow> (Done (Inr None), cs')
              | (Prepared cache_key data_uri, s', cs') \<Rightarrow>
                  (let req = caption_request model (effective_prompt p) data_uri
                   in (Waiting cache_key (client req), cs'\<lparr>requests := requests cs' @ [req]\<rparr>)))))"

definition thread_finish :: "cstate \<Rightarrow> string \<Rightarrow> py_error + choice list \<Rightarrow> thread \<times> cstate" where
  "thread_finish cs cache_key response =
     (case response of
        Inl e \<Rightarrow> (Done (Inl e), cs)
      | Inr [] \<Rightarrow> (Done (Inl IndexError), cs)
      | Inr (ch # _) \<Rightarrow>
          (Done (Inr (ch_content ch)), cs\<lparr>memcache := (memcache cs)(cache_key \<mapsto> ch_content ch)\<rparr>))"

definition run_thread :: "'p libs \<Rightarrow> cstate \<Rightarrow> call \<Rightarrow> thread \<times> cstate" where
  "run_thread libs cs c =
     (case thread_start libs cs c of
        (Waiting k response, cs1) \<Rightarrow> thread_finish cs1 k response
      | r \<Rightarrow> r)"

inductive conc_step :: "'p libs \<Rightarrow> cstate \<times> thread list \<Rightarrow> cstate \<times> thread list \<Rightarrow> bool"
  for libs where
  start: "i < length ts \<Longrightarrow> ts ! i = Ready c \<Longrightarrow> thread_start libs cs c = (t, cs') \<Longrightarrow>
          conc_step libs (cs, ts) (cs', ts[i := t])"
| finish: "i < length ts \<Longrightarrow> ts ! i = Waiting k response \<Longrightarrow> thread_finish cs k response = (t, cs') \<Longrightarrow>
          conc_step libs (cs, ts) (cs', ts[i := t])"

fun is_done :: "thread \<Rightarrow> bool" where
  "is_done (Done _) = True"
| "is_done _ = False"

fun waits :: "thread \<Rightarrow> nat" where
  "waits (Waiting _ _) = 1"
| "waits _ = 0"

definition conc_inv :: "cstate \<times> thread list \<Rightarrow> bool" where
  "conc_inv x \<longleftrightarrow>
     finite (dom (memcache (fst x)))
     \<and> card (dom (memcache (fst x))) + sum_list (map waits (snd x)) \<le> length (requests (fst x))"

definition demo_race :: "string \<Rightarrow> thread list" where
  "demo_race model2 =
     [Ready (demo_stream [1, 0, 100, 0, 50], demo_info, demo_echo, ''m'', None),
      Ready (demo_stream [1, 0, 100, 0, 50], demo_info, demo_echo, model2, None)]"

definition demo_race_end :: "string \<Rightarrow> cstate" where
  "demo_race_end model2 =
     \<lparr>memcache = [lib_md5 demo_libs [1, 0, 100, 0, 50] \<mapsto> Some model2], stdout = [],
      requests = [caption_request ''m'' (effective_prompt None) (jpeg_data_uri [1, 0, 100, 0, 50]),
                  caption_request model2 (effective_prompt None) (jpeg_data_uri [1, 0, 100, 0, 50])]\<rparr>"

definition session_thread :: "'p libs \<Rightarrow> client \<Rightarrow> string \<Rightarrow> string option \<Rightarrow> thread \<Rightarrow> bool" where
  "session_thread libs client model p t =
     (case t of
        Ready (s, si, cl, mo, pr) \<Rightarrow> cl = client \<and> mo = model \<and> pr = p
      | Waiting k response \<Rightarrow>
          (\<exists>bs uri. lib_md5 libs bs = k
             \<and> snd (encode_image_as_base64_data_uri (lib_codec libs) bs 1080) = Inr uri
             \<and> response = client (caption_request model (effective_prompt p) uri))
      | Done _ \<Rightarrow> True)"

inductive_cases conc_stepE: "conc_step libs x y"

section \<open>The two steps of a thread are the handler\<close>

lemma run_thread_llm_caption:
  "run_thread libs cs (s, si, client, model, p) =
     (Done (fst (llm_caption libs cs s si client model p)), snd (snd (llm_caption libs cs s si client model p)))"
proof (cases "py_tell s")
  case (Inl e)
  then show ?thesis
    by (simp add: run_thread_def thread_start_def llm_caption_def)
next
  case (Inr pos)
  obtain o1 s1 cs1 where pi: "prepare_image libs cs s pos = (o1, s1, cs1)"
    by (cases "prepare_image libs cs s pos") auto
  show ?thesis
  proof (cases o1)
    case (Prepared key uri)
    then show ?thesis
      using Inr pi
      by (simp add: run_thread_def thread_start_def llm_caption_def call_model_def Let_def
          thread_finish_def split: sum.split list.split)
  qed (use Inr pi in \<open>simp_all add: run_thread_def thread_start_def llm_caption_def\<close>)
qed


section \<open>The cache under interleaving\<close>

lemma thread_finish_done: "\<exists>r. fst (thread_finish cs k response) = Done r"
  by (auto simp: thread_finish_def split: sum.split list.split)

lemma sum_map_update:
  "i < length ts \<Longrightarrow> sum_list (map f (ts[i := t])) + f (ts ! i) = sum_list (map f ts) + (f t :: nat)"
  by (induction ts arbitrary: i) (auto split: nat.split)

lemma prepare_image_state:
  assumes "prepare_image libs cs s pos = (o1, s', cs')"
  shows "memcache cs' = memcache cs \<and> requests cs' = requests cs
         \<and> (\<forall>key uri. o1 = Prepared key uri \<longrightarrow> key = lib_md5 libs (unread s)
              \<and> snd (encode_image_as_base64_data_uri (lib_codec libs) (unread s) 1080) = Inr uri)"
  using assms
  by (auto simp: prepare_image_def py_read_def Let_def split: sum.splits option.splits prod.splits if_splits)

lemma thread_start_state:
  assumes "thread_start libs cs c = (t, cs')"
  shows "memcache cs' = memcache cs
         \<and> length (requests cs') = length (requests cs) + waits t"
  using assms prepare_image_state
  by (fastforce simp: thread_start_def Let_def split: prod.splits sum.splits try_outcome.splits)

lemma thread_finish_state:
  assumes "thread_finish cs k response = (t, cs')"
  shows "waits t = 0 \<and> requests cs' = requests cs
         \<and> (memcache cs' = memcache cs \<or> (\<exists>c. memcache cs' = (memcache cs)(k \<mapsto> c)))"
  using assms by (auto simp: thread_finish_def split: sum.splits list.splits)

lemma conc_inv_step:
  assumes "conc_step libs x y" and "conc_inv x"
  shows "conc_inv y"
  using assms
proof (induction rule: conc_step.induct)
  case (start i ts c cs t cs')
  have "memcache cs' = memcache cs" and "length (requests cs') = length (requests cs) + waits t"
    using thread_start_state[OF start(3)] by simp_all
  moreover have "sum_list (map waits (ts[i := t])) = sum_list (map waits ts) + waits t"
    using sum_map_update[OF start(1), of waits t] start(2) by simp
  ultimately show ?case
    using start(4) by (simp add: conc_inv_def)
next
  case (finish i ts k response cs t cs')
  have w: "sum_list (map waits (ts[i := t])) + 1 = sum_list (map waits ts)"
    using sum_map_update[OF finish(1), of waits t] finish(2) thread_finish_state[OF finish(3)] by simp
  have f: "finite (dom (memcache cs))" and le: "card (dom (memcache cs)) + sum_list (map waits ts) \<le> length (requests cs)"
    using finish(4) by (simp_all add: conc_inv_def)
  have rq: "requests cs' = requests cs"
    using thread_finish_state[OF finish(3)] by simp
  have "memcache cs' = memcache cs \<or> (\<exists>c. memcache cs' = (memcache cs)(k \<mapsto> c))"
    using thread_finish_state[OF finish(3)] by simp
  then have "finite (dom (memcache cs')) \<and> card (dom (memcache cs')) \<le> card (dom (memcache cs)) + 1"
    using f card_dom_upd_le[OF f] by auto
  then show ?case
    using w le rq by (simp add: conc_inv_def)
qed

text \<open>C9. In every state reached by interleaving calls from an empty cache, the number of cached keys plus the number of threads waiting for the client is at most the number of requests sent.\<close>

theorem conc_cache_bounded:
  assumes "(conc_step libs)\<^sup>*\<^sup>* (empty_cstate, map Ready calls) (cs, ts)"
  shows "finite (dom (memcache cs)) \<and> card (dom (memcache cs)) + sum_list (map waits ts) \<le> length (requests cs)"
proof -
  have "conc_inv (empty_cstate, map Ready calls)"
    by (simp add: conc_inv_def empty_cstate_def comp_def)
  with assms have "conc_inv (cs, ts)"
    by (induction rule: rtranclp_induct) (auto intro: conc_inv_step)
  then show ?thesis
    by (simp add: conc_inv_def)
qed


section \<open>Interleaving within a session keeps the memo table valid\<close>

lemma list_all_update: "list_all P ts \<Longrightarrow> P t \<Longrightarrow> list_all P (ts[i := t])"
  by (induction ts arbitrary: i) (auto split: nat.split)

lemma list_all_nth: "list_all P ts \<Longrightarrow> i < length ts \<Longrightarrow> P (ts ! i)"
  by (simp add: list_all_length)

lemma thread_start_session:
  assumes "thread_start libs cs (s, si, client, model, p) = (t, cs')"
  shows "session_thread libs client model p t \<and> memcache cs' = memcache cs"
  using assms prepare_image_state
  by (fastforce simp: thread_start_def session_thread_def Let_def
      split: prod.splits sum.splits try_outcome.splits)

lemma thread_finish_memo:
  assumes "thread_finish cs k response = (t, cs')" and "memo_valid libs client model p cs"
    and "session_thread libs client model p (Waiting k response)"
  shows "memo_valid libs client model p cs'"
proof -
  obtain bs uri where k: "lib_md5 libs bs = k"
    and e: "snd (encode_image_as_base64_data_uri (lib_codec libs) bs 1080) = Inr uri"
    and r: "response = client (caption_request model (effective_prompt p) uri)"
    using assms(3) by (auto simp: session_thread_def)
  show ?thesis
  proof (cases "\<exists>ch chs. response = Inr (ch # chs)")
    case True
    then obtain ch chs where rc: "response = Inr (ch # chs)"
      by blast
    have cr: "client (caption_request model (effective_prompt p) uri) = Inr (ch # chs)"
      using r rc by simp
    have "caption_direct libs client model p bs = Inr (ch_content ch)"
      using e cr by (simp add: caption_direct_def)
    moreover have "memcache cs' = (memcache cs)(lib_md5 libs bs \<mapsto> ch_content ch)"
      using assms(1) rc k by (auto simp: thread_finish_def)
    ultimately show ?thesis
      by (rule memo_valid_upd[OF assms(2)])
  next
    case False
    then have "memcache cs' = memcache cs"
      using assms(1) by (auto simp: thread_finish_def split: sum.splits list.splits)
    then show ?thesis
      by (rule memo_valid_same[OF assms(2)])
  qed
qed

lemma session_inv_step:
  assumes "conc_step libs x y"
    and "memo_valid libs client model p (fst x) \<and> list_all (session_thread libs client model p) (snd x)"
  shows "memo_valid libs client model p (fst y) \<and> list_all (session_thread libs client model p) (snd y)"
  using assms
proof (induction rule: conc_step.induct)
  case (start i ts c cs t cs')
  obtain s si cl mo pr where c: "c = (s, si, cl, mo, pr)"
    by (cases c) auto
  have "session_thread libs client model p (Ready c)"
    using list_all_nth[of _ ts i] start(1,2,4) by fastforce
  then have same: "cl = client" "mo = model" "pr = p"
    using c by (simp_all add: session_thread_def)
  have "session_thread libs client model p t \<and> memcache cs' = memcache cs"
    using thread_start_session[of libs cs s si client model p t cs'] start(3) c same by simp
  then show ?case
    using start(4) memo_valid_same[of libs client model p cs cs'] by (auto intro: list_all_update)
next
  case (finish i ts k response cs t cs')
  have w: "session_thread libs client model p (Waiting k response)"
    using list_all_nth[of _ ts i] finish(1,2,4) by fastforce
  have "memo_valid libs client model p cs'"
    using thread_finish_memo[OF finish(3) _ w] finish(4) by simp
  moreover have "session_thread libs client model p t"
    using thread_finish_done[of cs k response] finish(3) by (auto simp: session_thread_def)
  ultimately show ?case
    using finish(4) by (auto intro: list_all_update)
qed

text \<open>C6. However the steps of concurrent calls interleave, if all threads use the same client, model and prompt, every entry of MEMCACHE remains the direct caption of some bytes with that key: the race between lookup and write cannot store a wrong caption within a session.\<close>

theorem conc_session_memo_valid:
  assumes "(conc_step libs)\<^sup>*\<^sup>* (cs0, map Ready calls) (cs, ts)"
    and "memo_valid libs client model p cs0"
    and "list_all (session_thread libs client model p) (map Ready calls)"
  shows "memo_valid libs client model p cs"
proof -
  have "memo_valid libs client model p (fst (cs, ts)) \<and> list_all (session_thread libs client model p) (snd (cs, ts))"
    using assms(1)
  proof (induction rule: rtranclp_induct)
    case base
    then show ?case using assms(2,3) by simp
  next
    case (step y z)
    show ?case by (rule session_inv_step[OF step.hyps(2) step.IH])
  qed
  then show ?thesis
    by simp
qed

section \<open>The race between lookup and write\<close>

lemma thread_start_miss:
  assumes "st_seekable s" and "\<not> st_read_fails s" and "memcache cs (lib_md5 libs (unread s)) = None"
    and "encode_image_as_base64_data_uri (lib_codec libs) (unread s) 1080 = (out, Inr uri)"
  shows "thread_start libs cs (s, si, client, model, p) =
     (Waiting (lib_md5 libs (unread s)) (client (caption_request model (effective_prompt p) uri)),
      cs\<lparr>stdout := stdout cs @ out, requests := requests cs @ [caption_request model (effective_prompt p) uri]\<rparr>)"
  using assms by (simp add: thread_start_def py_tell_def prepare_image_def py_read_def Let_def)

lemma thread_finish_answer:
  "response = Inr (ch # chs) \<Longrightarrow>
   thread_finish cs k response = (Done (Inr (ch_content ch)), cs\<lparr>memcache := (memcache cs)(k \<mapsto> ch_content ch)\<rparr>)"
  by (simp add: thread_finish_def)

lemma race_schedule:
  assumes f1: "st_seekable sa" "\<not> st_read_fails sa" and f2: "st_seekable sb" "\<not> st_read_fails sb"
    and same: "unread sb = unread sa"
    and miss: "memcache cs (lib_md5 libs (unread sa)) = None"
    and enc: "encode_image_as_base64_data_uri (lib_codec libs) (unread sa) 1080 = (out, Inr uri)"
    and r1: "clienta (caption_request modela (effective_prompt pa) uri) = Inr (cha # chsa)"
    and r2: "clientb (caption_request modelb (effective_prompt pb) uri) = Inr (chb # chsb)"
  shows "(conc_step libs)\<^sup>*\<^sup>*
           (cs, [Ready (sa, sia, clienta, modela, pa), Ready (sb, sib, clientb, modelb, pb)])
           (cs\<lparr>stdout := stdout cs @ out @ out,
               requests := requests cs @ [caption_request modela (effective_prompt pa) uri,
                                          caption_request modelb (effective_prompt pb) uri],
               memcache := (memcache cs)(lib_md5 libs (unread sa) \<mapsto> ch_content chb)\<rparr>,
            [Done (Inr (ch_content cha)), Done (Inr (ch_content chb))])"
proof -
  define key where "key = lib_md5 libs (unread sa)"
  define q1 where "q1 = caption_request modela (effective_prompt pa) uri"
  define q2 where "q2 = caption_request modelb (effective_prompt pb) uri"
  define c1 where "c1 = (sa, sia, clienta, modela, pa)"
  define c2 where "c2 = (sb, sib, clientb, modelb, pb)"
  define cs1 where "cs1 = cs\<lparr>stdout := stdout cs @ out, requests := requests cs @ [q1]\<rparr>"
  define cs2 where "cs2 = cs1\<lparr>stdout := stdout cs1 @ out, requests := requests cs1 @ [q2]\<rparr>"
  define cs3 where "cs3 = cs2\<lparr>memcache := (memcache cs2)(key \<mapsto> ch_content cha)\<rparr>"
  define cs4 where "cs4 = cs3\<lparr>memcache := (memcache cs3)(key \<mapsto> ch_content chb)\<rparr>"
  have m1: "memcache cs1 (lib_md5 libs (unread sb)) = None"
    using miss same by (simp add: cs1_def)
  have enc2: "encode_image_as_base64_data_uri (lib_codec libs) (unread sb) 1080 = (out, Inr uri)"
    using enc same by simp
  have st1: "thread_start libs cs c1 = (Waiting key (clienta q1), cs1)"
    unfolding c1_def using thread_start_miss[OF f1 miss enc] by (simp add: key_def q1_def cs1_def)
  have st2: "thread_start libs cs1 c2 = (Waiting key (clientb q2), cs2)"
    unfolding c2_def using thread_start_miss[OF f2 m1 enc2] same by (simp add: key_def q2_def cs2_def)
  have fin1: "thread_finish cs2 key (clienta q1) = (Done (Inr (ch_content cha)), cs3)"
    unfolding cs3_def by (rule thread_finish_answer) (simp add: r1 q1_def)
  have fin2: "thread_finish cs3 key (clientb q2) = (Done (Inr (ch_content chb)), cs4)"
    unfolding cs4_def by (rule thread_finish_answer) (simp add: r2 q2_def)
  have a: "conc_step libs (cs, [Ready c1, Ready c2]) (cs1, [Waiting key (clienta q1), Ready c2])"
    using conc_step.start[of 0 "[Ready c1, Ready c2]" c1 libs cs _ cs1] st1 by simp
  have b: "conc_step libs (cs1, [Waiting key (clienta q1), Ready c2])
             (cs2, [Waiting key (clienta q1), Waiting key (clientb q2)])"
    using conc_step.start[of 1 "[Waiting key (clienta q1), Ready c2]" c2 libs cs1 _ cs2] st2 by simp
  have c: "conc_step libs (cs2, [Waiting key (clienta q1), Waiting key (clientb q2)])
             (cs3, [Done (Inr (ch_content cha)), Waiting key (clientb q2)])"
    using conc_step.finish[of 0 "[Waiting key (clienta q1), Waiting key (clientb q2)]" key
        "clienta q1" cs2 _ cs3 libs] fin1 by simp
  have d: "conc_step libs (cs3, [Done (Inr (ch_content cha)), Waiting key (clientb q2)])
             (cs4, [Done (Inr (ch_content cha)), Done (Inr (ch_content chb))])"
    using conc_step.finish[of 1 "[Done (Inr (ch_content cha)), Waiting key (clientb q2)]" key
        "clientb q2" cs3 _ cs4 libs] fin2 by simp
  have run: "(conc_step libs)\<^sup>*\<^sup>* (cs, [Ready c1, Ready c2])
               (cs4, [Done (Inr (ch_content cha)), Done (Inr (ch_content chb))])"
    using a b c d by (meson rtranclp.rtrancl_into_rtrancl r_into_rtranclp)
  show ?thesis
    using run by (simp add: c1_def c2_def cs4_def cs3_def cs2_def cs1_def key_def q1_def q2_def)
qed

lemma demo_race_run:
  "(conc_step demo_libs)\<^sup>*\<^sup>* (empty_cstate, demo_race model2)
     (demo_race_end model2, [Done (Inr (Some ''m'')), Done (Inr (Some model2))])"
proof -
  define s0 where "s0 = demo_stream [1, 0, 100, 0, 50]"
  have flags: "st_seekable s0" "\<not> st_read_fails s0"
    by (simp_all add: s0_def)
  have enc: "encode_image_as_base64_data_uri (lib_codec demo_libs) (unread s0) 1080
               = ([], Inr (jpeg_data_uri [1, 0, 100, 0, 50]))"
    using demo_encode_jpeg by (simp add: s0_def)
  have r: "demo_echo (caption_request mo (effective_prompt None) (jpeg_data_uri [1, 0, 100, 0, 50]))
             = Inr [\<lparr>ch_content = Some mo\<rparr>]" for mo
    by (simp add: demo_echo_def caption_request_def)
  have "(conc_step demo_libs)\<^sup>*\<^sup>* (empty_cstate, demo_race model2)
          (empty_cstate\<lparr>stdout := stdout empty_cstate @ [] @ [],
             requests := requests empty_cstate @ [caption_request ''m'' (effective_prompt None) (jpeg_data_uri [1, 0, 100, 0, 50]),
                                                  caption_request model2 (effective_prompt None) (jpeg_data_uri [1, 0, 100, 0, 50])],
             memcache := (memcache empty_cstate)(lib_md5 demo_libs (unread s0) \<mapsto> Some model2)\<rparr>,
           [Done (Inr (Some ''m'')), Done (Inr (Some model2))])"
    using race_schedule[where clienta=demo_echo and clientb=demo_echo and modela="''m''" and modelb=model2
        and pa=None and pb=None and cha="\<lparr>ch_content = Some ''m''\<rparr>" and chb="\<lparr>ch_content = Some model2\<rparr>"
        and chsa="[]" and chsb="[]" and sia=demo_info and sib=demo_info,
        OF flags flags refl demo_empty_miss enc r r]
    by (simp add: demo_race_def s0_def)
  then show ?thesis
    by (simp add: demo_race_end_def empty_cstate_def s0_def)
qed

text \<open>C8. For any two concurrent calls whose streams hold the same unread bytes, on a cache miss, with an image that normalises and clients that answer with a choice, some interleaving makes both threads miss and both call the client, and the second write replaces the first caption: the first caller returns its own caption while MEMCACHE keeps the second. This holds whatever the models and prompts, so two calls of one session whose client samples (temperature 0.6) different captions return different answers while only the last is cached.\<close>

theorem conc_race_overwrites:
  assumes "st_seekable sa" and "\<not> st_read_fails sa" and "st_seekable sb" and "\<not> st_read_fails sb"
    and "unread sb = unread sa"
    and "memcache cs (lib_md5 libs (unread sa)) = None"
    and "encode_image_as_base64_data_uri (lib_codec libs) (unread sa) 1080 = (out, Inr uri)"
    and "clienta (caption_request modela (effective_prompt pa) uri) = Inr (cha # chsa)"
    and "clientb (caption_request modelb (effective_prompt pb) uri) = Inr (chb # chsb)"
  shows "\<exists>cs'. (conc_step libs)\<^sup>*\<^sup>*
                 (cs, [Ready (sa, sia, clienta, modela, pa), Ready (sb, sib, clientb, modelb, pb)])
                 (cs', [Done (Inr (ch_content cha)), Done (Inr (ch_content chb))])
           \<and> memcache cs' (lib_md5 libs (unread sa)) = Some (ch_content chb)
           \<and> requests cs' = requests cs @ [caption_request modela (effective_prompt pa) uri,
                                             caption_request modelb (effective_prompt pb) uri]"
  using race_schedule[where clienta=clienta and clientb=clientb and modela=modela and modelb=modelb
      and pa=pa and pb=pb and cha=cha and chb=chb and chsa=chsa and chsb=chsb and sia=sia and sib=sib,
      OF assms] by fastforce

lemma demo_race_calls:
  "demo_race modelb = map Ready [(demo_stream [1, 0, 100, 0, 50], demo_info, demo_echo, ''m'', None),
     (demo_stream [1, 0, 100, 0, 50], demo_info, demo_echo, modelb, None)]"
  by (simp add: demo_race_def)

theorem conc_cache_bounded_witness:
  "(conc_step demo_libs)\<^sup>*\<^sup>* (empty_cstate, map Ready [(demo_stream [1, 0, 100, 0, 50], demo_info, demo_echo, ''m'', None),
     (demo_stream [1, 0, 100, 0, 50], demo_info, demo_echo, ''m2'', None)])
     (demo_race_end ''m2'', [Done (Inr (Some ''m'')), Done (Inr (Some ''m2''))])
   \<and> finite (dom (memcache (demo_race_end ''m2'')))
   \<and> card (dom (memcache (demo_race_end ''m2''))) + sum_list (map waits [Done (Inr (Some ''m'')), Done (Inr (Some ''m2''))])
       \<le> length (requests (demo_race_end ''m2''))"
proof -
  have r: "(conc_step demo_libs)\<^sup>*\<^sup>* (empty_cstate, map Ready [(demo_stream [1, 0, 100, 0, 50], demo_info, demo_echo, ''m'', None),
     (demo_stream [1, 0, 100, 0, 50], demo_info, demo_echo, ''m2'', None)])
     (demo_race_end ''m2'', [Done (Inr (Some ''m'')), Done (Inr (Some ''m2''))])"
    using demo_race_run[of "''m2''"] unfolding demo_race_calls .
  show ?thesis
    using r conc_cache_bounded[OF r] by simp
qed

theorem conc_session_memo_valid_witness:
  "(conc_step demo_libs)\<^sup>*\<^sup>* (empty_cstate, map Ready [(demo_stream [1, 0, 100, 0, 50], demo_info, demo_echo, ''m'', None),
     (demo_stream [1, 0, 100, 0, 50], demo_info, demo_echo, ''m'', None)])
     (demo_race_end ''m'', [Done (Inr (Some ''m'')), Done (Inr (Some ''m''))])
   \<and> memo_valid demo_libs demo_echo ''m'' None empty_cstate
   \<and> list_all (session_thread demo_libs demo_echo ''m'' None)
       (map Ready [(demo_stream [1, 0, 100, 0, 50], demo_info, demo_echo, ''m'', None),
                   (demo_stream [1, 0, 100, 0, 50], demo_info, demo_echo, ''m'', None)])
   \<and> memo_valid demo_libs demo_echo ''m'' None (demo_race_end ''m'')"
proof -
  have r: "(conc_step demo_libs)\<^sup>*\<^sup>* (empty_cstate, map Ready [(demo_stream [1, 0, 100, 0, 50], demo_info, demo_echo, ''m'', None),
     (demo_stream [1, 0, 100, 0, 50], demo_info, demo_echo, ''m'', None)])
     (demo_race_end ''m'', [Done (Inr (Some ''m'')), Done (Inr (Some ''m''))])"
    using demo_race_run[of "''m''"] unfolding demo_race_calls .
  have v: "memo_valid demo_libs demo_echo ''m'' None empty_cstate"
    by (simp add: memo_valid_def memo_valid_on_def empty_cstate_def)
  have l: "list_all (session_thread demo_libs demo_echo ''m'' None)
       (map Ready [(demo_stream [1, 0, 100, 0, 50], demo_info, demo_echo, ''m'', None),
                   (demo_stream [1, 0, 100, 0, 50], demo_info, demo_echo, ''m'', None)])"
    by (simp add: session_thread_def)
  show ?thesis
    using r v l conc_session_memo_valid[OF r v l] by simp
qed


theorem conc_race_overwrites_witness:
  "st_seekable (demo_stream [1, 0, 100, 0, 50]) \<and> \<not> st_read_fails (demo_stream [1, 0, 100, 0, 50]) \<and> unread (demo_stream [1, 0, 100, 0, 50]) = unread (demo_stream [1, 0, 100, 0, 50])
   \<and> memcache empty_cstate (lib_md5 demo_libs (unread (demo_stream [1, 0, 100, 0, 50]))) = None
   \<and> encode_image_as_base64_data_uri (lib_codec demo_libs) (unread (demo_stream [1, 0, 100, 0, 50])) 1080 = ([], Inr (jpeg_data_uri [1, 0, 100, 0, 50]))
   \<and> demo_client (caption_request ''m'' (effective_prompt None) (jpeg_data_uri [1, 0, 100, 0, 50])) = Inr [\<lparr>ch_content = Some ''a cat''\<rparr>]
   \<and> demo_echo (caption_request ''m'' (effective_prompt None) (jpeg_data_uri [1, 0, 100, 0, 50])) = Inr [\<lparr>ch_content = Some ''m''\<rparr>]
   \<and> (\<exists>cs'. (conc_step demo_libs)\<^sup>*\<^sup>*
              (empty_cstate, [Ready ((demo_stream [1, 0, 100, 0, 50]), demo_info, demo_client, ''m'', None), Ready ((demo_stream [1, 0, 100, 0, 50]), demo_info, demo_echo, ''m'', None)])
              (cs', [Done (Inr (Some ''a cat'')), Done (Inr (Some ''m''))])
         \<and> memcache cs' (lib_md5 demo_libs (unread (demo_stream [1, 0, 100, 0, 50]))) = Some (Some ''m'')
         \<and> requests cs' = requests empty_cstate @ [caption_request ''m'' (effective_prompt None) (jpeg_data_uri [1, 0, 100, 0, 50]),
                                                   caption_request ''m'' (effective_prompt None) (jpeg_data_uri [1, 0, 100, 0, 50])])"
proof -
  have f: "st_seekable (demo_stream [1, 0, 100, 0, 50])" "\<not> st_read_fails (demo_stream [1, 0, 100, 0, 50])"
    by simp_all
  have enc: "encode_image_as_base64_data_uri (lib_codec demo_libs) (unread (demo_stream [1, 0, 100, 0, 50])) 1080 = ([], Inr (jpeg_data_uri [1, 0, 100, 0, 50]))"
    using demo_encode_jpeg by simp
  have r1: "demo_client (caption_request ''m'' (effective_prompt None) (jpeg_data_uri [1, 0, 100, 0, 50])) = Inr [\<lparr>ch_content = Some ''a cat''\<rparr>]"
    by (simp add: demo_client_def)
  have r2: "demo_echo (caption_request ''m'' (effective_prompt None) (jpeg_data_uri [1, 0, 100, 0, 50])) = Inr [\<lparr>ch_content = Some ''m''\<rparr>]"
    by (simp add: demo_echo_def caption_request_def)
  show ?thesis
    using f enc r1 r2 demo_empty_miss
      conc_race_overwrites[where clienta=demo_client and clientb=demo_echo and modela="''m''" and modelb="''m''"
        and pa=None and pb=None and cha="\<lparr>ch_content = Some ''a cat''\<rparr>" and chb="\<lparr>ch_content = Some ''m''\<rparr>"
        and chsa="[]" and chsb="[]" and sia=demo_info and sib=demo_info,
        OF f f refl demo_empty_miss enc r1 r2]
    by simp
qed

end
