(* ===== verification/Interleaved_Session.thy ===== *)
theory Interleaved_Session
  imports Concurrent
begin

text \<open>
  Interleaved calls within one session: threads that share the client, the model and
  the prompt, on images whose bytes lie in a set \<open>B\<close> on which the digest is injective.
  \<open>call_spec\<close> is the uncached specification of one call: the exception of \<open>tell\<close> on
  an unseekable stream, \<open>None\<close> when reading fails, otherwise the direct caption of the
  unread bytes. \<open>thread_ok\<close> relates a call to the state of its thread: not started,
  waiting for the response to the request built from its own normalised image, or done
  with the answer of \<open>call_spec\<close>. The invariant \<open>sess_inv\<close> (the memo table over \<open>B\<close>
  and \<open>thread_ok\<close> for every thread) holds after every step of every interleaving, so
  the race of lines 63-94 never hands a thread a caption that is not its own call's
  uncached answer. The client is the function of the request fixed when the thread
  sends it, so the statement holds for a sampling client too: a thread's answer is
  the response to its own request, or a cached caption that is the response to an
  earlier request for the same bytes.
\<close>

definition call_spec :: "'p libs \<Rightarrow> call \<Rightarrow> py_error + string option" where
  "call_spec libs c =
     (case c of (s, si, client, model, p) \<Rightarrow>
        if \<not> st_seekable s then Inl UnsupportedOperation
        else if st_read_fails s then Inr None
        else caption_direct libs client model p (unread s))"

definition thread_ok :: "'p libs \<Rightarrow> call \<Rightarrow> thread \<Rightarrow> bool" where
  "thread_ok libs c t =
     (case t of
        Ready c' \<Rightarrow> c' = c
      | Waiting k response \<Rightarrow>
          (case c of (s, si, client, model, p) \<Rightarrow>
             st_seekable s \<and> \<not> st_read_fails s \<and> k = lib_md5 libs (unread s)
             \<and> (\<exists>uri. snd (encode_image_as_base64_data_uri (lib_codec libs) (unread s) 1080) = Inr uri
                  \<and> response = client (caption_request model (effective_prompt p) uri)))
      | Done r \<Rightarrow> r = call_spec libs c)"

definition in_session :: "client \<Rightarrow> string \<Rightarrow> string option \<Rightarrow> bytes set \<Rightarrow> call \<Rightarrow> bool" where
  "in_session client model p B c =
     (case c of (s, si, cl, mo, pr) \<Rightarrow> cl = client \<and> mo = model \<and> pr = p \<and> unread s \<in> B)"

definition sess_inv ::
    "'p libs \<Rightarrow> client \<Rightarrow> string \<Rightarrow> string option \<Rightarrow> bytes set \<Rightarrow> call list \<Rightarrow> cstate \<times> thread list \<Rightarrow> bool" where
  "sess_inv libs client model p B calls x \<longleftrightarrow>
     memo_valid_on libs client model p B (fst x) \<and> list_all2 (thread_ok libs) calls (snd x)"

section \<open>One step of a thread in a session\<close>

lemma thread_start_ok:
  assumes inj: "inj_on (lib_md5 libs) B" and v: "memo_valid_on libs client model p B cs"
    and b: "unread s \<in> B"
    and st: "thread_start libs cs (s, si, client, model, p) = (t, cs')"
  shows "thread_ok libs (s, si, client, model, p) t \<and> memcache cs' = memcache cs"
proof (cases "st_seekable s \<and> \<not> st_read_fails s")
  case False
  then have "t = Done (call_spec libs (s, si, client, model, p)) \<and> cs' = cs"
    using st by (auto simp: thread_start_def py_tell_def prepare_image_def py_read_def call_spec_def)
  then show ?thesis
    by (simp add: thread_ok_def)
next
  case True
  then have seek: "st_seekable s" and nf: "\<not> st_read_fails s"
    by simp_all
  have mc: "memcache cs' = memcache cs"
    using thread_start_state[OF st] by simp
  show ?thesis
  proof (cases "memcache cs (lib_md5 libs (unread s))")
    case (Some c)
    then have "t = Done (Inr c)"
      using st seek nf by (simp add: thread_start_def py_tell_def prepare_image_def py_read_def)
    moreover have "caption_direct libs client model p (unread s) = Inr c"
      by (rule memo_valid_on_hit[OF inj v b Some])
    ultimately show ?thesis
      using mc seek nf by (simp add: thread_ok_def call_spec_def)
  next
    case None
    obtain out r where enc: "encode_image_as_base64_data_uri (lib_codec libs) (unread s) 1080 = (out, r)"
      by fastforce
    show ?thesis
    proof (cases r)
      case (Inl e)
      then have "t = Done (Inr None)"
        using st seek nf None enc by (simp add: thread_start_def py_tell_def prepare_image_def py_read_def)
      then show ?thesis
        using mc seek nf enc Inl caption_direct_swallow[of libs "unread s" e client model p]
        by (simp add: thread_ok_def call_spec_def)
    next
      case (Inr uri)
      then have "t = Waiting (lib_md5 libs (unread s)) (client (caption_request model (effective_prompt p) uri))"
        using thread_start_miss[OF seek nf None, of out uri si client model p] st enc by simp
      then show ?thesis
        using mc seek nf enc Inr by (simp add: thread_ok_def)
    qed
  qed
qed

lemma thread_finish_ok:
  assumes w: "thread_ok libs (s, si, client, model, p) (Waiting k response)"
    and v: "memo_valid_on libs client model p B cs" and b: "unread s \<in> B"
    and fin: "thread_finish cs k response = (t, cs')"
  shows "thread_ok libs (s, si, client, model, p) t \<and> memo_valid_on libs client model p B cs'"
proof -
  obtain uri where seek: "st_seekable s" and nf: "\<not> st_read_fails s" and k: "k = lib_md5 libs (unread s)"
    and e: "snd (encode_image_as_base64_data_uri (lib_codec libs) (unread s) 1080) = Inr uri"
    and r: "response = client (caption_request model (effective_prompt p) uri)"
    using w by (auto simp: thread_ok_def)
  have cr: "client (caption_request model (effective_prompt p) uri) = response"
    using r by simp
  have spec: "caption_direct libs client model p (unread s)
                = (case response of Inl err \<Rightarrow> Inl err | Inr [] \<Rightarrow> Inl IndexError
                   | Inr (ch # chs) \<Rightarrow> Inr (ch_content ch))"
    using e cr by (simp add: caption_direct_def)
  show ?thesis
  proof (cases "\<exists>ch chs. response = Inr (ch # chs)")
    case True
    then obtain ch chs where rc: "response = Inr (ch # chs)"
      by blast
    have "(t, cs') = (Done (Inr (ch_content ch)), cs\<lparr>memcache := (memcache cs)(k \<mapsto> ch_content ch)\<rparr>)"
      using fin rc by (simp add: thread_finish_def)
    then have "t = Done (Inr (ch_content ch))" and m: "memcache cs' = (memcache cs)(lib_md5 libs (unread s) \<mapsto> ch_content ch)"
      using k by simp_all
    moreover have "caption_direct libs client model p (unread s) = Inr (ch_content ch)"
      using spec rc by simp
    ultimately show ?thesis
      using memo_valid_on_upd[OF v b _ m] seek nf by (simp add: thread_ok_def call_spec_def)
  next
    case False
    then have "memcache cs' = memcache cs"
      and "t = Done (caption_direct libs client model p (unread s))"
      using fin spec by (auto simp: thread_finish_def split: sum.splits list.splits)
    then show ?thesis
      using memo_valid_on_same[OF v] seek nf by (simp add: thread_ok_def call_spec_def)
  qed
qed

lemma list_all2_set_nth:
  "list_all2 P xs ys \<Longrightarrow> i < length xs \<Longrightarrow> P (xs ! i) y \<Longrightarrow> list_all2 P xs (ys[i := y])"
  using list_all2_update_cong[of P xs ys "xs ! i" y i] by simp

lemma session_call:
  assumes "list_all (in_session client model p B) calls" and "i < length calls"
  obtains s si where "calls ! i = (s, si, client, model, p)" and "unread s \<in> B"
  using list_all_nth[OF assms] by (cases "calls ! i") (auto simp: in_session_def)

lemma sess_inv_step:
  assumes inj: "inj_on (lib_md5 libs) B" and sess: "list_all (in_session client model p B) calls"
    and step: "conc_step libs x y" and inv: "sess_inv libs client model p B calls x"
  shows "sess_inv libs client model p B calls y"
  using step inv
proof (induction rule: conc_step.induct)
  case (start i ts c cs t cs')
  have l2: "list_all2 (thread_ok libs) calls ts" and v: "memo_valid_on libs client model p B cs"
    using start(4) by (simp_all add: sess_inv_def)
  have i: "i < length calls"
    using start(1) list_all2_lengthD[OF l2] by simp
  have ci: "calls ! i = c"
    using list_all2_nthD[OF l2 i] start(2) by (simp add: thread_ok_def)
  obtain s si where c: "calls ! i = (s, si, client, model, p)" and b: "unread s \<in> B"
    using session_call[OF sess i] .
  have "thread_ok libs c t \<and> memcache cs' = memcache cs"
    using thread_start_ok[OF inj v b, of si t cs'] start(3) ci c by simp
  then show ?case
    using list_all2_set_nth[OF l2 i] memo_valid_on_same[OF v] ci by (simp add: sess_inv_def)
next
  case (finish i ts k response cs t cs')
  have l2: "list_all2 (thread_ok libs) calls ts" and v: "memo_valid_on libs client model p B cs"
    using finish(4) by (simp_all add: sess_inv_def)
  have i: "i < length calls"
    using finish(1) list_all2_lengthD[OF l2] by simp
  obtain s si where c: "calls ! i = (s, si, client, model, p)" and b: "unread s \<in> B"
    using session_call[OF sess i] .
  have w: "thread_ok libs (s, si, client, model, p) (Waiting k response)"
    using list_all2_nthD[OF l2 i] finish(2) c by simp
  have "thread_ok libs (calls ! i) t \<and> memo_valid_on libs client model p B cs'"
    using thread_finish_ok[OF w v b finish(3)] c by simp
  then show ?case
    using list_all2_set_nth[OF l2 i] by (simp add: sess_inv_def)
qed

lemma sess_inv_reach:
  assumes inj: "inj_on (lib_md5 libs) B" and sess: "list_all (in_session client model p B) calls"
    and v: "memo_valid_on libs client model p B cs0"
    and reach: "(conc_step libs)\<^sup>*\<^sup>* (cs0, map Ready calls) y"
  shows "sess_inv libs client model p B calls y"
  using reach
proof (induction rule: rtranclp_induct)
  case base
  have "list_all2 (thread_ok libs) calls (map Ready calls)"
    by (simp add: list_all2_conv_all_nth thread_ok_def)
  then show ?case
    using v by (simp add: sess_inv_def)
next
  case (step y z)
  show ?case
    by (rule sess_inv_step[OF inj sess step.hyps(2) step.IH])
qed

section \<open>Every finished thread answers as the specification\<close>

text \<open>C7. Within a session whose images lie in a set of byte strings on which the digest is injective, however the two steps of concurrent calls interleave, every thread that is done holds exactly the answer of the uncached specification for its call: UnsupportedOperation for an unseekable stream, None when reading fails, otherwise the direct caption of its unread bytes.\<close>

theorem conc_session_results:
  assumes "inj_on (lib_md5 libs) B" and "list_all (in_session client model p B) calls"
    and "memo_valid_on libs client model p B cs0"
    and "(conc_step libs)\<^sup>*\<^sup>* (cs0, map Ready calls) (cs, ts)"
    and "i < length ts" and "ts ! i = Done r"
  shows "r = call_spec libs (calls ! i)"
proof -
  have "list_all2 (thread_ok libs) calls ts"
    using sess_inv_reach[OF assms(1-4)] by (simp add: sess_inv_def)
  then show ?thesis
    using list_all2_nthD2[OF _ assms(5)] assms(6) by (fastforce simp: thread_ok_def)
qed

section \<open>Two calls of one session on concrete bytes\<close>

lemma demo_session_run:
  "(conc_step demo_libs)\<^sup>*\<^sup>* (empty_cstate, map Ready [(demo_stream [1, 0, 100, 0, 50], demo_info, demo_echo, ''m'', None), (demo_stream [1, 0, 100, 0, 50], demo_info, demo_echo, ''m'', None)])
     (demo_race_end ''m'', [Done (Inr (Some ''m'')), Done (Inr (Some ''m''))])"
  using demo_race_run[of "''m''"] unfolding demo_race_calls .

lemma demo_session_hyps:
  "inj_on (lib_md5 demo_libs) {[1, 0, 100, 0, 50]} \<and> list_all (in_session demo_echo ''m'' None {[1, 0, 100, 0, 50]}) [(demo_stream [1, 0, 100, 0, 50], demo_info, demo_echo, ''m'', None), (demo_stream [1, 0, 100, 0, 50], demo_info, demo_echo, ''m'', None)]
   \<and> memo_valid_on demo_libs demo_echo ''m'' None {[1, 0, 100, 0, 50]} empty_cstate"
  by (simp add: in_session_def memo_valid_on_def empty_cstate_def demo_stream_def unread_def)

theorem conc_session_results_witness:
  "inj_on (lib_md5 demo_libs) {[1, 0, 100, 0, 50]} \<and> list_all (in_session demo_echo ''m'' None {[1, 0, 100, 0, 50]}) [(demo_stream [1, 0, 100, 0, 50], demo_info, demo_echo, ''m'', None), (demo_stream [1, 0, 100, 0, 50], demo_info, demo_echo, ''m'', None)]
   \<and> memo_valid_on demo_libs demo_echo ''m'' None {[1, 0, 100, 0, 50]} empty_cstate
   \<and> (conc_step demo_libs)\<^sup>*\<^sup>* (empty_cstate, map Ready [(demo_stream [1, 0, 100, 0, 50], demo_info, demo_echo, ''m'', None), (demo_stream [1, 0, 100, 0, 50], demo_info, demo_echo, ''m'', None)])
       (demo_race_end ''m'', [Done (Inr (Some ''m'')), Done (Inr (Some ''m''))])
   \<and> 1 < length [Done (Inr (Some ''m'')), Done (Inr (Some ''m''))]
   \<and> [Done (Inr (Some ''m'')), Done (Inr (Some ''m''))] ! 1 = Done (Inr (Some ''m''))
   \<and> Inr (Some ''m'') = call_spec demo_libs ([(demo_stream [1, 0, 100, 0, 50], demo_info, demo_echo, ''m'', None), (demo_stream [1, 0, 100, 0, 50], demo_info, demo_echo, ''m'', None)] ! 1)"
  using demo_session_hyps demo_session_run
    conc_session_results[where i=1 and r="Inr (Some ''m'')" and client=demo_echo and model="''m''"
      and p=None and B="{[1, 0, 100, 0, 50]}", OF _ _ _ demo_session_run]
  by simp

end
