(* ===== verification/Spec2Isabelle.thy ===== *)
theory Spec2Isabelle
  imports Memo Base64_Reference Calls Concurrent Interleaved_Session
begin

text \<open>
  Verification development of the image-captioning helper of markitdown,
  \<open>src/packages/markitdown/src/markitdown/converters/_llm_caption.py\<close> (95 lines).

  \<^bold>\<open>The program.\<close> \<open>llm_caption\<close> takes a binary stream, stream metadata, a chat
  client, a model name and an optional prompt. It remembers the stream position
  (\<open>tell\<close>), reads the unread bytes, keys them by their MD5 digest in the process-wide
  dictionary \<open>MEMCACHE\<close>, and returns a cached caption when there is one. Otherwise it
  normalises the image to a \<open>data:image/jpeg;base64,\<close> URI with
  \<open>encode_image_as_base64_data_uri\<close>, which passes small JPEG files through unchanged
  and otherwise shrinks the image with \<open>resize_image\<close> so that its shorter side is
  1080 pixels and re-encodes it as JPEG. Any exception in reading, hashing or
  normalising makes the call return \<open>None\<close>; the stream position is restored in a
  \<open>finally\<close> clause. The handler then sends one chat request (the prompt and the image
  URL, temperature 0.6) to the client, takes the content of the first choice, stores it
  in \<open>MEMCACHE\<close> and returns it; exceptions of the client propagate.

  \<^bold>\<open>Theories.\<close>
  \<^item> \<open>Prelude\<close>: bytes as \<open>8 word\<close>, the Python exceptions (\<open>py_error\<close>), exception
    propagation (\<open>raise_bind\<close>), shared arithmetic on byte groups.
  \<^item> \<open>Base64\<close>: \<open>b64encode\<close>, the RFC 4648 encoding computed by the standard library's
    \<open>base64.b64encode(...).decode("utf-8")\<close> on lines 16 and 26, and the strict decoder
    \<open>b64decode\<close> of the specification. Its lemmas (round trip, length, alphabet) are
    facts about the library model that the module's properties use.
  \<^item> \<open>Base64_Reference\<close>: RFC 4648's bit-level definition \<open>b64_ref\<close> and the proof that
    \<open>b64encode\<close> computes it, a check of the library model.
  \<^item> \<open>Float64\<close>: Python floats as binary64 values kept as rationals (\<open>to_double\<close>,
    round to nearest, ties to even), \<open>int / int\<close>, \<open>float * int\<close> and \<open>int()\<close>;
    rounding error \<open>2\<^sup>-\<^sup>5\<^sup>3\<close> per operation and exactness on integers below \<open>2\<^sup>5\<^sup>3\<close>, the
    facts the bounds on \<open>resize_image\<close> are proved from.
  \<^item> \<open>Image\<close>: PIL as the record \<open>codec\<close> of the four calls the module makes and its
    contract \<open>pil_contract\<close>; \<open>resize_dims\<close> (lines 34-41), \<open>resize_image\<close> (29-44),
    \<open>maybe_resize\<close> (18-21), \<open>reencode_jpeg\<close> (23-26) and
    \<open>encode_image_as_base64_data_uri\<close> (11-26), which returns the printed lines with its
    result.
  \<^item> \<open>Caption\<close>: the stream (\<open>py_tell\<close>, \<open>py_read\<close>, \<open>py_seek\<close>), the module state
    \<open>cstate\<close> (\<open>MEMCACHE\<close>, standard output, the requests sent to the client), the
    try block \<open>prepare_image\<close> (58-69), \<open>caption_request\<close> and \<open>call_model\<close> (74-95),
    the handler \<open>llm_caption\<close> (47-95) and the states reachable by sequences of calls
    (\<open>caption_reachable\<close>, with the invariant \<open>cache_inv\<close>).
  \<^item> \<open>Memo\<close>: the contract of \<open>MEMCACHE\<close>. \<open>caption_direct\<close> is the uncached
    captioning of a byte string (the specification); \<open>memo_valid_on B\<close> the memo-table
    invariant (every cached caption is the direct caption of bytes in \<open>B\<close> with that key,
    \<open>memo_valid\<close> the case of all byte strings) and \<open>session_reachable B\<close> the states
    reached by calls sharing one client, model and prompt on images with bytes in \<open>B\<close>.
  \<^item> \<open>Calls\<close>: \<open>run_calls\<close>, a sequence of calls of \<open>llm_caption\<close> sharing the
    module state, as the process-wide \<open>MEMCACHE\<close> is shared; what a cached caption
    guarantees for every later call.
  \<^item> \<open>Concurrent\<close>: calls from several threads. A call is two atomic steps,
    \<open>thread_start\<close> (lines 59-91, up to the request sent to the client) and
    \<open>thread_finish\<close> (lines 92-95, the response and the cache write), because CPython
    switches threads while the client call waits on I/O; \<open>conc_step\<close> interleaves the
    steps of all threads over the shared module state. \<open>run_thread_llm_caption\<close> checks
    that the two steps in sequence are \<open>llm_caption\<close>.
  \<^item> \<open>Interleaved_Session\<close>: threads that share the client, the model and the prompt,
    on images with bytes in a set \<open>B\<close>. \<open>call_spec\<close> is the uncached specification of
    one call, \<open>thread_ok\<close> relates a call to its thread, and \<open>sess_inv\<close> (the memo table
    over \<open>B\<close> and \<open>thread_ok\<close> for every thread) is preserved by every step.
  \<^item> this theory: the properties that span the components.

  \<^bold>\<open>What the lemmas show.\<close> The handler always gives the stream back at the position
  it found it; the cache only grows and an entry is never overwritten; a cache hit
  answers without calling the client, and a second call on the same bytes is answered
  from the cache; over any sequence of calls a cached caption answers every later call
  on the same bytes (\<open>Calls\<close>). Within a session (same client, model and prompt) on
  images from a set \<open>B\<close> on which MD5 is injective (a hypothesis on the images actually
  captioned, not on MD5 as a whole), the memoised handler refines the direct
  specification: every answer is the uncached caption of the unread bytes (\<open>Memo\<close>, a
  simulation proved by rule induction over \<open>session_reachable\<close>). Every branch of the
  handler is stated with its error: the client's exceptions and \<open>IndexError\<close>
  propagate, normalisation errors become \<open>None\<close>, a stream without \<open>tell\<close> raises. In
  every reachable state the cache has at most one entry per request sent and every
  request is well formed. The result depends only on the unread bytes, not on the
  stream metadata; the prompt is replaced by the default exactly when it is all
  whitespace. The Base64 payload of a passed-through JPEG decodes to the unread bytes;
  every other image is re-encoded and its URI carries the encoder's buffer; a resize
  prints exactly one line with the sizes before and after. The long side computed by
  \<open>resize_image\<close> is within one pixel of the exact quotient, and exact when the division
  is inexact; every error of the resize step comes from PIL, never from the arithmetic;
  with PIL's contract, normalisation fails only when opening the image fails. Under
  interleaving (\<open>Concurrent\<close>) the cache stays bounded by the requests sent, within a
  session the cache stays a valid memo table, and (\<open>Interleaved_Session\<close>) every
  finished thread answers as \<open>call_spec\<close> at every point of every interleaving, also
  when the client samples a different caption for each request. For any two calls on
  the same bytes some interleaving makes both miss, both call the client, and the
  second write replace the first caption (\<open>conc_race_overwrites\<close>).

  \<^bold>\<open>Findings.\<close> Python's float rounding makes a 2140 by 2140 image resize to 1080 by
  1079 (\<open>resize_dims_square_2140\<close>), so the shorter side is not always the threshold; a
  threshold of 1 asks PIL for a zero-height image for a 49 by 49 input
  (\<open>resize_threshold_one\<close>). The handler reads from the current position, not the whole
  stream. The cache key is the digest of the bytes alone, so a caption cached for one
  model and prompt answers a later call with another (\<open>cache_ignores_model_and_prompt\<close>).
  \<open>tell\<close> is outside the try block, so an unseekable stream raises instead of returning
  \<open>None\<close>. A call whose client raises caches nothing, so the next call on the same
  bytes calls the client again. Two concurrent calls on the same bytes both miss, both
  call the client, and the second write replaces the first caption; with the sampling
  client the code asks for (temperature 0.6) this happens within one session, and the
  first caller keeps a caption that is not the cached one (\<open>conc_race_overwrites\<close>).

  \<^bold>\<open>Not modelled.\<close> The pixels and PIL's decoding, resampling and JPEG encoding (an
  abstract payload and the codec's contract); MD5 (a parameter: equal contents give
  equal keys; the refinements assume injectivity only on the session's images);
  \<open>mimetypes.guess_type\<close> (a parameter; its result is never used); the network client,
  a function from the request to a response or an exception fixed when the request is
  sent: a sampling client is a different function per call, but a call that never
  returns (the code sets no timeout) is not expressible, so nothing is claimed about
  termination or progress of the real calls; non-ASCII whitespace in \<open>str.strip\<close>; the
  \<open>assert isinstance\<close> of line 32, which always holds on the module's own calls;
  thread switches inside one of the two steps of a call, which touch only the thread's
  own data and the order of printed lines; \<open>StreamInfo\<close> beyond the two fields read,
  since its class is not part of this file. No fuel or loop bound is needed: every
  recursion is structural except \<open>nat_str\<close>, whose termination (on \<open>n div 10\<close>) the
  function package proves, and the code has no loop of its own.
\<close>

section \<open>Properties across components\<close>

text \<open>C10. For a JPEG whose shorter side is at most the threshold, encode_image_as_base64_data_uri prints nothing and returns the data URI prefix followed by a Base64 payload that decodes to exactly the input bytes.\<close>

theorem passthrough_payload_roundtrip:
  assumes "open_image codec data = Inr img" and "img_min_side img \<le> m"
    and "is_jpeg_format (img_format img)"
  shows "\<exists>uri. encode_image_as_base64_data_uri codec data m = ([], Inr uri)
           \<and> take (length data_uri_prefix) uri = data_uri_prefix
           \<and> b64decode (drop (length data_uri_prefix) uri) = Some data"
  using encode_passthrough[OF assms] by (simp add: jpeg_data_uri_def)

theorem passthrough_payload_roundtrip_witness:
  "open_image demo_codec [1, 0, 100, 0, 50]
     = Inr \<lparr>img_format = Some ''JPEG'', img_size = (100, 50), img_mode = ''RGB'', img_pixels = ()\<rparr>
   \<and> (\<exists>uri. encode_image_as_base64_data_uri demo_codec [1, 0, 100, 0, 50] 1080 = ([], Inr uri)
        \<and> take (length data_uri_prefix) uri = data_uri_prefix
        \<and> b64decode (drop (length data_uri_prefix) uri) = Some [1, 0, 100, 0, 50])"
proof -
  have m: "img_min_side \<lparr>img_format = Some ''JPEG'', img_size = (100, 50), img_mode = ''RGB'',
             img_pixels = ()\<rparr> \<le> (1080::int)"
    by (simp add: img_min_side_def)
  have j: "is_jpeg_format (img_format \<lparr>img_format = Some ''JPEG'', img_size = (100, 50),
             img_mode = ''RGB'', img_pixels = ()\<rparr>)"
    by (simp add: is_jpeg_format_def)
  show ?thesis
    using demo_open_jpeg passthrough_payload_roundtrip[OF demo_open_jpeg m j] by simp
qed

end
